theory Spec2Isabelle
  imports Main "HOL-Library.AList" "HOL-Library.Sublist"
begin

section \<open>JavaScript values\<close>

text \<open>
  The deployment module \<^verbatim>\<open>botProjectDeploy.ts\<close> handles settings files, service
  responses and logger payloads as untyped JavaScript values (\<^verbatim>\<open>any\<close>). They are
  modelled by one datatype. An object is the list of its own enumerable properties in
  enumeration order; numbers are restricted to integers (no claim depends on fractions);
  the special key \<^verbatim>\<open>__proto__\<close> is outside the model.
\<close>

datatype json =
    JUndefined
  | JNull
  | JBool bool
  | JNum int
  | JStr string
  | JArr "json list"
  | JObj "(string \<times> json) list"

type_synonym obj = "(string \<times> json) list"

text \<open>The conversion to boolean that \<^verbatim>\<open>if (v)\<close>, \<^verbatim>\<open>!v\<close> and \<^verbatim>\<open>a && b\<close> apply.\<close>

fun truthy :: "json \<Rightarrow> bool" where
  "truthy JUndefined = False"
| "truthy JNull = False"
| "truthy (JBool b) = b"
| "truthy (JNum n) = (n \<noteq> 0)"
| "truthy (JStr s) = (s \<noteq> [])"
| "truthy (JArr xs) = True"
| "truthy (JObj ps) = True"

text \<open>Decimal digits of a natural number, most significant first.\<close>

fun digits :: "nat \<Rightarrow> string" where
  "digits n =
     (if n < 10 then [char_of (48 + n)]
      else digits (n div 10) @ [char_of (48 + n mod 10)])"

declare digits.simps [simp del]

definition show_int :: "int \<Rightarrow> string" where
  "show_int i = (if i < 0 then CHR ''-'' # digits (nat (- i)) else digits (nat i))"

fun join_with :: "string \<Rightarrow> string list \<Rightarrow> string" where
  "join_with sep [] = []"
| "join_with sep [x] = x"
| "join_with sep (x # y # ys) = x @ sep @ join_with sep (y # ys)"

text \<open>
  The string a value contributes to a template literal \<^verbatim>\<open>`...${v}...`\<close>
  (the language's ToString): an array joins its elements with commas, printing
  \<^verbatim>\<open>null\<close> and \<^verbatim>\<open>undefined\<close> elements as the empty string; an object prints as
  \<^verbatim>\<open>[object Object]\<close>.
\<close>

fun js_toString :: "json \<Rightarrow> string" where
  "js_toString JUndefined = ''undefined''"
| "js_toString JNull = ''null''"
| "js_toString (JBool b) = (if b then ''true'' else ''false'')"
| "js_toString (JNum n) = show_int n"
| "js_toString (JStr s) = s"
| "js_toString (JArr xs) =
     join_with '','' (map (\<lambda>x. if x = JUndefined \<or> x = JNull then [] else js_toString x) xs)"
| "js_toString (JObj ps) = ''[object Object]''"

text \<open>
  Property read \<^verbatim>\<open>v.k\<close> for the fixed property names the module uses (none of them
  is \<^verbatim>\<open>length\<close>, an index or a built-in method, so a primitive or an array has
  none of them). Reading a property of \<^verbatim>\<open>null\<close> or \<^verbatim>\<open>undefined\<close> is a TypeError,
  which \<open>read_prop\<close> reports as \<open>None\<close>.
\<close>

fun field :: "json \<Rightarrow> string \<Rightarrow> json" where
  "field (JObj ps) k = (case map_of ps k of None \<Rightarrow> JUndefined | Some v \<Rightarrow> v)"
| "field v k = JUndefined"

fun read_prop :: "json \<Rightarrow> string \<Rightarrow> json option" where
  "read_prop JUndefined k = None"
| "read_prop JNull k = None"
| "read_prop v k = Some (field v k)"

text \<open>Optional chaining \<^verbatim>\<open>v?.k\<close>: \<^verbatim>\<open>undefined\<close> when \<open>v\<close> is nullish.\<close>

fun opt_chain :: "json \<Rightarrow> string \<Rightarrow> json" where
  "opt_chain JUndefined k = JUndefined"
| "opt_chain JNull k = JUndefined"
| "opt_chain v k = field v k"

text \<open>
  \<^verbatim>\<open>Object.assign(target, source)\<close>: every own enumerable property of the source is
  read and set on the target, in the source's enumeration order. Setting a property
  that exists replaces its value in place, a new one is added at the end. A nullish
  source is skipped; a string or an array contributes its indexed elements.
\<close>

definition own_keys :: "obj \<Rightarrow> string list" where
  "own_keys ps = map fst (AList.clearjunk ps)"

definition set_prop :: "obj \<Rightarrow> string \<Rightarrow> json \<Rightarrow> obj" where
  "set_prop ps k v = AList.update k v ps"

fun indexed :: "nat \<Rightarrow> json list \<Rightarrow> obj" where
  "indexed i [] = []"
| "indexed i (x # xs) = (digits i, x) # indexed (Suc i) xs"

fun enumerable :: "json \<Rightarrow> obj" where
  "enumerable (JObj ps) = ps"
| "enumerable (JArr xs) = indexed 0 xs"
| "enumerable (JStr s) = indexed 0 (map (\<lambda>c. JStr [c]) s)"
| "enumerable v = []"

definition assign_step :: "obj \<Rightarrow> obj \<Rightarrow> string \<Rightarrow> obj" where
  "assign_step source acc k =
     (case map_of source k of None \<Rightarrow> acc | Some v \<Rightarrow> set_prop acc k v)"

definition assign_obj :: "obj \<Rightarrow> obj \<Rightarrow> obj" where
  "assign_obj target source = foldl (assign_step source) target (own_keys source)"

definition Object_assign :: "obj \<Rightarrow> json \<Rightarrow> obj" where
  "Object_assign target source = assign_obj target (enumerable source)"


text \<open>
  What \<^verbatim>\<open>JSON.stringify\<close> followed by \<^verbatim>\<open>JSON.parse\<close> makes of a value: a property
  whose value is \<^verbatim>\<open>undefined\<close> is dropped, an \<^verbatim>\<open>undefined\<close> array element
  becomes \<^verbatim>\<open>null\<close>.
\<close>

fun jsonify :: "json \<Rightarrow> json" where
  "jsonify (JArr xs) = JArr (map (\<lambda>x. if x = JUndefined then JNull else jsonify x) xs)"
| "jsonify (JObj ps) =
     JObj (map (\<lambda>p. (fst p, jsonify (snd p))) (filter (\<lambda>p. snd p \<noteq> JUndefined) ps))"
| "jsonify v = v"

section \<open>Strings and paths\<close>

text \<open>
  \<^verbatim>\<open>String.prototype.indexOf\<close>: the position of the first occurrence, \<open>-1\<close> when
  there is none. \<^verbatim>\<open>endsWith\<close> and \<^verbatim>\<open>includes\<close> are \<open>suffix\<close> and
  \<open>sublist\<close> of the list library.
\<close>

fun indexOf_from :: "nat \<Rightarrow> string \<Rightarrow> string \<Rightarrow> int" where
  "indexOf_from i [] pat = (if pat = [] then int i else - 1)"
| "indexOf_from i (c # cs) pat =
     (if prefix pat (c # cs) then int i else indexOf_from (Suc i) cs pat)"

definition indexOf :: "string \<Rightarrow> string \<Rightarrow> int" where
  "indexOf s pat = indexOf_from 0 s pat"

definition endsWith :: "string \<Rightarrow> string \<Rightarrow> bool" where
  "endsWith s pat = suffix pat s"

definition str_includes :: "string \<Rightarrow> string \<Rightarrow> bool" where
  "str_includes s pat = (0 \<le> indexOf s pat)"

text \<open>
  A path is the list of its segments from the root; \<^verbatim>\<open>path.join(p, 'a', 'b')\<close> and
  \<^verbatim>\<open>path.resolve(dir, name)\<close> append segments. \<open>path_str\<close> is the string the
  module's string tests (\<^verbatim>\<open>endsWith\<close>, \<^verbatim>\<open>includes\<close>) see.
\<close>

type_synonym path = "string list"

definition path_str :: "path \<Rightarrow> string" where
  "path_str p = concat (map (\<lambda>seg. CHR ''/'' # seg) p)"

section \<open>Errors, files and the world\<close>

text \<open>
  A file holds JSON text (of a value), other bytes, or a zip archive: its entries by
  path relative to the archived directory, a file entry with the content of the file and
  a directory entry with none. HTTP bodies are texts of the same kind.
\<close>

datatype content =
    JsonText json
  | Plain string
  | Archive "(path \<times> content option) list"

text \<open>
  What the module can throw or be rejected with: its own \<^verbatim>\<open>new Error(message)\<close>,
  the runtime's TypeError and SyntaxError, request-promise's StatusCodeError (status code
  and \<^verbatim>\<open>error\<close>, the response body) and RequestError, the Azure SDK's RestError
  (with its \<^verbatim>\<open>body\<close>), and failures of the file system and of other libraries.
  \<open>Uncaught e\<close> is the error \<open>e\<close> raised outside every promise, as an
  \<^verbatim>\<open>'error'\<close> event that no listener handles: an uncaught exception of the process.
  No \<^verbatim>\<open>catch\<close> block sees it, and the method that was running does not return.
\<close>

datatype exn =
    Error string
  | TypeError
  | SyntaxError
  | StatusCodeError int content
  | RequestError string
  | RestError json
  | IOError string
  | Uncaught exn

fun catchable :: "exn \<Rightarrow> bool" where
  "catchable (Uncaught e) = False"
| "catchable e = True"

datatype node = File content | Dir "(string \<times> node) list"

fun lookup :: "node \<Rightarrow> path \<Rightarrow> node option" where
  "lookup n [] = Some n"
| "lookup (File c) (seg # p) = None"
| "lookup (Dir es) (seg # p) =
     (case map_of es seg of None \<Rightarrow> None | Some n \<Rightarrow> lookup n p)"

text \<open>Put a node at a path whose parent directory exists; \<open>None\<close> otherwise.\<close>

fun put :: "node \<Rightarrow> path \<Rightarrow> node \<Rightarrow> node option" where
  "put n [] new = None"
| "put (File c) (seg # p) new = None"
| "put (Dir es) [seg] new = Some (Dir (AList.update seg new es))"
| "put (Dir es) (seg # p) new =
     (case map_of es seg of
        None \<Rightarrow> None
      | Some n \<Rightarrow>
          (case put n p new of
             None \<Rightarrow> None
           | Some n' \<Rightarrow> Some (Dir (AList.update seg n' es))))"

fun remove_node :: "node \<Rightarrow> path \<Rightarrow> node" where
  "remove_node n [] = n"
| "remove_node (File c) (seg # p) = File c"
| "remove_node (Dir es) [seg] = Dir (AList.delete seg es)"
| "remove_node (Dir es) (seg # p) =
     (case map_of es seg of
        None \<Rightarrow> Dir es
      | Some n \<Rightarrow> Dir (AList.update seg (remove_node n p) es))"

text \<open>
  Modelled from the spec: the logger statuses of \<^verbatim>\<open>botProjectLoggerType.ts\<close>, which is
  not among the source files; the spec lists them as a closed enumeration.
\<close>

datatype BotProjectDeployLoggerType =
    DEPLOY_INFO
  | DEPLOY_SUCCESS
  | DEPLOY_ERROR
  | PROVISION_INFO
  | PROVISION_SUCCESS
  | PROVISION_ERROR
  | PROVISION_ERROR_DETAILS
  | PROVISION_WARNING

text \<open>A logger event: the status and the message, a value or a response text.\<close>

datatype message = Val json | Body content

type_synonym event = "BotProjectDeployLoggerType \<times> message"

text \<open>
  The calls the module makes to other systems, with the arguments it chooses: HTTP
  requests (URI, headers or bearer token, body), the Azure SDK operations, the runtime
  plugin's \<^verbatim>\<open>buildDeploy\<close> and the LU build library. The registration of an
  application is recorded with its display name and password; the dates of the password
  credential come from the clock and are left out.
\<close>

datatype call =
    HttpGet string obj
  | HttpPostJson string obj json
  | ZipDeployPost string string content
  | ApplicationsCreate string string
  | ResourceGroupsCreateOrUpdate string json
  | DeploymentsValidate string string json
  | DeploymentsCreateOrUpdate string string json
  | DeploymentsGet string string
  | DeploymentOperationsList string string
  | ComponentsGet string string
  | APIKeysCreate string string json
  | BotsGet string string
  | BotsUpdate string string json
  | RuntimeBuildDeploy path json
  | LuBuild "path list" obj

record world =
  fs :: node
  logged :: "event list"
  calls :: "call list"
  tenantId :: json

text \<open>
  The environment answers every call, as a function of the calls made so far. The
  runtime plugin and the LU build library also change the file tree. The clock gives
  \<^verbatim>\<open>new Date().getTime().toString()\<close>; the stringifiers stand for
  \<^verbatim>\<open>JSON.stringify\<close> on a value, on a caught error object, and on a caught
  error object with its own property names as the replacer. The last three fields are
  what \<^verbatim>\<open>zipDirectory\<close> leaves to the runtime. It starts the write stream and the
  walk of the source directory without waiting for either: whether the stream has
  created the output file when the walk lists the directory it is in, and the bytes of
  the unfinished archive that are read when the output file is itself archived (both for
  a source and an output path). And it registers no listener for the errors of the write
  stream: whether such an error is thrown as an uncaught exception or dropped depends on
  the version of the stream library.
\<close>

record env =
  service :: "call list \<Rightarrow> call \<Rightarrow> exn + json"
  http_text :: "call list \<Rightarrow> call \<Rightarrow> exn + content"
  run_buildDeploy :: "call list \<Rightarrow> path \<Rightarrow> json \<Rightarrow> node \<Rightarrow> (exn + path) \<times> node"
  run_luBuild :: "call list \<Rightarrow> path list \<Rightarrow> obj \<Rightarrow> node \<Rightarrow> json list \<times> (exn + unit) \<times> node"
  clock :: string
  JSON_stringify :: "json \<Rightarrow> string"
  stringify_error :: "exn \<Rightarrow> string"
  stringify_own_properties :: "exn \<Rightarrow> string"
  opened_before_listed :: "path \<Rightarrow> path \<Rightarrow> bool"
  unfinished_archive :: "path \<Rightarrow> path \<Rightarrow> string"
  unhandled_error_thrown :: bool

section \<open>Sequential, fallible, effectful code\<close>

text \<open>
  An \<^verbatim>\<open>async\<close> method is a function from the world to a result and the new world;
  \<open>Inl\<close> is a thrown error or a rejected promise. \<open>andThen\<close> is \<^verbatim>\<open>await\<close>
  followed by the rest of the body; \<open>try_catch\<close> is \<^verbatim>\<open>try { ... } catch (e) { ... }\<close>,
  whose handler gets every error but an uncaught exception of the process.
\<close>

type_synonym 'a prog = "world \<Rightarrow> (exn + 'a) \<times> world"

definition ret :: "'a \<Rightarrow> 'a prog" where
  "ret x w = (Inr x, w)"

definition throw :: "exn \<Rightarrow> 'a prog" where
  "throw e w = (Inl e, w)"

definition andThen :: "'a prog \<Rightarrow> ('a \<Rightarrow> 'b prog) \<Rightarrow> 'b prog" where
  "andThen m f w = (case m w of (Inl e, w') \<Rightarrow> (Inl e, w') | (Inr x, w') \<Rightarrow> f x w')"

definition try_catch :: "'a prog \<Rightarrow> (exn \<Rightarrow> 'a prog) \<Rightarrow> 'a prog" where
  "try_catch m h w =
     (case m w of
        (Inl e, w') \<Rightarrow> if catchable e then h e w' else (Inl e, w')
      | (Inr x, w') \<Rightarrow> (Inr x, w'))"

definition lift :: "exn + 'a \<Rightarrow> 'a prog" where
  "lift r w = (r, w)"

definition logger :: "BotProjectDeployLoggerType \<Rightarrow> message \<Rightarrow> unit prog" where
  "logger status msg w = (Inr (), w\<lparr>logged := logged w @ [(status, msg)]\<rparr>)"

definition invoke :: "env \<Rightarrow> call \<Rightarrow> json prog" where
  "invoke E c w = (service E (calls w) c, w\<lparr>calls := calls w @ [c]\<rparr>)"

definition invoke_text :: "env \<Rightarrow> call \<Rightarrow> content prog" where
  "invoke_text E c w = (http_text E (calls w) c, w\<lparr>calls := calls w @ [c]\<rparr>)"

text \<open>Property read that throws TypeError on \<^verbatim>\<open>null\<close> and \<^verbatim>\<open>undefined\<close>.\<close>

definition get :: "json \<Rightarrow> string \<Rightarrow> json prog" where
  "get v k = (case read_prop v k of None \<Rightarrow> throw TypeError | Some x \<Rightarrow> ret x)"

text \<open>\<^verbatim>\<open>JSON.parse\<close> of a text.\<close>

fun JSON_parse :: "content \<Rightarrow> exn + json" where
  "JSON_parse (JsonText v) = Inr v"
| "JSON_parse c = Inl SyntaxError"

subsection \<open>File system operations (fs-extra)\<close>

definition pathExists :: "path \<Rightarrow> bool prog" where
  "pathExists p w = (Inr (lookup (fs w) p \<noteq> None), w)"

definition readFile :: "path \<Rightarrow> content prog" where
  "readFile p w =
     (case lookup (fs w) p of
        Some (File c) \<Rightarrow> (Inr c, w)
      | _ \<Rightarrow> (Inl (IOError ''ENOENT''), w))"

definition readJson :: "path \<Rightarrow> json prog" where
  "readJson p = andThen (readFile p) (\<lambda>c. lift (JSON_parse c))"

definition writeFile :: "path \<Rightarrow> content \<Rightarrow> unit prog" where
  "writeFile p c w =
     (case lookup (fs w) p of
        Some (Dir es) \<Rightarrow> (Inl (IOError ''EISDIR''), w)
      | _ \<Rightarrow>
          (case put (fs w) p (File c) of
             None \<Rightarrow> (Inl (IOError ''ENOENT''), w)
           | Some n \<Rightarrow> (Inr (), w\<lparr>fs := n\<rparr>)))"

definition writeJson :: "path \<Rightarrow> json \<Rightarrow> unit prog" where
  "writeJson p v =
     (if v = JUndefined then throw TypeError else writeFile p (JsonText (jsonify v)))"

definition mkdir :: "path \<Rightarrow> unit prog" where
  "mkdir p w =
     (case lookup (fs w) p of
        Some n \<Rightarrow> (Inl (IOError ''EEXIST''), w)
      | None \<Rightarrow>
          (case put (fs w) p (Dir []) of
             None \<Rightarrow> (Inl (IOError ''ENOENT''), w)
           | Some n \<Rightarrow> (Inr (), w\<lparr>fs := n\<rparr>)))"

definition remove :: "path \<Rightarrow> unit prog" where
  "remove p w = (Inr (), w\<lparr>fs := remove_node (fs w) p\<rparr>)"


section \<open>The class \<^verbatim>\<open>BotProjectDeploy\<close>\<close>

text \<open>
  Modelled from the spec: the type \<^verbatim>\<open>BotProjectDeployConfig\<close>, which is declared in
  a file that is not among the sources. The spec lists a subscription id, access
  credentials, a project path, paths to the archive, settings and template files, a
  runtime delegate and a logging sink; the fields are those the constructor reads, the
  three file paths optional. The logging sink is the world's \<open>logged\<close> list and the
  runtime delegate is the environment's \<open>run_buildDeploy\<close>.
\<close>

record BotProjectDeployConfig =
  cfg_subId :: string
  cfg_accessToken :: string
  cfg_creds :: json
  cfg_projPath :: path
  cfg_zipPath :: "path option"
  cfg_settingsPath :: "path option"
  cfg_templatePath :: "path option"

record BotProjectDeploy =
  subId :: string
  accessToken :: string
  creds :: json
  projPath :: path
  zipPath :: path
  settingsPath :: path
  templatePath :: path

definition new_BotProjectDeploy :: "BotProjectDeployConfig \<Rightarrow> BotProjectDeploy" where
  "new_BotProjectDeploy config =
     \<lparr> subId = cfg_subId config,
       accessToken = cfg_accessToken config,
       creds = cfg_creds config,
       projPath = cfg_projPath config,
       zipPath = (case cfg_zipPath config of
                    Some p \<Rightarrow> p | None \<Rightarrow> cfg_projPath config @ [''code.zip'']),
       settingsPath = (case cfg_settingsPath config of
                    Some p \<Rightarrow> p | None \<Rightarrow> cfg_projPath config @ [''appsettings.deployment.json'']),
       templatePath = (case cfg_templatePath config of
                    Some p \<Rightarrow> p
                  | None \<Rightarrow> cfg_projPath config
                      @ [''DeploymentTemplates'', ''template-with-preexisting-rg.json'']) \<rparr>"

subsection \<open>Deploying to existing resources\<close>

text \<open>\<^verbatim>\<open>getFiles\<close>: all the files below a directory, directories expanded in place.\<close>

fun files_under :: "path \<Rightarrow> (string \<times> node) list \<Rightarrow> path list" where
  "files_under dir [] = []"
| "files_under dir ((name, File c) # dirents) = (dir @ [name]) # files_under dir dirents"
| "files_under dir ((name, Dir sub) # dirents) =
     files_under (dir @ [name]) sub @ files_under dir dirents"

definition getFiles :: "path \<Rightarrow> path list prog" where
  "getFiles dir w =
     (case lookup (fs w) dir of
        Some (Dir dirents) \<Rightarrow> (Inr (files_under dir dirents), w)
      | _ \<Rightarrow> (Inl (IOError ''ENOTDIR''), w))"

text \<open>
  \<^verbatim>\<open>zipDirectory\<close> (lines 85--102). The archiver walks the source directory with
  the pattern \<^verbatim>\<open>**/*\<close> and \<^verbatim>\<open>dot: true\<close>: every file and every directory below
  it is an entry, but those that match the ignore list. The one ignore pattern,
  \<^verbatim>\<open>code.zip\<close>, has no wildcard and no separator: it matches the relative path
  \<^verbatim>\<open>code.zip\<close> and nothing else. A source that is a file makes the walk fail with
  ENOTDIR, which rejects the promise; a source that does not exist gives no entry.
\<close>

fun entries_under :: "path \<Rightarrow> (string \<times> node) list \<Rightarrow> (path \<times> content option) list" where
  "entries_under rel [] = []"
| "entries_under rel ((name, File c) # dirents) =
     (rel @ [name], Some c) # entries_under rel dirents"
| "entries_under rel ((name, Dir sub) # dirents) =
     (rel @ [name], None) # entries_under (rel @ [name]) sub @ entries_under rel dirents"

definition glob_ignored :: "string list \<Rightarrow> path \<Rightarrow> bool" where
  "glob_ignored patterns rel = (join_with ''/'' rel \<in> set patterns)"

definition glob_all :: "node \<Rightarrow> path \<Rightarrow> string list \<Rightarrow> exn + (path \<times> content option) list" where
  "glob_all tree cwd ignore =
     (case lookup tree cwd of
        Some (Dir dirents) \<Rightarrow>
          Inr (filter (\<lambda>e. \<not> glob_ignored ignore (fst e)) (entries_under [] dirents))
      | Some (File c) \<Rightarrow> Inl (IOError ''ENOTDIR'')
      | None \<Rightarrow> Inr [])"

text \<open>
  The write stream creates the output file, or truncates it, while the walk goes on;
  the method waits for neither before it starts the other. The tree that the archiver
  reads has the output file if the file was there before, or if the stream has created
  it when the walk lists its directory; what is archived for it are the bytes of the
  unfinished archive. A stream that cannot create the file emits an \<^verbatim>\<open>'error'\<close>
  event; the only listener that the method registers for errors is on the archiver, so
  the promise is not rejected: the error is an uncaught exception, or it is dropped and
  the stream closes without a file. The promise is resolved when the stream closes,
  with the archive in the output file if it was created, and rejected when the walk
  fails, with the output file left empty.
\<close>

definition stream :: "env \<Rightarrow> unit prog \<Rightarrow> unit prog" where
  "stream E m w =
     (case m w of
        (Inl e, w') \<Rightarrow> (if unhandled_error_thrown E then Inl (Uncaught e) else Inr (), w')
      | (Inr x, w') \<Rightarrow> (Inr x, w'))"

definition archiver_view :: "env \<Rightarrow> path \<Rightarrow> path \<Rightarrow> world \<Rightarrow> node" where
  "archiver_view E source out w =
     (if lookup (fs w) out \<noteq> None \<or> opened_before_listed E source out
      then fs (snd (writeFile out (Plain (unfinished_archive E source out)) w))
      else fs w)"

definition zipDirectory :: "env \<Rightarrow> path \<Rightarrow> path \<Rightarrow> unit prog" where
  "zipDirectory E source out w =
     (case glob_all (archiver_view E source out w) source [''code.zip''] of
        Inl err \<Rightarrow> andThen (stream E (writeFile out (Plain []))) (\<lambda>_. throw err) w
      | Inr entries \<Rightarrow> stream E (writeFile out (Archive entries)) w)"

text \<open>
  \<^verbatim>\<open>notEmptyLuisModel\<close> on a file of the listing just made: its byte length is
  positive. JSON text and archives are never empty.
\<close>

fun content_empty :: "content \<Rightarrow> bool" where
  "content_empty (Plain s) = (s = [])"
| "content_empty c = False"

definition notEmptyLuisModel :: "node \<Rightarrow> path \<Rightarrow> bool" where
  "notEmptyLuisModel tree file =
     (case lookup tree file of Some (File c) \<Rightarrow> \<not> content_empty c | _ \<Rightarrow> False)"

text \<open>
  \<^verbatim>\<open>getAccount\<close>: the first account whose \<^verbatim>\<open>AccountName\<close> is the filter,
  \<^verbatim>\<open>undefined\<close> when there is none. Iterating something that is no array or string
  is a TypeError, as is reading the name of a nullish element.
\<close>

fun find_account :: "json list \<Rightarrow> string \<Rightarrow> exn + json" where
  "find_account [] flt = Inr JUndefined"
| "find_account (account # accounts) flt =
     (case read_prop account ''AccountName'' of
        None \<Rightarrow> Inl TypeError
      | Some n \<Rightarrow> if n = JStr flt then Inr account else find_account accounts flt)"

fun getAccount :: "json \<Rightarrow> string \<Rightarrow> exn + json" where
  "getAccount (JArr accounts) flt = find_account accounts flt"
| "getAccount (JStr s) flt = find_account (map (\<lambda>c. JStr [c]) s) flt"
| "getAccount v flt = Inl TypeError"

subsection \<open>\<^verbatim>\<open>publishLuis\<close>\<close>

text \<open>
  The three calls to the LU build library (\<^verbatim>\<open>loadContents\<close>, \<^verbatim>\<open>build\<close>,
  \<^verbatim>\<open>writeDialogAssets\<close>) are one step of the environment: it gets the model files
  and the other arguments, logs its messages as \<open>DEPLOY_INFO\<close>, may fail, and leaves
  a new file tree.
\<close>

definition luBuild :: "env \<Rightarrow> path list \<Rightarrow> obj \<Rightarrow> unit prog" where
  "luBuild E modelFiles args w =
     (case run_luBuild E (calls w) modelFiles args (fs w) of
        (msgs, r, tree) \<Rightarrow>
          (r, w\<lparr> fs := tree,
                 calls := calls w @ [LuBuild modelFiles args],
                 logged := logged w @ map (\<lambda>m. (DEPLOY_INFO, Val m)) msgs \<rparr>))"

text \<open>
  Lines 203--215: the files whose path contains \<^verbatim>\<open>luis.settings\<close> are read in the
  order of the listing, and the \<^verbatim>\<open>luis\<close> object of each is assigned onto the
  running mapping \<^verbatim>\<open>luisAppIds\<close>.
\<close>

fun readLuisAppIds :: "path list \<Rightarrow> obj \<Rightarrow> obj prog" where
  "readLuisAppIds [] luisAppIds = ret luisAppIds"
| "readLuisAppIds (luisConfigFile # rest) luisAppIds =
     andThen (readJson luisConfigFile) (\<lambda>luisSettings.
     andThen (get luisSettings ''luis'') (\<lambda>luis.
     readLuisAppIds rest (Object_assign luisAppIds luis)))"

definition getLuisAppIds :: "path \<Rightarrow> obj prog" where
  "getLuisAppIds workingFolder =
     andThen (getFiles workingFolder) (\<lambda>files.
     readLuisAppIds (filter (\<lambda>filename. str_includes (path_str filename) ''luis.settings'') files) [])"

text \<open>Lines 217--223: the base LUIS config object, as the object literal is written.\<close>

definition luisConfig_base :: "json \<Rightarrow> json \<Rightarrow> json \<Rightarrow> obj" where
  "luisConfig_base luisEndpoint luisEndpointKey luisAuthoringRegion =
     [ (''endpoint'', luisEndpoint),
       (''endpointKey'', luisEndpointKey),
       (''authoringRegion'', luisAuthoringRegion),
       (''authoringKey'', luisAuthoringRegion) ]"

text \<open>
  Assignment \<^verbatim>\<open>v.k = x\<close> (the module is compiled in strict mode): a TypeError on a
  nullish value or a primitive; a named property of an array is set but is not part of
  what is serialised.
\<close>

fun assign_prop :: "json \<Rightarrow> string \<Rightarrow> json \<Rightarrow> exn + json" where
  "assign_prop (JObj ps) k x = Inr (JObj (set_prop ps k x))"
| "assign_prop (JArr xs) k x = Inr (JArr xs)"
| "assign_prop v k x = Inl TypeError"

text \<open>Lines 228--235: read the deployment settings, set \<^verbatim>\<open>luis\<close>, write them back.\<close>

definition updateDeploymentSettings :: "path \<Rightarrow> obj \<Rightarrow> unit prog" where
  "updateDeploymentSettings deploymentSettingsPath luisConfig =
     andThen (readJson deploymentSettingsPath) (\<lambda>settings.
     andThen (lift (assign_prop settings ''luis'' (JObj luisConfig))) (\<lambda>settings'.
     writeJson deploymentSettingsPath settings'))"

text \<open>
  Lines 239--262: the account list. The handler parses \<^verbatim>\<open>err.error\<close>, which is the
  response body of a StatusCodeError and is no JSON text for any other error.
  \<^verbatim>\<open>indexOf\<close> exists on strings and arrays only.
\<close>

fun err_error :: "exn \<Rightarrow> exn + json" where
  "err_error (StatusCodeError status body) = JSON_parse body"
| "err_error e = Inl SyntaxError"

fun index_of_elem :: "nat \<Rightarrow> json list \<Rightarrow> json \<Rightarrow> int" where
  "index_of_elem i [] x = - 1"
| "index_of_elem i (y # ys) x = (if y = x then int i else index_of_elem (Suc i) ys x)"

fun js_indexOf :: "json \<Rightarrow> string \<Rightarrow> exn + int" where
  "js_indexOf (JStr s) pat = Inr (indexOf s pat)"
| "js_indexOf (JArr xs) pat = Inr (index_of_elem 0 xs (JStr pat))"
| "js_indexOf v pat = Inl TypeError"

definition accountList_catch :: "exn \<Rightarrow> json prog" where
  "accountList_catch err =
     andThen (lift (err_error err)) (\<lambda>error.
     let message = opt_chain (opt_chain error ''error'') ''message'';
         code = opt_chain (opt_chain error ''error'') ''code''
     in if truthy message then
          andThen (lift (js_indexOf message ''access token expiry'')) (\<lambda>i.
          if i > 0 then
            throw (Error (''Type: '' @ js_toString code @ '', Message: '' @ js_toString message
              @ '', run az account get-access-token, then replace the accessToken in your configuration''))
          else throw err)
        else throw err)"

definition luis_headers :: "string \<Rightarrow> json \<Rightarrow> obj" where
  "luis_headers token luisAuthoringKey =
     [ (''Authorization'', JStr (''Bearer '' @ token)),
       (''Ocp-Apim-Subscription-Key'', luisAuthoringKey) ]"

definition getAccountList :: "env \<Rightarrow> string \<Rightarrow> json \<Rightarrow> json \<Rightarrow> json prog" where
  "getAccountList E token luisEndpoint luisAuthoringKey =
     try_catch
       (andThen (invoke_text E
            (HttpGet (js_toString luisEndpoint @ ''/luis/api/v2.0/azureaccounts'')
               (luis_headers token luisAuthoringKey))) (\<lambda>response.
        lift (JSON_parse response)))
       accountList_catch"

text \<open>Lines 269--290: one assignment request for each key of \<^verbatim>\<open>luisAppIds\<close>.\<close>

fun assignAccounts ::
  "env \<Rightarrow> string \<Rightarrow> json \<Rightarrow> json \<Rightarrow> json \<Rightarrow> obj \<Rightarrow> string list \<Rightarrow> unit prog" where
  "assignAccounts E token luisEndpoint luisAuthoringKey account luisAppIds [] = ret ()"
| "assignAccounts E token luisEndpoint luisAuthoringKey account luisAppIds (k # ks) =
     (let luisAppId = field (JObj luisAppIds) k in
      andThen (logger DEPLOY_INFO
         (Val (JStr (''Assigning to luis app id: '' @ js_toString luisAppId)))) (\<lambda>_.
      andThen (invoke E
         (HttpPostJson
            (js_toString luisEndpoint @ ''/luis/api/v2.0/apps/'' @ js_toString luisAppId
               @ ''/azureaccounts'')
            (luis_headers token luisAuthoringKey) account)) (\<lambda>response.
      andThen (logger DEPLOY_INFO (Val response)) (\<lambda>_.
      assignAccounts E token luisEndpoint luisAuthoringKey account luisAppIds ks))))"

text \<open>\<^verbatim>\<open>a || b\<close> on values.\<close>

definition js_or :: "json \<Rightarrow> json \<Rightarrow> json" where
  "js_or a b = (if truthy a then a else b)"

text \<open>Lines 138--140: the \<^verbatim>\<open>.lu\<close> files of the listing that are not empty.\<close>

definition modelFiles_of :: "path list \<Rightarrow> path list prog" where
  "modelFiles_of botFiles w =
     (Inr (filter (\<lambda>name. endsWith (path_str name) ''.lu'' \<and> notEmptyLuisModel (fs w) name)
             botFiles), w)"

definition luisResource_name :: "string option \<Rightarrow> string \<Rightarrow> string \<Rightarrow> string" where
  "luisResource_name luisResource name environment =
     (case luisResource of
        Some r \<Rightarrow> if r \<noteq> [] then r else name @ ''-'' @ environment @ ''-luis''
      | None \<Rightarrow> name @ ''-'' @ environment @ ''-luis'')"

text \<open>
  Lines 170--178: the endpoint defaults to that of the authoring region, and the
  authoring endpoint to the endpoint.
\<close>

definition endpoint_or_default :: "json \<Rightarrow> json \<Rightarrow> json" where
  "endpoint_or_default luisEndpoint luisAuthoringRegion =
     (if \<not> truthy luisEndpoint
      then JStr (''https://'' @ js_toString luisAuthoringRegion @ ''.api.cognitive.microsoft.com'')
      else luisEndpoint)"

definition authoringEndpoint_or_default :: "json \<Rightarrow> json \<Rightarrow> json \<Rightarrow> json" where
  "authoringEndpoint_or_default luisAuthoringEndpoint luisEndpoint luisAuthoringRegion =
     (if \<not> truthy luisAuthoringEndpoint
      then endpoint_or_default luisEndpoint luisAuthoringRegion
      else luisAuthoringEndpoint)"

text \<open>Lines 136--201: list the model files, ensure the generated folder, run the LU build.\<close>

definition publishLuis_build ::
  "env \<Rightarrow> path \<Rightarrow> string \<Rightarrow> string \<Rightarrow> string \<Rightarrow> json \<Rightarrow> json \<Rightarrow> json \<Rightarrow> json
     \<Rightarrow> unit prog" where
  "publishLuis_build E workingFolder name environment language luisEndpoint
     luisAuthoringEndpoint luisAuthoringKey luisAuthoringRegion =
     (let generatedFolder = workingFolder @ [''generated''] in
      andThen (getFiles workingFolder) (\<lambda>botFiles.
      andThen (modelFiles_of botFiles) (\<lambda>modelFiles.
      andThen (pathExists generatedFolder) (\<lambda>ex.
      andThen (if \<not> ex then mkdir generatedFolder else ret ()) (\<lambda>_.
      andThen (luBuild E modelFiles
         [ (''language'', js_or (JStr language) (JStr [])),
           (''environment'', js_or (JStr environment) (JStr [])),
           (''authoringRegion'', js_or luisAuthoringRegion (JStr [])),
           (''authoringKey'', luisAuthoringKey),
           (''authoringEndpoint'',
              authoringEndpoint_or_default luisAuthoringEndpoint luisEndpoint luisAuthoringRegion),
           (''name'', JStr name),
           (''generatedFolder'', JStr (path_str generatedFolder)) ]) (\<lambda>_.
      logger DEPLOY_INFO (Val (JStr ''lubuild succeed''))))))))"

text \<open>Lines 237--296: get the account of the LUIS resource and assign it to each app.\<close>

definition publishLuis_assign ::
  "BotProjectDeploy \<Rightarrow> env \<Rightarrow> string \<Rightarrow> string \<Rightarrow> json \<Rightarrow> json \<Rightarrow> string option \<Rightarrow> obj
     \<Rightarrow> unit prog" where
  "publishLuis_assign this E name environment luisEndpoint luisAuthoringKey luisResource
     luisAppIds =
     andThen (getAccountList E (accessToken this) luisEndpoint luisAuthoringKey) (\<lambda>accountList.
     andThen (lift (getAccount accountList
        (luisResource_name luisResource name environment))) (\<lambda>account.
     andThen (assignAccounts E (accessToken this) luisEndpoint luisAuthoringKey account
        luisAppIds (own_keys luisAppIds)) (\<lambda>_.
     logger DEPLOY_INFO (Val (JStr ''Luis Publish Success! ...'')))))"

text \<open>
  \<^verbatim>\<open>publishLuis\<close> (lines 123--298): the LU build, then the application ids of the
  generated LUIS settings files (lines 203--215), the base config with the ids copied
  into it written to the deployment settings of the build folder (lines 217--235), and
  the account assignment.
\<close>

definition publishLuis ::
  "BotProjectDeploy \<Rightarrow> env \<Rightarrow> path \<Rightarrow> string \<Rightarrow> string \<Rightarrow> string \<Rightarrow> json \<Rightarrow> json \<Rightarrow> json
     \<Rightarrow> json \<Rightarrow> json \<Rightarrow> string option \<Rightarrow> unit prog" where
  "publishLuis this E workingFolder name environment language luisEndpoint
     luisAuthoringEndpoint luisEndpointKey luisAuthoringKey luisAuthoringRegion luisResource =
     (if truthy luisAuthoringKey \<and> truthy luisAuthoringRegion then
        andThen (publishLuis_build E workingFolder name environment language luisEndpoint
           luisAuthoringEndpoint luisAuthoringKey luisAuthoringRegion) (\<lambda>_.
        andThen (getLuisAppIds workingFolder) (\<lambda>luisAppIds.
        andThen (updateDeploymentSettings (workingFolder @ [''appsettings.deployment.json''])
           (Object_assign
              (luisConfig_base (endpoint_or_default luisEndpoint luisAuthoringRegion)
                 luisEndpointKey luisAuthoringRegion)
              (JObj luisAppIds))) (\<lambda>_.
        publishLuis_assign this E name environment
          (endpoint_or_default luisEndpoint luisAuthoringRegion) luisAuthoringKey luisResource
          luisAppIds)))
      else ret ())"

subsection \<open>\<^verbatim>\<open>deploy\<close>\<close>

definition buildDeploy :: "env \<Rightarrow> path \<Rightarrow> json \<Rightarrow> path prog" where
  "buildDeploy E runtimePath project w =
     (case run_buildDeploy E (calls w) runtimePath project (fs w) of
        (r, tree) \<Rightarrow>
          (r, w\<lparr> fs := tree, calls := calls w @ [RuntimeBuildDeploy runtimePath project] \<rparr>))"

fun err_statusCode :: "exn \<Rightarrow> int option" where
  "err_statusCode (StatusCodeError status body) = Some status"
| "err_statusCode e = None"

definition publishEndpoint :: "string \<Rightarrow> string \<Rightarrow> string option \<Rightarrow> string" where
  "publishEndpoint name environment hostname =
     ''https://''
     @ (case hostname of
          Some h \<Rightarrow> if h \<noteq> [] then h else name @ ''-'' @ environment
        | None \<Rightarrow> name @ ''-'' @ environment)
     @ ''.scm.azurewebsites.net/zipdeploy/?isAsync=true''"

definition deployZip ::
  "env \<Rightarrow> string \<Rightarrow> path \<Rightarrow> string \<Rightarrow> string \<Rightarrow> string option \<Rightarrow> unit prog" where
  "deployZip E token zipFile name environment hostname =
     andThen (logger DEPLOY_INFO (Val (JStr ''Retrieve publishing details ...''))) (\<lambda>_.
     try_catch
       (andThen (readFile zipFile) (\<lambda>body.
        andThen (invoke_text E
           (ZipDeployPost (publishEndpoint name environment hostname) token body)) (\<lambda>response.
        logger DEPLOY_INFO (Body response))))
       (\<lambda>err.
          if err_statusCode err = Some 403 then
            throw (Error ''Token expired, please run az account get-access-token, then replace the accessToken in your configuration'')
          else throw err))"

text \<open>Lines 312--321: remove a previous archive and run the runtime's build.\<close>

definition deploy_build :: "BotProjectDeploy \<Rightarrow> env \<Rightarrow> json \<Rightarrow> path prog" where
  "deploy_build this E project =
     andThen (pathExists (zipPath this)) (\<lambda>ex.
     andThen (if ex then remove (zipPath this) else ret ()) (\<lambda>_.
     buildDeploy E (projPath this) project))"

text \<open>Lines 327--352: the LUIS step, on the settings read from \<^verbatim>\<open>settingsPath\<close>.\<close>

definition language_or_default :: "string option \<Rightarrow> string" where
  "language_or_default language =
     (case language of Some l \<Rightarrow> if l \<noteq> [] then l else ''en-us'' | None \<Rightarrow> ''en-us'')"

definition deploy_luis ::
  "BotProjectDeploy \<Rightarrow> env \<Rightarrow> json \<Rightarrow> path \<Rightarrow> string \<Rightarrow> string \<Rightarrow> string option
     \<Rightarrow> string option \<Rightarrow> unit prog" where
  "deploy_luis this E settings pathToArtifacts name environment language luisResource =
     andThen (get settings ''luis'') (\<lambda>luis.
     if truthy luis then
       (let luisAuthoringKey = field luis ''authoringKey'';
            luisAuthoringRegion = field luis ''region'';
            luisEndpointKey = field luis ''endpointKey'';
            luisEndpoint = field luis ''endpoint'';
            luisAuthoringEndpoint = field luis ''authoringEndpoint''
        in if truthy luisAuthoringKey \<and> truthy luisAuthoringRegion then
             publishLuis this E pathToArtifacts name environment (language_or_default language)
               luisEndpoint luisAuthoringEndpoint luisEndpointKey luisAuthoringKey
               luisAuthoringRegion luisResource
           else ret ())
     else ret ())"

text \<open>Lines 354--376: package the artifacts and upload the archive.\<close>

definition deploy_package ::
  "BotProjectDeploy \<Rightarrow> env \<Rightarrow> path \<Rightarrow> string \<Rightarrow> string \<Rightarrow> string option \<Rightarrow> unit prog" where
  "deploy_package this E pathToArtifacts name environment hostname =
     andThen (logger DEPLOY_INFO (Val (JStr ''Packing up the bot service ...''))) (\<lambda>_.
     andThen (zipDirectory E pathToArtifacts (zipPath this)) (\<lambda>_.
     andThen (logger DEPLOY_INFO (Val (JStr ''Packing Service Success!''))) (\<lambda>_.
     andThen (logger DEPLOY_INFO (Val (JStr ''Publishing to Azure ...''))) (\<lambda>_.
     andThen (deployZip E (accessToken this) (zipPath this) name environment hostname) (\<lambda>_.
     logger DEPLOY_SUCCESS (Val (JStr ''Publish To Azure Success!'')))))))"

text \<open>Lines 377--383: log the error and throw it again.\<close>

definition deploy_catch :: "env \<Rightarrow> exn \<Rightarrow> unit prog" where
  "deploy_catch E error =
     andThen (logger DEPLOY_ERROR (Val (JStr (stringify_own_properties E error)))) (\<lambda>_.
     throw error)"

definition deploy ::
  "BotProjectDeploy \<Rightarrow> env \<Rightarrow> json \<Rightarrow> string \<Rightarrow> string \<Rightarrow> string option \<Rightarrow> string option
     \<Rightarrow> string option \<Rightarrow> unit prog" where
  "deploy this E project name environment language hostname luisResource =
     try_catch
       (andThen (deploy_build this E project) (\<lambda>pathToArtifacts.
        andThen (readJson (settingsPath this)) (\<lambda>settings.
        andThen (deploy_luis this E settings pathToArtifacts name environment language
                   luisResource) (\<lambda>_.
        deploy_package this E pathToArtifacts name environment hostname))))
       (deploy_catch E)"

subsection \<open>Creating new resources\<close>

text \<open>\<^verbatim>\<open>pack\<close> and \<^verbatim>\<open>unpackObject\<close>.\<close>

definition pack :: "json \<Rightarrow> json" where
  "pack scope = JObj [(''value'', scope)]"

fun unpack_loop :: "obj \<Rightarrow> string list \<Rightarrow> obj \<Rightarrow> exn + obj" where
  "unpack_loop output [] unpacked = Inr unpacked"
| "unpack_loop output (key # keys) unpacked =
     (case read_prop (field (JObj output) key) ''value'' of
        None \<Rightarrow> Inl TypeError
      | Some v \<Rightarrow>
          unpack_loop output keys (if truthy v then set_prop unpacked key v else unpacked))"

definition unpackObject :: "json \<Rightarrow> exn + obj" where
  "unpackObject output = unpack_loop (enumerable output) (own_keys (enumerable output)) []"

text \<open>
  \<^verbatim>\<open>updateDeploymentJsonFile\<close>: fetch the deployment; when it has outputs, unpack
  them and assign them and the two application fields onto a new object, which is
  returned; \<^verbatim>\<open>null\<close> otherwise.
\<close>

definition updateDeploymentJsonFile ::
  "env \<Rightarrow> string \<Rightarrow> string \<Rightarrow> json \<Rightarrow> string \<Rightarrow> json prog" where
  "updateDeploymentJsonFile E resourceGroupName deployName appId appPwd =
     andThen (invoke E (DeploymentsGet resourceGroupName deployName)) (\<lambda>outputs.
     let outputResult = opt_chain (opt_chain outputs ''properties'') ''outputs'' in
     if truthy outputResult then
       andThen (lift (unpackObject outputResult)) (\<lambda>outputObj.
       ret (JObj (Object_assign (Object_assign [] (JObj outputObj))
              (JObj [ (''MicrosoftAppId'', appId),
                      (''MicrosoftAppPassword'', JStr appPwd) ]))))
     else ret JNull)"

text \<open>
  \<^verbatim>\<open>getErrorMesssage\<close>. Only a RestError has a \<^verbatim>\<open>body\<close>. The loop over the
  details appends each \<^verbatim>\<open>detail.message\<close> to a string.
\<close>

fun err_body :: "exn \<Rightarrow> json" where
  "err_body (RestError body) = body"
| "err_body e = JUndefined"

fun detail_messages :: "json list \<Rightarrow> string \<Rightarrow> exn + string" where
  "detail_messages [] errMsg = Inr errMsg"
| "detail_messages (detail # details) errMsg =
     (case read_prop detail ''message'' of
        None \<Rightarrow> Inl TypeError
      | Some m \<Rightarrow> detail_messages details (errMsg @ js_toString m))"

fun iterate :: "json \<Rightarrow> exn + json list" where
  "iterate (JArr xs) = Inr xs"
| "iterate (JStr s) = Inr (map (\<lambda>c. JStr [c]) s)"
| "iterate v = Inl TypeError"

definition getErrorMesssage :: "env \<Rightarrow> exn \<Rightarrow> exn + json" where
  "getErrorMesssage E err =
     (if truthy (err_body err) then
        (if truthy (field (err_body err) ''error'') then
           (if truthy (field (field (err_body err) ''error'') ''details'') then
              (case iterate (field (field (err_body err) ''error'') ''details'') of
                 Inl e \<Rightarrow> Inl e
               | Inr details \<Rightarrow>
                   (case detail_messages details [] of
                      Inl e \<Rightarrow> Inl e
                    | Inr errMsg \<Rightarrow> Inr (JStr errMsg)))
            else Inr (field (field (err_body err) ''error'') ''message''))
         else Inr (JStr (JSON_stringify E (err_body err))))
      else Inr (JStr (stringify_error E err)))"

definition getDeploymentTemplateParam ::
  "json \<Rightarrow> string \<Rightarrow> string \<Rightarrow> string \<Rightarrow> bool \<Rightarrow> bool \<Rightarrow> bool \<Rightarrow> bool \<Rightarrow> bool \<Rightarrow> json" where
  "getDeploymentTemplateParam appId appPwd location name shouldCreateAuthoringResource
     shouldCreateLuisResource useAppInsights useCosmosDb useStorage =
     JObj [ (''appId'', pack appId),
            (''appSecret'', pack (JStr appPwd)),
            (''appServicePlanLocation'', pack (JStr location)),
            (''botId'', pack (JStr name)),
            (''shouldCreateAuthoringResource'', pack (JBool shouldCreateAuthoringResource)),
            (''shouldCreateLuisResource'', pack (JBool shouldCreateLuisResource)),
            (''useAppInsights'', pack (JBool useAppInsights)),
            (''useCosmosDb'', pack (JBool useCosmosDb)),
            (''useStorage'', pack (JBool useStorage)) ]"

definition readTemplateFile :: "path \<Rightarrow> content prog" where
  "readTemplateFile p = readFile p"

definition createResourceGroup :: "env \<Rightarrow> string \<Rightarrow> string \<Rightarrow> json prog" where
  "createResourceGroup E location resourceGroupName =
     andThen (logger PROVISION_INFO (Val (JStr ''> Creating resource group ...''))) (\<lambda>_.
     invoke E (ResourceGroupsCreateOrUpdate resourceGroupName
                 (JObj [(''location'', JStr location)])))"

definition deployParam :: "json \<Rightarrow> json \<Rightarrow> json" where
  "deployParam template templateParam =
     JObj [(''properties'',
            JObj [ (''template'', template),
                   (''parameters'', templateParam),
                   (''mode'', JStr ''Incremental'') ])]"

definition validateDeployment ::
  "env \<Rightarrow> path \<Rightarrow> string \<Rightarrow> string \<Rightarrow> string \<Rightarrow> json \<Rightarrow> json prog" where
  "validateDeployment E template location resourceGroupName deployName templateParam =
     andThen (logger PROVISION_INFO (Val (JStr ''> Validating Azure deployment ...''))) (\<lambda>_.
     andThen (readTemplateFile template) (\<lambda>templateFile.
     andThen (lift (JSON_parse templateFile)) (\<lambda>parsed.
     invoke E (DeploymentsValidate resourceGroupName deployName
                 (deployParam parsed templateParam)))))"

definition createDeployment ::
  "env \<Rightarrow> path \<Rightarrow> string \<Rightarrow> string \<Rightarrow> string \<Rightarrow> json \<Rightarrow> json prog" where
  "createDeployment E template location resourceGroupName deployName templateParam =
     andThen (logger PROVISION_INFO
        (Val (JStr ''> Deploying Azure services (this could take a while)...''))) (\<lambda>_.
     andThen (readTemplateFile template) (\<lambda>templateFile.
     andThen (lift (JSON_parse templateFile)) (\<lambda>parsed.
     invoke E (DeploymentsCreateOrUpdate resourceGroupName deployName
                 (deployParam parsed templateParam)))))"

definition createApp :: "env \<Rightarrow> string \<Rightarrow> string \<Rightarrow> json prog" where
  "createApp E displayName appPassword = invoke E (ApplicationsCreate displayName appPassword)"

definition getTenantId :: "BotProjectDeploy \<Rightarrow> env \<Rightarrow> json prog" where
  "getTenantId this E =
     (if accessToken this = [] then
        throw (Error ''Error: Missing access token. Please provide a non-expired Azure access token. Tokens can be obtained by running az account get-access-token'')
      else if subId this = [] then
        throw (Error ''Error: Missing subscription Id. Please provide a valid Azure subscription id.'')
      else
        try_catch
          (andThen (invoke_text E
             (HttpGet (''https://management.azure.com/subscriptions/'' @ subId this
                         @ ''?api-version=2020-01-01'')
                [(''Authorization'', JStr (''Bearer '' @ accessToken this))])) (\<lambda>response.
           andThen (lift (JSON_parse response)) (\<lambda>jsonRes.
           andThen (get jsonRes ''tenantId'') (\<lambda>tid.
           if tid = JUndefined then throw (Error ''No tenants found in the account.'')
           else ret tid))))
          (\<lambda>err.
             andThen (lift (getErrorMesssage E err)) (\<lambda>details.
             throw (Error (''Get Tenant Id Failed, details: '' @ js_toString details)))))"

text \<open>Lines 661--663: the tenant id is looked up once and kept on the instance.\<close>

definition set_tenantId :: "json \<Rightarrow> unit prog" where
  "set_tenantId t w = (Inr (), w\<lparr>tenantId := t\<rparr>)"

definition ensureTenantId :: "BotProjectDeploy \<Rightarrow> env \<Rightarrow> unit prog" where
  "ensureTenantId this E w =
     (if \<not> truthy (tenantId w) then andThen (getTenantId this E) set_tenantId w
      else ret () w)"

text \<open>
  Lines 664--674: the Graph client is built from fields of \<^verbatim>\<open>this.creds\<close>; reading
  them fails on nullish credentials, and nothing else is observable.
\<close>

definition graphClient :: "BotProjectDeploy \<Rightarrow> unit prog" where
  "graphClient this = andThen (get (creds this) ''clientId'') (\<lambda>_. ret ())"

text \<open>Lines 676--679: the settings, \<^verbatim>\<open>{}\<close> when there is no settings file.\<close>

definition readSettings :: "BotProjectDeploy \<Rightarrow> json prog" where
  "readSettings this =
     andThen (pathExists (settingsPath this)) (\<lambda>ex.
     if ex then readJson (settingsPath this) else ret (JObj []))"

text \<open>Lines 684--708: use the settings' app id, or register a new application.\<close>

definition ensureAppId :: "env \<Rightarrow> string \<Rightarrow> string \<Rightarrow> json \<Rightarrow> json prog" where
  "ensureAppId E name appPassword appId =
     (if \<not> truthy appId then
        (if appPassword = [] then
           andThen (logger PROVISION_INFO (Val (JStr ''App password is required''))) (\<lambda>_.
           throw (Error ''App password is required''))
         else
           andThen (logger PROVISION_INFO (Val (JStr ''> Creating App Registration ...''))) (\<lambda>_.
           andThen (createApp E name appPassword) (\<lambda>appCreated.
           andThen (logger PROVISION_INFO (Val appCreated)) (\<lambda>_.
           get appCreated ''appId''))))
      else ret appId)"

definition delete_hint :: "string \<Rightarrow> string" where
  "delete_hint resourceGroupName =
     ''+ To delete this resource group, run '' @ [CHR 0x27] @ ''az group delete -g ''
       @ resourceGroupName @ '' --no-wait'' @ [CHR 0x27]"

text \<open>Lines 759--779: a validation that reports an error ends \<^verbatim>\<open>create\<close>.\<close>

definition checkValidation :: "string \<Rightarrow> json \<Rightarrow> unit prog" where
  "checkValidation resourceGroupName validation =
     andThen (get validation ''error'') (\<lambda>error.
     if truthy error then
       andThen (logger PROVISION_ERROR (Val (JStr
          ''! Template is not valid with provided parameters. Review the log for more information.''))) (\<lambda>_.
       andThen (logger PROVISION_ERROR (Val (JStr
          (''! Error: '' @ js_toString (field error ''message''))))) (\<lambda>_.
       andThen (logger PROVISION_ERROR (Val (JStr (delete_hint resourceGroupName)))) (\<lambda>_.
       andThen (logger PROVISION_ERROR_DETAILS (Val (field error ''details''))) (\<lambda>_.
       throw (Error (''! Error: '' @ js_toString (field error ''message'')))))))
     else ret ())"

text \<open>
  Lines 796--812: a deployment response whose status is not 200 ends \<^verbatim>\<open>create\<close>
  (the status is the numeric HTTP status of the response).
\<close>

definition checkDeployment :: "string \<Rightarrow> json \<Rightarrow> json \<Rightarrow> unit prog" where
  "checkDeployment resourceGroupName validation deployment =
     andThen (get deployment ''_response'') (\<lambda>response.
     andThen (get response ''status'') (\<lambda>status.
     if status \<noteq> JNum 200 then
       andThen (logger PROVISION_ERROR (Val (JStr
          ''! Template is not valid with provided parameters. Review the log for more information.''))) (\<lambda>_.
       andThen (logger PROVISION_ERROR (Val (JStr
          (''! Error: '' @ js_toString (field validation ''error''))))) (\<lambda>_.
       andThen (logger PROVISION_ERROR (Val (JStr (delete_hint resourceGroupName)))) (\<lambda>_.
       throw (Error (''! Error: '' @ js_toString (field validation ''error''))))))
     else ret ()))"

text \<open>Lines 814--884: link the Application Insights component to the bot service.\<close>

definition apiKeyOptions :: "string \<Rightarrow> string \<Rightarrow> string \<Rightarrow> json" where
  "apiKeyOptions sub resourceGroupName timeStamp =
     (let component = ''/subscriptions/'' @ sub @ ''/resourceGroups/'' @ resourceGroupName
            @ ''/providers/microsoft.insights/components/'' @ resourceGroupName
      in JObj [ (''name'', JStr (resourceGroupName @ ''-provision-'' @ timeStamp)),
                (''linkedReadProperties'',
                   JArr [JStr (component @ ''/api''), JStr (component @ ''/agentconfig'')]),
                (''linkedWriteProperties'', JArr [JStr (component @ ''/annotations'')]) ])"

definition updateBot ::
  "env \<Rightarrow> string \<Rightarrow> string \<Rightarrow> json \<Rightarrow> json \<Rightarrow> json \<Rightarrow> unit prog" where
  "updateBot E name resourceGroupName appinsightsId appinsightsInstrumentationKey appinsightsApiKey =
     andThen (invoke E (BotsGet resourceGroupName name)) (\<lambda>botCreated.
     andThen (get botCreated ''properties'') (\<lambda>properties.
     if truthy properties then
       andThen (lift (assign_prop properties ''developerAppInsightKey''
                        appinsightsInstrumentationKey)) (\<lambda>p1.
       andThen (lift (assign_prop p1 ''developerAppInsightsApiKey'' appinsightsApiKey)) (\<lambda>p2.
       andThen (lift (assign_prop p2 ''developerAppInsightsApplicationId'' appinsightsId)) (\<lambda>p3.
       andThen (lift (assign_prop botCreated ''properties'' p3)) (\<lambda>botCreated'.
       andThen (invoke E (BotsUpdate resourceGroupName name botCreated')) (\<lambda>botUpdateResult.
       andThen (get botUpdateResult ''_response'') (\<lambda>response.
       andThen (get response ''status'') (\<lambda>status.
       if status \<noteq> JNum 200 then
         andThen (logger PROVISION_ERROR (Val (JStr
            (''! Something went wrong while trying to link Application Insights settings to Bot Service Result: ''
               @ JSON_stringify E botUpdateResult)))) (\<lambda>_.
         throw (Error ''Linking Application Insights Failed.''))
       else
         logger PROVISION_INFO (Val (JStr
            ''> Linking Application Insights settings to Bot Service Success!'')))))))))
     else
       logger PROVISION_WARNING (Val (JStr
          (''! The Bot doesn'' @ [CHR 0x27] @ ''t have a keys properties to update.'')))))"

definition linkAppInsights ::
  "BotProjectDeploy \<Rightarrow> env \<Rightarrow> string \<Rightarrow> string \<Rightarrow> string \<Rightarrow> unit prog" where
  "linkAppInsights this E name resourceGroupName timeStamp =
     andThen (logger PROVISION_INFO (Val (JStr
        ''> Linking Application Insights settings to Bot Service ...''))) (\<lambda>_.
     andThen (invoke E (ComponentsGet resourceGroupName resourceGroupName)) (\<lambda>appComponents.
     andThen (get appComponents ''appId'') (\<lambda>appinsightsId.
     andThen (get appComponents ''instrumentationKey'') (\<lambda>appinsightsInstrumentationKey.
     andThen (invoke E (APIKeysCreate resourceGroupName resourceGroupName
                (apiKeyOptions (subId this) resourceGroupName timeStamp))) (\<lambda>appinsightsApiKeyResponse.
     andThen (get appinsightsApiKeyResponse ''apiKey'') (\<lambda>appinsightsApiKey.
     andThen (logger PROVISION_INFO (Val (JStr
        (''> AppInsights AppId: '' @ js_toString appinsightsId @ '' ...'')))) (\<lambda>_.
     andThen (logger PROVISION_INFO (Val (JStr
        (''> AppInsights InstrumentationKey: '' @ js_toString appinsightsInstrumentationKey
           @ '' ...'')))) (\<lambda>_.
     andThen (logger PROVISION_INFO (Val (JStr
        (''> AppInsights ApiKey: '' @ js_toString appinsightsApiKey @ '' ...'')))) (\<lambda>_.
     if truthy appinsightsId \<and> truthy appinsightsInstrumentationKey \<and> truthy appinsightsApiKey
     then updateBot E name resourceGroupName appinsightsId appinsightsInstrumentationKey
            appinsightsApiKey
     else ret ())))))))))"

text \<open>
  Lines 894--931: when there is no result, list the deployment operations and log the
  failed ones. \<^verbatim>\<open>o?.properties?.statusMessage.error\<close> is \<^verbatim>\<open>undefined\<close> when the
  operation or its properties are nullish, and a TypeError when the properties have no
  status message.
\<close>

definition statusMessage_error :: "json \<Rightarrow> exn + json" where
  "statusMessage_error operation =
     (let properties = opt_chain operation ''properties'' in
      if properties = JUndefined \<or> properties = JNull then Inr JUndefined
      else (case read_prop (field properties ''statusMessage'') ''error'' of
              None \<Rightarrow> Inl TypeError
            | Some error \<Rightarrow> Inr error))"

definition statusMessage_error_field :: "json \<Rightarrow> string \<Rightarrow> exn + json" where
  "statusMessage_error_field operation k =
     (let properties = opt_chain operation ''properties'' in
      if properties = JUndefined \<or> properties = JNull then Inr JUndefined
      else (case read_prop (field properties ''statusMessage'') ''error'' of
              None \<Rightarrow> Inl TypeError
            | Some error \<Rightarrow>
                (case read_prop error k of None \<Rightarrow> Inl TypeError | Some v \<Rightarrow> Inr v)))"

fun failedOperations :: "json list \<Rightarrow> exn + json list" where
  "failedOperations [] = Inr []"
| "failedOperations (v # vs) =
     (case statusMessage_error v of
        Inl e \<Rightarrow> Inl e
      | Inr error \<Rightarrow>
          (case failedOperations vs of
             Inl e \<Rightarrow> Inl e
           | Inr failed \<Rightarrow> Inr (if error \<noteq> JNull then v # failed else failed)))"

definition resourceType_of :: "json \<Rightarrow> string" where
  "resourceType_of operation =
     js_toString (opt_chain (opt_chain (opt_chain operation ''properties'') ''targetResource'')
                    ''resourceType'')"

definition logFailedOperation :: "json \<Rightarrow> unit prog" where
  "logFailedOperation operation =
     andThen (lift (statusMessage_error_field operation ''code'')) (\<lambda>code.
     if code = JStr ''MissingRegistrationForLocation'' then
       logger PROVISION_ERROR (Val (JStr
          (''! Deployment failed for resource of type '' @ resourceType_of operation
             @ ''. This resource is not avaliable in the location provided.'')))
     else
       andThen (logger PROVISION_ERROR (Val (JStr
          (''! Deployment failed for resource of type '' @ resourceType_of operation @ ''.'')))) (\<lambda>_.
       andThen (logger PROVISION_ERROR (Val (JStr
          (''! Code: '' @ js_toString code @ ''.'')))) (\<lambda>_.
       andThen (lift (statusMessage_error_field operation ''message'')) (\<lambda>m.
       logger PROVISION_ERROR (Val (JStr (''! Message: '' @ js_toString m @ ''.'')))))))"

fun logFailedOperations :: "json list \<Rightarrow> unit prog" where
  "logFailedOperations [] = ret ()"
| "logFailedOperations (operation # operations) =
     andThen (logFailedOperation operation) (\<lambda>_. logFailedOperations operations)"

fun as_array :: "json \<Rightarrow> exn + json list" where
  "as_array (JArr xs) = Inr xs"
| "as_array v = Inl TypeError"

definition diagnoseFailure :: "env \<Rightarrow> string \<Rightarrow> string \<Rightarrow> unit prog" where
  "diagnoseFailure E resourceGroupName timeStamp =
     andThen (invoke E (DeploymentOperationsList resourceGroupName timeStamp)) (\<lambda>operations.
     if truthy operations then
       andThen (lift (as_array operations)) (\<lambda>ops.
       andThen (lift (failedOperations ops)) (\<lambda>failed.
       logFailedOperations failed))
     else
       logger PROVISION_ERROR (Val (JStr
          ''! Deployment failed. Please refer to the log file for more information.'')))"

text \<open>
  \<^verbatim>\<open>create\<close>: provision the resources of a bot. The body is one sequence; it is
  written here as four parts in the order of the source.

  Lines 661--713: the tenant, the Graph client, the settings and the application id.
\<close>

definition create_identity :: "BotProjectDeploy \<Rightarrow> env \<Rightarrow> string \<Rightarrow> string \<Rightarrow> json prog" where
  "create_identity this E name appPassword =
     andThen (ensureTenantId this E) (\<lambda>_.
     andThen (graphClient this) (\<lambda>_.
     andThen (readSettings this) (\<lambda>settings.
     andThen (get settings ''MicrosoftAppId'') (\<lambda>settingsAppId.
     andThen (ensureAppId E name appPassword settingsAppId) (\<lambda>appId.
     andThen (logger PROVISION_INFO (Val (JStr
        (''> Create App Id Success! ID: '' @ js_toString appId)))) (\<lambda>_.
     ret appId))))))"

text \<open>
  Lines 715--779: the resource group, the template parameters and the validation of
  the deployment. The validation is returned: a later message prints its error.
\<close>

definition create_validate ::
  "BotProjectDeploy \<Rightarrow> env \<Rightarrow> string \<Rightarrow> string \<Rightarrow> string \<Rightarrow> json \<Rightarrow> json prog" where
  "create_validate this E location resourceGroupName timeStamp deploymentTemplateParam =
     andThen (createResourceGroup E location resourceGroupName) (\<lambda>rpres.
     andThen (logger PROVISION_INFO (Val rpres)) (\<lambda>_.
     andThen (logger PROVISION_INFO (Val deploymentTemplateParam)) (\<lambda>_.
     andThen (validateDeployment E (templatePath this) location resourceGroupName timeStamp
                deploymentTemplateParam) (\<lambda>validation.
     andThen (logger PROVISION_INFO (Val validation)) (\<lambda>_.
     andThen (checkValidation resourceGroupName validation) (\<lambda>_.
     ret validation))))))"

text \<open>Lines 781--884: the deployment and the Application Insights link.\<close>

definition create_deploy ::
  "BotProjectDeploy \<Rightarrow> env \<Rightarrow> string \<Rightarrow> string \<Rightarrow> string \<Rightarrow> string \<Rightarrow> json \<Rightarrow> json \<Rightarrow> bool
     \<Rightarrow> unit prog" where
  "create_deploy this E name location resourceGroupName timeStamp deploymentTemplateParam
     validation createAppInsights =
     andThen (createDeployment E (templatePath this) location resourceGroupName timeStamp
                deploymentTemplateParam) (\<lambda>deployment.
     andThen (logger PROVISION_INFO (Val deployment)) (\<lambda>_.
     andThen (checkDeployment resourceGroupName validation deployment) (\<lambda>_.
     if createAppInsights
     then linkAppInsights this E name resourceGroupName timeStamp
     else ret ())))"

text \<open>Lines 886--936: the resulting settings, the diagnosis when there are none.\<close>

definition create_finish :: "env \<Rightarrow> string \<Rightarrow> string \<Rightarrow> json \<Rightarrow> string \<Rightarrow> json prog" where
  "create_finish E resourceGroupName timeStamp appId appPassword =
     andThen (updateDeploymentJsonFile E resourceGroupName timeStamp appId appPassword)
       (\<lambda>updateResult.
     andThen (logger PROVISION_INFO (Val updateResult)) (\<lambda>_.
     andThen (if \<not> truthy updateResult
              then diagnoseFailure E resourceGroupName timeStamp
              else ret ()) (\<lambda>_.
     andThen (logger PROVISION_SUCCESS (Val (JStr (delete_hint resourceGroupName)))) (\<lambda>_.
     ret updateResult))))"

definition create ::
  "BotProjectDeploy \<Rightarrow> env \<Rightarrow> string \<Rightarrow> string \<Rightarrow> string \<Rightarrow> string \<Rightarrow> bool \<Rightarrow> bool \<Rightarrow> bool
     \<Rightarrow> bool \<Rightarrow> bool \<Rightarrow> json prog" where
  "create this E name location environment appPassword createLuisResource
     createLuisAuthoringResource createCosmosDb createStorage createAppInsights =
     andThen (create_identity this E name appPassword) (\<lambda>appId.
     andThen (create_validate this E location (name @ ''-'' @ environment) (clock E)
        (getDeploymentTemplateParam appId appPassword location name
           createLuisAuthoringResource createLuisResource createAppInsights
           createCosmosDb createStorage)) (\<lambda>validation.
     andThen (create_deploy this E name location (name @ ''-'' @ environment) (clock E)
        (getDeploymentTemplateParam appId appPassword location name
           createLuisAuthoringResource createLuisResource createAppInsights
           createCosmosDb createStorage)
        validation createAppInsights) (\<lambda>_.
     create_finish E (name @ ''-'' @ environment) (clock E) appId appPassword)))"

section \<open>Notions used to state the properties\<close>

text \<open>
  The union of a sequence of objects in which, where two of them have the same key, the
  value of the later one is taken.
\<close>

fun later_wins :: "obj list \<Rightarrow> string \<Rightarrow> json option" where
  "later_wins [] k = None"
| "later_wins (ob # obs) k =
     (case later_wins obs k of Some v \<Rightarrow> Some v | None \<Rightarrow> map_of ob k)"

text \<open>The \<^verbatim>\<open>luis\<close> value of a JSON file of the tree, when the file can be read.\<close>

definition luis_of_file :: "node \<Rightarrow> path \<Rightarrow> json option" where
  "luis_of_file tree file =
     (case lookup tree file of
        Some (File (JsonText luisSettings)) \<Rightarrow> read_prop luisSettings ''luis''
      | _ \<Rightarrow> None)"

text \<open>The properties of an object as \<open>jsonify\<close> leaves them.\<close>

definition jsonify_fields :: "obj \<Rightarrow> obj" where
  "jsonify_fields ps =
     map (\<lambda>p. (fst p, jsonify (snd p))) (filter (\<lambda>p. snd p \<noteq> JUndefined) ps)"

text \<open>
  Calls that register an application, and calls that deploy a template whose
  \<^verbatim>\<open>appId\<close> parameter is a given value.
\<close>

fun registers_app :: "call \<Rightarrow> bool" where
  "registers_app (ApplicationsCreate displayName password) = True"
| "registers_app c = False"

definition template_appId :: "json \<Rightarrow> json" where
  "template_appId p =
     field (field (field (field p ''properties'') ''parameters'') ''appId'') ''value''"

fun uses_appId :: "json \<Rightarrow> call \<Rightarrow> bool" where
  "uses_appId appId (DeploymentsValidate g d p) = (template_appId p = appId)"
| "uses_appId appId (DeploymentsCreateOrUpdate g d p) = (template_appId p = appId)"
| "uses_appId appId c = True"

text \<open>
  Calls that validate a template and calls that apply one (create or update), and the
  four events that \<^verbatim>\<open>create\<close> logs for a validation that reports an error.
\<close>

fun validates_template :: "call \<Rightarrow> bool" where
  "validates_template (DeploymentsValidate g d p) = True"
| "validates_template c = False"

fun applies_template :: "call \<Rightarrow> bool" where
  "applies_template (DeploymentsCreateOrUpdate g d p) = True"
| "applies_template c = False"

definition validation_error_events :: "string \<Rightarrow> json \<Rightarrow> event list" where
  "validation_error_events resourceGroupName error =
     [ (PROVISION_ERROR, Val (JStr
          ''! Template is not valid with provided parameters. Review the log for more information.'')),
       (PROVISION_ERROR, Val (JStr (''! Error: '' @ js_toString (field error ''message'')))),
       (PROVISION_ERROR, Val (JStr (delete_hint resourceGroupName))),
       (PROVISION_ERROR_DETAILS, Val (field error ''details'')) ]"

text \<open>
  The calls of LUIS publishing: the LU build and the requests to the LUIS authoring API
  (the account list and the account assignments).
\<close>

fun luis_call :: "call \<Rightarrow> bool" where
  "luis_call (LuBuild modelFiles args) = True"
| "luis_call (HttpGet uri headers) = True"
| "luis_call (HttpPostJson uri headers body) = True"
| "luis_call c = False"

section \<open>Assertions about runs\<close>

text \<open>
  \<open>hoare P m Q X\<close>: from a world that satisfies \<open>P\<close>, a run of \<open>m\<close> that returns
  \<open>x\<close> ends in a world that satisfies \<open>Q x\<close>, and one that throws \<open>e\<close> ends in a
  world that satisfies \<open>X e\<close>. Every run ends: the programs are total functions,
  and a method that does not return because of an uncaught exception ends with
  \<open>Uncaught\<close>.
\<close>

definition hoare ::
  "(world \<Rightarrow> bool) \<Rightarrow> 'a prog \<Rightarrow> ('a \<Rightarrow> world \<Rightarrow> bool) \<Rightarrow> (exn \<Rightarrow> world \<Rightarrow> bool) \<Rightarrow> bool" where
  "hoare P m Q X =
     (\<forall>w. P w \<longrightarrow> (case m w of (Inl e, w') \<Rightarrow> X e w' | (Inr x, w') \<Rightarrow> Q x w'))"

text \<open>\<open>keeps I m\<close>: the assertion \<open>I\<close> survives \<open>m\<close>, however it ends.\<close>

definition keeps :: "(world \<Rightarrow> bool) \<Rightarrow> 'a prog \<Rightarrow> bool" where
  "keeps I m = hoare I m (\<lambda>_. I) (\<lambda>_. I)"

text \<open>\<open>ignores_log I\<close>: the log and the tenant id do not affect the assertion.\<close>

definition ignores_log :: "(world \<Rightarrow> bool) \<Rightarrow> bool" where
  "ignores_log I = (\<forall>w l t. I w \<longrightarrow> I (w\<lparr>logged := l\<rparr>) \<and> I (w\<lparr>tenantId := t\<rparr>))"

text \<open>\<open>ignores_fs I\<close>: the file tree does not affect the assertion.\<close>

definition ignores_fs :: "(world \<Rightarrow> bool) \<Rightarrow> bool" where
  "ignores_fs I = (\<forall>w t. I w \<longrightarrow> I (w\<lparr>fs := t\<rparr>))"

text \<open>\<open>allows I c\<close>: the assertion survives the call \<open>c\<close> being added to the trace.\<close>

definition allows :: "(world \<Rightarrow> bool) \<Rightarrow> call \<Rightarrow> bool" where
  "allows I c = (\<forall>w. I w \<longrightarrow> I (w\<lparr>calls := calls w @ [c]\<rparr>))"

text \<open>\<open>calls_inv C ok\<close>: the calls made since the trace was \<open>C\<close> all satisfy \<open>ok\<close>.\<close>

definition calls_inv :: "call list \<Rightarrow> (call \<Rightarrow> bool) \<Rightarrow> world \<Rightarrow> bool" where
  "calls_inv C ok w = (\<exists>cs. calls w = C @ cs \<and> list_all ok cs)"

text \<open>
  \<open>trace_inv C ok F\<close>: the file tree is \<open>F\<close>, and the calls made since the trace
  was \<open>C\<close> all satisfy \<open>ok\<close>.
\<close>

definition trace_inv :: "call list \<Rightarrow> (call \<Rightarrow> bool) \<Rightarrow> node \<Rightarrow> world \<Rightarrow> bool" where
  "trace_inv C ok F w = (fs w = F \<and> (\<exists>cs. calls w = C @ cs \<and> list_all ok cs))"

text \<open>
  How a run of \<^verbatim>\<open>create\<close> ends when the validation reports an error: no template
  was applied since the trace was \<open>C\<close>; and if a validation was requested, the error
  thrown carries the message of the error the validation reported, and the last events
  logged are those of that error.
\<close>

definition invalid_outcome :: "env \<Rightarrow> call list \<Rightarrow> string \<Rightarrow> exn \<Rightarrow> world \<Rightarrow> bool" where
  "invalid_outcome E C resourceGroupName e w' =
     (\<exists>cs. calls w' = C @ cs
        \<and> list_all (\<lambda>c. \<not> applies_template c) cs
        \<and> (list_ex validates_template cs \<longrightarrow>
             (\<exists>history g d p validation.
                service E history (DeploymentsValidate g d p) = Inr validation
              \<and> e = Error (''! Error: ''
                      @ js_toString (field (field validation ''error'') ''message''))
              \<and> (\<exists>l. logged w' = l @ validation_error_events resourceGroupName
                                         (field validation ''error'')))))"

section \<open>Example inputs\<close>

text \<open>
  A build folder after the LU build: two generated LUIS settings files that share a key,
  and the deployment settings of an earlier publish.
\<close>

definition settings_dev :: json where
  "settings_dev =
     JObj [(''luis'', JObj [ (''main_en_us_lu'', JStr ''id-1''),
                             (''help_en_us_lu'', JStr ''id-2'') ])]"

definition settings_prod :: json where
  "settings_prod = JObj [(''luis'', JObj [(''main_en_us_lu'', JStr ''id-3'')])]"

definition deployment_fields :: obj where
  "deployment_fields =
     [ (''MicrosoftAppId'', JStr ''app-0''),
       (''luis'', JObj [ (''authoringKey'', JStr ''key-0''),
                         (''region'', JStr ''westus''),
                         (''old_en_us_lu'', JStr ''id-0'') ]) ]"

definition deployment_settings :: json where
  "deployment_settings = JObj deployment_fields"

definition build_dirents :: "(string \<times> node) list" where
  "build_dirents =
     [ (''appsettings.deployment.json'', File (JsonText deployment_settings)),
       (''generated'',
          Dir [ (''luis.settings.dev.westus.json'', File (JsonText settings_dev)),
                (''luis.settings.prod.westus.json'', File (JsonText settings_prod)) ]),
       (''main.en-us.lu'', File (Plain ''# Greeting'')) ]"

definition build_world :: world where
  "build_world =
     \<lparr> fs = Dir [(''build'', Dir build_dirents)], logged = [], calls = [], tenantId = JStr [] \<rparr>"

text \<open>
  The timing of the example environments: the write stream of \<^verbatim>\<open>zipDirectory\<close> has
  created the output file when the walk comes to list a subfolder of the source, and
  not yet when it lists the source itself.
\<close>

definition nested_output :: "path \<Rightarrow> path \<Rightarrow> bool" where
  "nested_output source out = (Suc (length source) < length out)"

text \<open>
  A project with a settings file that names an application, its instance with the
  default paths, and a subscription in which every provisioning call succeeds.
\<close>

definition project_settings :: json where
  "project_settings = JObj [(''MicrosoftAppId'', JStr ''app-0'')]"

definition project_world :: world where
  "project_world =
     \<lparr> fs = Dir [(''proj'',
                 Dir [ (''appsettings.deployment.json'', File (JsonText project_settings)),
                       (''DeploymentTemplates'',
                          Dir [(''template-with-preexisting-rg.json'',
                                File (JsonText (JObj [(''resources'', JArr [])])))]) ])],
       logged = [], calls = [], tenantId = JStr [] \<rparr>"

definition project_instance :: BotProjectDeploy where
  "project_instance =
     new_BotProjectDeploy
       \<lparr> cfg_subId = ''sub-1'', cfg_accessToken = ''token-1'',
         cfg_creds = JObj [(''clientId'', JStr ''client-1'')],
         cfg_projPath = [''proj''], cfg_zipPath = None, cfg_settingsPath = None,
         cfg_templatePath = None \<rparr>"

definition output_entries :: obj where
  "output_entries =
     [ (''luis'', JObj [ (''type'', JStr ''Object''),
                        (''value'', JObj [(''endpointKey'', JStr ''luis-key'')]) ]),
       (''cosmosDb'', JObj [(''type'', JStr ''Object''), (''value'', JNull)]),
       (''instances'', JObj [(''type'', JStr ''Int''), (''value'', JNum 0)]),
       (''suffix'', JObj [(''type'', JStr ''String''), (''value'', JStr [])]),
       (''useStorage'', JObj [(''type'', JStr ''Bool''), (''value'', JBool False)]) ]"

definition deployment_outputs :: json where
  "deployment_outputs = JObj output_entries"

definition deployment_got :: json where
  "deployment_got = JObj [(''properties'', JObj [(''outputs'', deployment_outputs)])]"

definition created_settings :: obj where
  "created_settings =
     [ (''luis'', JObj [(''endpointKey'', JStr ''luis-key'')]),
       (''MicrosoftAppId'', JStr ''app-0''),
       (''MicrosoftAppPassword'', JStr ''secret'') ]"

definition azure_service :: "call list \<Rightarrow> call \<Rightarrow> exn + json" where
  "azure_service history c =
     (case c of
        ApplicationsCreate displayName password \<Rightarrow> Inr (JObj [(''appId'', JStr ''app-new'')])
      | ResourceGroupsCreateOrUpdate g p \<Rightarrow> Inr (JObj [(''name'', JStr g)])
      | DeploymentsValidate g d p \<Rightarrow> Inr (JObj [(''properties'', JObj [])])
      | DeploymentsCreateOrUpdate g d p \<Rightarrow>
          Inr (JObj [(''_response'', JObj [(''status'', JNum 200)])])
      | DeploymentsGet g d \<Rightarrow> Inr deployment_got
      | _ \<Rightarrow> Inl (RestError JNull))"

definition azure_env :: env where
  "azure_env =
     \<lparr> service = azure_service,
       http_text = (\<lambda>history c. Inr (JsonText (JObj [(''tenantId'', JStr ''tenant-1'')]))),
       run_buildDeploy = (\<lambda>history runtimePath project tree. (Inr runtimePath, tree)),
       run_luBuild = (\<lambda>history modelFiles args tree. ([], Inr (), tree)),
       clock = ''1590000000000'',
       JSON_stringify = (\<lambda>v. ''{}''),
       stringify_error = (\<lambda>e. ''{}''),
       stringify_own_properties = (\<lambda>e. ''{}''),
       opened_before_listed = nested_output,
       unfinished_archive = (\<lambda>source out. ''PK''),
       unhandled_error_thrown = True \<rparr>"

text \<open>The example project with a settings file whose \<^verbatim>\<open>MicrosoftAppId\<close> is empty.\<close>

definition blank_world :: world where
  "blank_world =
     \<lparr> fs = Dir [(''proj'',
                 Dir [ (''appsettings.deployment.json'',
                          File (JsonText (JObj [(''MicrosoftAppId'', JStr [])]))),
                       (''DeploymentTemplates'',
                          Dir [(''template-with-preexisting-rg.json'',
                                File (JsonText (JObj [(''resources'', JArr [])])))]) ])],
       logged = [], calls = [], tenantId = JStr [] \<rparr>"


text \<open>A subscription in which the validation of the template reports an error.\<close>

definition invalid_template :: json where
  "invalid_template =
     JObj [(''error'',
            JObj [ (''code'', JStr ''InvalidTemplate''),
                   (''message'', JStr ''Deployment template validation failed''),
                   (''details'', JArr [JObj [(''message'', JStr ''appId is empty'')]]) ])]"

definition invalid_service :: "call list \<Rightarrow> call \<Rightarrow> exn + json" where
  "invalid_service history c =
     (if validates_template c then Inr invalid_template else azure_service history c)"

definition invalid_env :: env where
  "invalid_env =
     \<lparr> service = invalid_service,
       http_text = (\<lambda>history c. Inr (JsonText (JObj [(''tenantId'', JStr ''tenant-1'')]))),
       run_buildDeploy = (\<lambda>history runtimePath project tree. (Inr runtimePath, tree)),
       run_luBuild = (\<lambda>history modelFiles args tree. ([], Inr (), tree)),
       clock = ''1590000000000'',
       JSON_stringify = (\<lambda>v. ''{}''),
       stringify_error = (\<lambda>e. ''{}''),
       stringify_own_properties = (\<lambda>e. ''{}''),
       opened_before_listed = nested_output,
       unfinished_archive = (\<lambda>source out. ''PK''),
       unhandled_error_thrown = True \<rparr>"

text \<open>
  A folder of build artifacts with a subfolder for output, and an instance whose
  configuration names an archive path of its own.
\<close>

definition artifacts_world :: world where
  "artifacts_world =
     \<lparr> fs = Dir [(''proj'',
                 Dir [ (''index.js'', File (Plain ''module.exports = {}'')),
                       (''out'', Dir []) ])],
       logged = [], calls = [], tenantId = JStr [] \<rparr>"

definition bundle_instance :: BotProjectDeploy where
  "bundle_instance =
     new_BotProjectDeploy
       \<lparr> cfg_subId = ''sub-1'', cfg_accessToken = ''token-1'',
         cfg_creds = JObj [(''clientId'', JStr ''client-1'')],
         cfg_projPath = [''proj''], cfg_zipPath = Some [''proj'', ''bundle.zip''],
         cfg_settingsPath = None, cfg_templatePath = None \<rparr>"

text \<open>
  The LUIS authoring API answering the account list with an expired-token error whose
  message begins with the words the handler looks for; and one whose message has them
  further on.
\<close>

definition expiry_body :: json where
  "expiry_body =
     JObj [(''error'',
            JObj [ (''message'', JStr ''access token expiry UTC time is earlier than current UTC time''),
                   (''code'', JStr ''X'') ])]"

definition expired_env :: env where
  "expired_env =
     \<lparr> service = (\<lambda>history c. Inr JNull),
       http_text = (\<lambda>history c. Inl (StatusCodeError 401 (JsonText expiry_body))),
       run_buildDeploy = (\<lambda>history runtimePath project tree. (Inr runtimePath, tree)),
       run_luBuild = (\<lambda>history modelFiles args tree. ([], Inr (), tree)),
       clock = ''1590000000000'',
       JSON_stringify = (\<lambda>v. ''{}''),
       stringify_error = (\<lambda>e. ''{}''),
       stringify_own_properties = (\<lambda>e. ''{}''),
       opened_before_listed = nested_output,
       unfinished_archive = (\<lambda>source out. ''PK''),
       unhandled_error_thrown = True \<rparr>"

definition late_expiry_body :: json where
  "late_expiry_body =
     JObj [(''error'',
            JObj [ (''message'', JStr ''The access token expiry UTC time is earlier than current UTC time''),
                   (''code'', JStr ''X'') ])]"

text \<open>A LUIS authoring API that lists the account of the bot and accepts assignments.\<close>

definition luis_env :: env where
  "luis_env =
     \<lparr> service = (\<lambda>history c. Inr JNull),
       http_text = (\<lambda>history c.
          Inr (JsonText (JArr [JObj [ (''AccountName'', JStr ''mybot-dev-luis''),
                                     (''ResourceGroup'', JStr ''mybot-dev'') ]]))),
       run_buildDeploy = (\<lambda>history runtimePath project tree. (Inr runtimePath, tree)),
       run_luBuild = (\<lambda>history modelFiles args tree. ([], Inr (), tree)),
       clock = ''1590000000000'',
       JSON_stringify = (\<lambda>v. ''{}''),
       stringify_error = (\<lambda>e. ''{}''),
       stringify_own_properties = (\<lambda>e. ''{}''),
       opened_before_listed = nested_output,
       unfinished_archive = (\<lambda>source out. ''PK''),
       unhandled_error_thrown = True \<rparr>"

text \<open>The example build folder after the LU build of \<^verbatim>\<open>publishLuis\<close>.\<close>

definition lubuilt_world :: world where
  "lubuilt_world =
     build_world
       \<lparr> logged := [(DEPLOY_INFO, Val (JStr ''lubuild succeed''))],
         calls := [LuBuild [[''build'', ''main.en-us.lu'']]
                     [ (''language'', JStr ''en-us''),
                       (''environment'', JStr ''dev''),
                       (''authoringRegion'', JStr ''westus''),
                       (''authoringKey'', JStr ''key-0''),
                       (''authoringEndpoint'', JStr ''https://westus.api.cognitive.microsoft.com''),
                       (''name'', JStr ''mybot''),
                       (''generatedFolder'', JStr ''/build/generated'') ]] \<rparr>"

text \<open>
  A build folder with two language models and no generated folder yet, and an LU build
  that writes one LUIS settings file with an application id for each model file it is
  given.
\<close>

definition two_model_world :: world where
  "two_model_world =
     \<lparr> fs = Dir [(''build'',
                 Dir [ (''appsettings.deployment.json'',
                          File (JsonText (JObj [(''MicrosoftAppId'', JStr ''app-0'')]))),
                       (''main.en-us.lu'', File (Plain ''# Greeting'')),
                       (''help.en-us.lu'', File (Plain ''# Help'')) ])],
       logged = [], calls = [], tenantId = JStr [] \<rparr>"

definition generated_settings :: "path list \<Rightarrow> json" where
  "generated_settings modelFiles =
     JObj [(''luis'', JObj (map (\<lambda>file. (last file, JStr (''id-of-'' @ last file))) modelFiles))]"

definition rebuild_env :: env where
  "rebuild_env =
     luis_env
       \<lparr> run_luBuild := (\<lambda>history modelFiles args tree.
            ([], Inr (),
             (case put tree [''build'', ''generated'', ''luis.settings.dev.westus.json'']
                     (File (JsonText (generated_settings modelFiles))) of
                Some tree' \<Rightarrow> tree'
              | None \<Rightarrow> tree))) \<rparr>"

text \<open>The example artifacts with an archive of an earlier packaging in them.\<close>

definition repacked_world :: world where
  "repacked_world =
     \<lparr> fs = Dir [(''proj'',
                 Dir [ (''index.js'', File (Plain ''module.exports = {}'')),
                       (''out'', Dir []),
                       (''bundle.zip'', File (Archive [([''index.js''], Some (Plain ''old''))])) ])],
       logged = [], calls = [], tenantId = JStr [] \<rparr>"

section \<open>Objects and assignment\<close>

lemma map_of_set_prop: "map_of (set_prop ps k v) = (map_of ps)(k \<mapsto> v)"
  by (simp add: set_prop_def update_conv')

lemma map_of_assign_step:
  "map_of (assign_step s acc k) j =
     (if j = k \<and> map_of s k \<noteq> None then map_of s k else map_of acc j)"
  by (cases "map_of s k") (simp_all add: assign_step_def map_of_set_prop)

lemma map_of_foldl_assign_step:
  "map_of (foldl (assign_step s) t ks) k =
     (if k \<in> set ks \<and> map_of s k \<noteq> None then map_of s k else map_of t k)"
proof (induction ks arbitrary: t)
  case Nil
  show ?case by simp
next
  case (Cons a ks)
  show ?case by (auto simp add: Cons.IH map_of_assign_step)
qed

lemma set_own_keys: "set (own_keys ps) = fst ` set ps"
  unfolding own_keys_def using dom_clearjunk[of ps]
  by (simp only: dom_map_of_conv_image_fst set_map)

lemma map_of_assign_obj: "map_of (assign_obj t s) = map_of t ++ map_of s"
proof
  fix k
  have "k \<notin> fst ` set s \<Longrightarrow> map_of s k = None" by (simp add: map_of_eq_None_iff)
  then show "map_of (assign_obj t s) k = (map_of t ++ map_of s) k"
    unfolding assign_obj_def map_of_foldl_assign_step set_own_keys
    by (cases "map_of s k") (auto simp: map_add_def)
qed

lemma map_of_Object_assign:
  "map_of (Object_assign t v) k =
     (case map_of (enumerable v) k of Some x \<Rightarrow> Some x | None \<Rightarrow> map_of t k)"
  by (simp add: Object_assign_def map_of_assign_obj map_add_def)

lemma keys_map_of: "fst ` set ps = dom (map_of ps)"
  by (simp add: dom_map_of_conv_image_fst)

lemma keys_Object_assign:
  "fst ` set (Object_assign t v) = fst ` set t \<union> fst ` set (enumerable v)"
  unfolding keys_map_of Object_assign_def map_of_assign_obj by (simp add: Un_commute)

lemma map_of_foldl_Object_assign:
  "map_of (foldl Object_assign acc vs) k =
     (case later_wins (map enumerable vs) k of Some v \<Rightarrow> Some v | None \<Rightarrow> map_of acc k)"
  by (induction vs arbitrary: acc) (auto simp: map_of_Object_assign split: option.splits)

lemma keys_foldl_Object_assign:
  "fst ` set (foldl Object_assign acc vs) =
     fst ` set acc \<union> (\<Union>v\<in>set vs. fst ` set (enumerable v))"
  by (induction vs arbitrary: acc) (auto simp: keys_Object_assign)

section \<open>Running the sequential code\<close>

lemma andThen_Inr: "m w = (Inr x, w') \<Longrightarrow> andThen m f w = f x w'"
  by (simp add: andThen_def)

lemma andThen_Inl: "m w = (Inl e, w') \<Longrightarrow> andThen m f w = (Inl e, w')"
  by (simp add: andThen_def)

lemma readJson_JsonText:
  "lookup (fs w) p = Some (File (JsonText v)) \<Longrightarrow> readJson p w = (Inr v, w)"
  by (simp add: readJson_def readFile_def andThen_def lift_def)

lemma get_Some: "read_prop v k = Some x \<Longrightarrow> get v k w = (Inr x, w)"
  by (simp add: get_def ret_def)

section \<open>The LUIS application ids\<close>

lemma luis_of_file_SomeD:
  assumes "luis_of_file (fs w) file = Some luis"
  shows "\<exists>luisSettings. readJson file w = (Inr luisSettings, w)
           \<and> get luisSettings ''luis'' w = (Inr luis, w)"
proof -
  from assms obtain luisSettings where
    f: "lookup (fs w) file = Some (File (JsonText luisSettings))"
    and r: "read_prop luisSettings ''luis'' = Some luis"
    by (auto simp: luis_of_file_def split: option.splits node.splits content.splits)
  show ?thesis using readJson_JsonText[OF f] get_Some[OF r] by blast
qed

lemma readLuisAppIds_those:
  "those (map (luis_of_file (fs w)) files) = Some luisObjects \<Longrightarrow>
   readLuisAppIds files acc w = (Inr (foldl Object_assign acc luisObjects), w)"
proof (induction files arbitrary: acc luisObjects)
  case Nil
  then show ?case by (simp add: ret_def)
next
  case (Cons f files)
  from Cons.prems obtain luis rest where
    l: "luis_of_file (fs w) f = Some luis"
    and t: "those (map (luis_of_file (fs w)) files) = Some rest"
    and o: "luisObjects = luis # rest"
    by (auto split: option.splits)
  from luis_of_file_SomeD[OF l] obtain luisSettings where
    r: "readJson f w = (Inr luisSettings, w)"
    and g: "get luisSettings ''luis'' w = (Inr luis, w)"
    by blast
  show ?case
    by (simp add: andThen_def r g Cons.IH[OF t] o)
qed

section \<open>Unpacking the deployment outputs\<close>

lemma read_prop_Some_field: "read_prop v k = Some x \<Longrightarrow> x = field v k"
  by (cases v) auto

lemma unpack_loop_map_of:
  "unpack_loop output keys acc = Inr u \<Longrightarrow>
   map_of u k =
     (if k \<in> set keys \<and> truthy (field (field (JObj output) k) ''value'')
      then Some (field (field (JObj output) k) ''value'') else map_of acc k)"
proof (induction keys arbitrary: acc)
  case Nil
  then show ?case by simp
next
  case (Cons key keys)
  from Cons.prems obtain v where
    r: "read_prop (field (JObj output) key) ''value'' = Some v"
    and l: "unpack_loop output keys (if truthy v then set_prop acc key v else acc) = Inr u"
    by (auto split: option.splits)
  have v: "v = field (field (JObj output) key) ''value''"
    using read_prop_Some_field[OF r] .
  show ?case
    using Cons.IH[OF l] v by (auto simp: map_of_set_prop)
qed

lemma field_absent: "k \<notin> fst ` set ps \<Longrightarrow> field (JObj ps) k = JUndefined"
  by (simp add: map_of_eq_None_iff[THEN iffD2])

lemma unpackObject_map_of:
  assumes "unpackObject (JObj outputs) = Inr unpacked"
  shows "map_of unpacked k =
     (if truthy (field (field (JObj outputs) k) ''value'')
      then Some (field (field (JObj outputs) k) ''value'') else None)"
proof -
  have l: "unpack_loop outputs (own_keys outputs) [] = Inr unpacked"
    using assms by (simp add: unpackObject_def)
  have "k \<notin> fst ` set outputs \<Longrightarrow> \<not> truthy (field (field (JObj outputs) k) ''value'')"
    by (simp add: map_of_eq_None_iff[THEN iffD2])
  then show ?thesis
    using unpack_loop_map_of[OF l, of k] by (auto simp: set_own_keys simp del: field.simps)
qed

lemma unpack_loop_total:
  assumes "\<forall>k\<in>set keys. field (JObj output) k \<noteq> JNull \<and> field (JObj output) k \<noteq> JUndefined"
  shows "\<exists>u. unpack_loop output keys acc = Inr u"
  using assms
proof (induction keys arbitrary: acc)
  case Nil
  then show ?case by simp
next
  case (Cons key keys)
  then have "read_prop (field (JObj output) key) ''value''
              = Some (field (field (JObj output) key) ''value'')"
    by (cases "field (JObj output) key") auto
  then show ?case using Cons by simp
qed

lemma field_in_values:
  "k \<in> fst ` set ps \<Longrightarrow> field (JObj ps) k \<in> snd ` set ps"
proof -
  assume "k \<in> fst ` set ps"
  then obtain v where "map_of ps k = Some v"
    by (metis map_of_eq_None_iff not_Some_eq)
  then show ?thesis by (auto dest: map_of_SomeD intro: rev_image_eqI)
qed

lemma unpackObject_total:
  assumes "\<forall>entry\<in>snd ` set outputs. entry \<noteq> JNull \<and> entry \<noteq> JUndefined"
  shows "\<exists>u. unpackObject (JObj outputs) = Inr u"
proof -
  have "\<forall>k\<in>set (own_keys outputs).
          field (JObj outputs) k \<noteq> JNull \<and> field (JObj outputs) k \<noteq> JUndefined"
    using assms field_in_values[of _ outputs] unfolding set_own_keys by blast
  from unpack_loop_total[OF this] show ?thesis
    by (simp add: unpackObject_def)
qed

lemma andThen_InrE:
  assumes "andThen m f w = (Inr y, w')"
  obtains x w1 where "m w = (Inr x, w1)" and "f x w1 = (Inr y, w')"
proof -
  obtain r w1 where mw: "m w = (r, w1)" by (cases "m w")
  show ?thesis
  proof (cases r)
    case (Inl e)
    with assms mw show ?thesis by (simp add: andThen_def)
  next
    case (Inr x)
    with assms mw that show ?thesis by (simp add: andThen_def)
  qed
qed

lemma invoke_InrD: "invoke E c w = (Inr v, w') \<Longrightarrow> service E (calls w) c = Inr v"
  by (simp add: invoke_def)

lemma updateDeploymentJsonFile_result:
  assumes run: "updateDeploymentJsonFile E resourceGroupName deployName appId appPwd w
                  = (Inr result, w')"
    and get: "service E (calls w) (DeploymentsGet resourceGroupName deployName) = Inr deployment"
    and out: "opt_chain (opt_chain deployment ''properties'') ''outputs'' = JObj outputs"
  shows "\<exists>unpacked. unpackObject (JObj outputs) = Inr unpacked
           \<and> result = JObj (Object_assign (Object_assign [] (JObj unpacked))
                          (JObj [ (''MicrosoftAppId'', appId),
                                  (''MicrosoftAppPassword'', JStr appPwd) ]))"
proof -
  from run obtain d w1 where
    i: "invoke E (DeploymentsGet resourceGroupName deployName) w = (Inr d, w1)"
    and rest: "(let outputResult = opt_chain (opt_chain d ''properties'') ''outputs'' in
       if truthy outputResult then
         andThen (lift (unpackObject outputResult)) (\<lambda>outputObj.
         ret (JObj (Object_assign (Object_assign [] (JObj outputObj))
                (JObj [ (''MicrosoftAppId'', appId),
                        (''MicrosoftAppPassword'', JStr appPwd) ]))))
       else ret JNull) w1 = (Inr result, w')"
    unfolding updateDeploymentJsonFile_def by (rule andThen_InrE)
  from invoke_InrD[OF i] get have d: "d = deployment" by simp
  from rest show ?thesis
    unfolding d out Let_def
    by (cases "unpackObject (JObj outputs)") (auto simp: andThen_def lift_def ret_def)
qed

lemma create_finish_InrD:
  assumes "create_finish E resourceGroupName timeStamp appId appPassword w = (Inr result, w')"
  shows "\<exists>w1. updateDeploymentJsonFile E resourceGroupName timeStamp appId appPassword w
                = (Inr result, w1)"
proof -
  from assms obtain updateResult w1 where
    u: "updateDeploymentJsonFile E resourceGroupName timeStamp appId appPassword w
          = (Inr updateResult, w1)"
    and r1: "andThen (logger PROVISION_INFO (Val updateResult)) (\<lambda>_.
       andThen (if \<not> truthy updateResult
                then diagnoseFailure E resourceGroupName timeStamp
                else ret ()) (\<lambda>_.
       andThen (logger PROVISION_SUCCESS (Val (JStr (delete_hint resourceGroupName)))) (\<lambda>_.
       ret updateResult))) w1 = (Inr result, w')"
    unfolding create_finish_def by (rule andThen_InrE)
  from r1 obtain w2 where
    r2: "andThen (if \<not> truthy updateResult
                then diagnoseFailure E resourceGroupName timeStamp
                else ret ()) (\<lambda>_.
       andThen (logger PROVISION_SUCCESS (Val (JStr (delete_hint resourceGroupName)))) (\<lambda>_.
       ret updateResult)) w2 = (Inr result, w')"
    by (rule andThen_InrE)
  from r2 obtain w3 where
    r3: "andThen (logger PROVISION_SUCCESS (Val (JStr (delete_hint resourceGroupName)))) (\<lambda>_.
       ret updateResult) w3 = (Inr result, w')"
    by (rule andThen_InrE)
  from r3 have "result = updateResult"
    by (auto elim!: andThen_InrE simp: ret_def)
  with u show ?thesis by blast
qed

lemma create_InrD:
  assumes "create this E name location environment appPassword createLuisResource
             createLuisAuthoringResource createCosmosDb createStorage createAppInsights w
           = (Inr result, w')"
  shows "\<exists>appId w1 w2 w3.
           create_identity this E name appPassword w = (Inr appId, w1)
         \<and> updateDeploymentJsonFile E (name @ ''-'' @ environment) (clock E) appId appPassword w2
             = (Inr result, w3)"
proof -
  from assms obtain appId w1 where
    a: "create_identity this E name appPassword w = (Inr appId, w1)"
    and r1: "andThen (create_validate this E location (name @ ''-'' @ environment) (clock E)
        (getDeploymentTemplateParam appId appPassword location name
           createLuisAuthoringResource createLuisResource createAppInsights
           createCosmosDb createStorage)) (\<lambda>validation.
     andThen (create_deploy this E name location (name @ ''-'' @ environment) (clock E)
        (getDeploymentTemplateParam appId appPassword location name
           createLuisAuthoringResource createLuisResource createAppInsights
           createCosmosDb createStorage)
        validation createAppInsights) (\<lambda>_.
     create_finish E (name @ ''-'' @ environment) (clock E) appId appPassword)) w1
      = (Inr result, w')"
    unfolding create_def by (rule andThen_InrE)
  from r1 obtain validation w2 where
    r2: "andThen (create_deploy this E name location (name @ ''-'' @ environment) (clock E)
        (getDeploymentTemplateParam appId appPassword location name
           createLuisAuthoringResource createLuisResource createAppInsights
           createCosmosDb createStorage)
        validation createAppInsights) (\<lambda>_.
     create_finish E (name @ ''-'' @ environment) (clock E) appId appPassword) w2
      = (Inr result, w')"
    by (rule andThen_InrE)
  from r2 obtain w3 where
    "create_finish E (name @ ''-'' @ environment) (clock E) appId appPassword w3
      = (Inr result, w')"
    by (rule andThen_InrE)
  from create_finish_InrD[OF this] a show ?thesis by blast
qed

section \<open>Rules for assertions\<close>

lemma hoareI:
  assumes "\<And>w x w'. P w \<Longrightarrow> m w = (Inr x, w') \<Longrightarrow> Q x w'"
    and "\<And>w e w'. P w \<Longrightarrow> m w = (Inl e, w') \<Longrightarrow> X e w'"
  shows "hoare P m Q X"
  unfolding hoare_def
proof (intro allI impI)
  fix w assume p: "P w"
  obtain r w' where mw: "m w = (r, w')" by (cases "m w")
  show "case m w of (Inl e, w') \<Rightarrow> X e w' | (Inr x, w') \<Rightarrow> Q x w'"
    using assms(1)[OF p] assms(2)[OF p] mw by (cases r) auto
qed

lemma hoare_InrD: "hoare P m Q X \<Longrightarrow> P w \<Longrightarrow> m w = (Inr x, w') \<Longrightarrow> Q x w'"
  by (auto simp: hoare_def)

lemma hoare_InlD: "hoare P m Q X \<Longrightarrow> P w \<Longrightarrow> m w = (Inl e, w') \<Longrightarrow> X e w'"
  by (auto simp: hoare_def)

lemma hoare_ret: "(\<And>w. P w \<Longrightarrow> Q x w) \<Longrightarrow> hoare P (ret x) Q X"
  by (rule hoareI) (auto simp: ret_def)

lemma hoare_throw: "(\<And>w. P w \<Longrightarrow> X e w) \<Longrightarrow> hoare P (throw e) Q X"
  by (rule hoareI) (auto simp: throw_def)

lemma hoare_lift:
  "(\<And>w x. P w \<Longrightarrow> r = Inr x \<Longrightarrow> Q x w) \<Longrightarrow> (\<And>w e. P w \<Longrightarrow> r = Inl e \<Longrightarrow> X e w)
   \<Longrightarrow> hoare P (lift r) Q X"
  by (rule hoareI) (auto simp: lift_def)

lemma hoare_andThen:
  assumes "hoare P m R X" and "\<And>x. hoare (R x) (f x) Q X"
  shows "hoare P (andThen m f) Q X"
proof (rule hoareI)
  fix w y w' assume p: "P w" and r: "andThen m f w = (Inr y, w')"
  obtain r1 w1 where mw: "m w = (r1, w1)" by (cases "m w")
  show "Q y w'"
  proof (cases r1)
    case (Inl e)
    with r mw show ?thesis by (simp add: andThen_def)
  next
    case (Inr x)
    with r mw have "f x w1 = (Inr y, w')" by (simp add: andThen_def)
    moreover from Inr mw p assms(1) have "R x w1" by (auto dest: hoare_InrD)
    ultimately show ?thesis using assms(2) by (auto dest: hoare_InrD)
  qed
next
  fix w e w' assume p: "P w" and r: "andThen m f w = (Inl e, w')"
  obtain r1 w1 where mw: "m w = (r1, w1)" by (cases "m w")
  show "X e w'"
  proof (cases r1)
    case (Inl e1)
    with r mw have "m w = (Inl e, w')" by (simp add: andThen_def)
    with p assms(1) show ?thesis by (auto dest: hoare_InlD)
  next
    case (Inr x)
    with r mw have "f x w1 = (Inl e, w')" by (simp add: andThen_def)
    moreover from Inr mw p assms(1) have "R x w1" by (auto dest: hoare_InrD)
    ultimately show ?thesis using assms(2) by (auto dest: hoare_InlD)
  qed
qed

lemma hoare_try_catch:
  assumes "hoare P m Q Y" and "\<And>e. hoare (Y e) (h e) Q X"
    and "\<And>e w. \<not> catchable e \<Longrightarrow> Y e w \<Longrightarrow> X e w"
  shows "hoare P (try_catch m h) Q X"
proof (rule hoareI)
  fix w y w' assume p: "P w" and r: "try_catch m h w = (Inr y, w')"
  obtain r1 w1 where mw: "m w = (r1, w1)" by (cases "m w")
  show "Q y w'"
  proof (cases r1)
    case (Inl e)
    with r mw have "h e w1 = (Inr y, w')"
      by (simp add: try_catch_def split: if_splits)
    moreover from Inl mw p assms(1) have "Y e w1" by (auto dest: hoare_InlD)
    ultimately show ?thesis using assms(2) by (auto dest: hoare_InrD)
  next
    case (Inr x)
    with r mw have "m w = (Inr y, w')" by (simp add: try_catch_def)
    with p assms(1) show ?thesis by (auto dest: hoare_InrD)
  qed
next
  fix w e w' assume p: "P w" and r: "try_catch m h w = (Inl e, w')"
  obtain r1 w1 where mw: "m w = (r1, w1)" by (cases "m w")
  show "X e w'"
  proof (cases r1)
    case (Inl e1)
    from Inl mw p assms(1) have y: "Y e1 w1" by (auto dest: hoare_InlD)
    show ?thesis
    proof (cases "catchable e1")
      case True
      with Inl r mw have "h e1 w1 = (Inl e, w')" by (simp add: try_catch_def)
      with y show ?thesis using assms(2) by (auto dest: hoare_InlD)
    next
      case False
      with Inl r mw have "e = e1" and "w' = w1" by (simp_all add: try_catch_def)
      with y False show ?thesis by (simp add: assms(3))
    qed
  next
    case (Inr x)
    with r mw show ?thesis by (simp add: try_catch_def)
  qed
qed

lemma hoare_weaken:
  assumes "hoare P' m Q' X'"
    and "\<And>w. P w \<Longrightarrow> P' w"
    and "\<And>x w. Q' x w \<Longrightarrow> Q x w"
    and "\<And>e w. X' e w \<Longrightarrow> X e w"
  shows "hoare P m Q X"
  using assms unfolding hoare_def by (fastforce split: prod.splits sum.splits)

lemma hoare_if:
  "(c \<Longrightarrow> hoare P a Q X) \<Longrightarrow> (\<not> c \<Longrightarrow> hoare P b Q X) \<Longrightarrow> hoare P (if c then a else b) Q X"
  by simp

lemma hoare_False: "hoare (\<lambda>w. False) m Q X"
  by (simp add: hoare_def)

lemma hoare_pure: "(A \<Longrightarrow> hoare P m Q X) \<Longrightarrow> hoare (\<lambda>w. A \<and> P w) m Q X"
  by (auto simp: hoare_def)

subsection \<open>Assertions that survive\<close>

lemma keepsI:
  "(\<And>w r w'. I w \<Longrightarrow> m w = (r, w') \<Longrightarrow> I w') \<Longrightarrow> keeps I m"
  unfolding keeps_def by (rule hoareI) auto

lemma keepsD: "keeps I m \<Longrightarrow> I w \<Longrightarrow> m w = (r, w') \<Longrightarrow> I w'"
  unfolding keeps_def by (cases r) (auto dest: hoare_InrD hoare_InlD)

lemma keeps_ret: "keeps I (ret x)"
  by (rule keepsI) (simp add: ret_def)

lemma keeps_throw: "keeps I (throw e)"
  by (rule keepsI) (simp add: throw_def)

lemma keeps_lift: "keeps I (lift r)"
  by (rule keepsI) (simp add: lift_def)

lemma keeps_get: "keeps I (get v k)"
  by (simp add: get_def keeps_ret keeps_throw split: option.splits)

lemma keeps_andThen: "keeps I m \<Longrightarrow> (\<And>x. keeps I (f x)) \<Longrightarrow> keeps I (andThen m f)"
  unfolding keeps_def by (rule hoare_andThen)

lemma keeps_try_catch: "keeps I m \<Longrightarrow> (\<And>e. keeps I (h e)) \<Longrightarrow> keeps I (try_catch m h)"
  unfolding keeps_def by (rule hoare_try_catch)

lemma keeps_if: "(c \<Longrightarrow> keeps I a) \<Longrightarrow> (\<not> c \<Longrightarrow> keeps I b) \<Longrightarrow> keeps I (if c then a else b)"
  by simp

lemma keeps_logger: "ignores_log I \<Longrightarrow> keeps I (logger s msg)"
  by (rule keepsI) (auto simp: logger_def ignores_log_def)

lemma keeps_set_tenantId: "ignores_log I \<Longrightarrow> keeps I (set_tenantId t)"
  by (rule keepsI) (auto simp: set_tenantId_def ignores_log_def)

lemma keeps_invoke: "allows I c \<Longrightarrow> keeps I (invoke E c)"
  by (rule keepsI) (auto simp: invoke_def allows_def)

lemma keeps_invoke_text: "allows I c \<Longrightarrow> keeps I (invoke_text E c)"
  by (rule keepsI) (auto simp: invoke_text_def allows_def)

lemma keeps_pathExists: "keeps I (pathExists p)"
  by (rule keepsI) (auto simp: pathExists_def)

lemma keeps_readFile: "keeps I (readFile p)"
  by (rule keepsI) (auto simp: readFile_def split: option.splits node.splits)

lemma keeps_readJson: "keeps I (readJson p)"
  unfolding readJson_def by (intro keeps_andThen keeps_readFile keeps_lift)

lemma ignores_log_trace_inv: "ignores_log (trace_inv C ok F)"
  by (simp add: ignores_log_def trace_inv_def)

lemma allows_trace_inv: "ok c \<Longrightarrow> allows (trace_inv C ok F) c"
  by (auto simp: allows_def trace_inv_def)

lemma trace_inv_start: "trace_inv (calls w) ok (fs w) w"
  by (simp add: trace_inv_def)

section \<open>What the steps of \<^verbatim>\<open>create\<close> keep\<close>

lemma keeps_getTenantId:
  assumes "ignores_log I" and "\<And>u h. allows I (HttpGet u h)"
  shows "keeps I (getTenantId this E)"
  unfolding getTenantId_def
  by (intro keeps_if keeps_throw keeps_try_catch keeps_andThen keeps_invoke_text keeps_lift
        keeps_get keeps_ret assms)

lemma keeps_ensureTenantId:
  assumes "ignores_log I" and "\<And>u h. allows I (HttpGet u h)"
  shows "keeps I (ensureTenantId this E)"
proof -
  have k: "keeps I (andThen (getTenantId this E) set_tenantId)"
    by (intro keeps_andThen keeps_getTenantId keeps_set_tenantId assms)
  show ?thesis
  proof (rule keepsI)
    fix w r w' assume i: "I w" and r: "ensureTenantId this E w = (r, w')"
    show "I w'"
    proof (cases "truthy (tenantId w)")
      case True
      with r i show ?thesis by (simp add: ensureTenantId_def ret_def)
    next
      case False
      with r have "andThen (getTenantId this E) set_tenantId w = (r, w')"
        by (simp add: ensureTenantId_def)
      with keepsD[OF k i] show ?thesis by blast
    qed
  qed
qed

lemma keeps_graphClient: "keeps I (graphClient this)"
  unfolding graphClient_def by (intro keeps_andThen keeps_get keeps_ret)

lemma keeps_readSettings: "keeps I (readSettings this)"
  unfolding readSettings_def
  by (intro keeps_andThen keeps_pathExists keeps_if keeps_readJson keeps_ret)

lemma keeps_ensureAppId:
  assumes "ignores_log I" and "\<And>n p. allows I (ApplicationsCreate n p)"
  shows "keeps I (ensureAppId E name appPassword appId)"
  unfolding ensureAppId_def createApp_def
  by (intro keeps_if keeps_andThen keeps_logger keeps_throw keeps_invoke keeps_get keeps_ret assms)

lemma keeps_createResourceGroup:
  assumes "ignores_log I" and "\<And>g p. allows I (ResourceGroupsCreateOrUpdate g p)"
  shows "keeps I (createResourceGroup E location resourceGroupName)"
  unfolding createResourceGroup_def
  by (intro keeps_andThen keeps_logger keeps_invoke assms)

lemma keeps_validateDeployment:
  assumes "ignores_log I"
    and "\<And>t. allows I (DeploymentsValidate resourceGroupName deployName (deployParam t templateParam))"
  shows "keeps I (validateDeployment E template location resourceGroupName deployName templateParam)"
  unfolding validateDeployment_def readTemplateFile_def
  by (intro keeps_andThen keeps_logger keeps_readFile keeps_lift keeps_invoke assms)

lemma keeps_createDeployment:
  assumes "ignores_log I"
    and "\<And>t. allows I (DeploymentsCreateOrUpdate resourceGroupName deployName (deployParam t templateParam))"
  shows "keeps I (createDeployment E template location resourceGroupName deployName templateParam)"
  unfolding createDeployment_def readTemplateFile_def
  by (intro keeps_andThen keeps_logger keeps_readFile keeps_lift keeps_invoke assms)

lemma keeps_checkValidation:
  assumes "ignores_log I"
  shows "keeps I (checkValidation resourceGroupName validation)"
  unfolding checkValidation_def
  by (intro keeps_andThen keeps_get keeps_if keeps_logger keeps_throw keeps_ret assms)

lemma keeps_checkDeployment:
  assumes "ignores_log I"
  shows "keeps I (checkDeployment resourceGroupName validation deployment)"
  unfolding checkDeployment_def
  by (intro keeps_andThen keeps_get keeps_if keeps_logger keeps_throw keeps_ret assms)

lemma keeps_updateBot:
  assumes "ignores_log I" and "\<And>g n. allows I (BotsGet g n)"
    and "\<And>g n b. allows I (BotsUpdate g n b)"
  shows "keeps I (updateBot E name resourceGroupName a b c)"
  unfolding updateBot_def
  by (intro keeps_andThen keeps_get keeps_if keeps_logger keeps_throw keeps_ret keeps_lift
        keeps_invoke assms)

lemma keeps_linkAppInsights:
  assumes "ignores_log I" and "\<And>g n. allows I (BotsGet g n)"
    and "\<And>g n b. allows I (BotsUpdate g n b)"
    and "\<And>g n. allows I (ComponentsGet g n)"
    and "\<And>g n b. allows I (APIKeysCreate g n b)"
  shows "keeps I (linkAppInsights this E name resourceGroupName timeStamp)"
  unfolding linkAppInsights_def
  by (intro keeps_andThen keeps_get keeps_if keeps_logger keeps_ret keeps_invoke
        keeps_updateBot assms)

lemma keeps_updateDeploymentJsonFile:
  assumes "\<And>g d. allows I (DeploymentsGet g d)"
  shows "keeps I (updateDeploymentJsonFile E resourceGroupName deployName appId appPwd)"
  unfolding updateDeploymentJsonFile_def Let_def
  by (intro keeps_andThen keeps_if keeps_ret keeps_lift keeps_invoke assms)

lemma keeps_logFailedOperation:
  assumes "ignores_log I"
  shows "keeps I (logFailedOperation operation)"
  unfolding logFailedOperation_def
  by (intro keeps_andThen keeps_if keeps_logger keeps_lift assms)

lemma keeps_logFailedOperations:
  assumes "ignores_log I"
  shows "keeps I (logFailedOperations operations)"
  by (induction operations)
     (auto intro!: keeps_ret keeps_andThen keeps_logFailedOperation assms)

lemma keeps_diagnoseFailure:
  assumes "ignores_log I" and "\<And>g d. allows I (DeploymentOperationsList g d)"
  shows "keeps I (diagnoseFailure E resourceGroupName timeStamp)"
  unfolding diagnoseFailure_def
  by (intro keeps_andThen keeps_if keeps_logger keeps_lift keeps_invoke
        keeps_logFailedOperations assms)

lemma keeps_create_identity:
  assumes "ignores_log I" and "\<And>u h. allows I (HttpGet u h)"
    and "\<And>n p. allows I (ApplicationsCreate n p)"
  shows "keeps I (create_identity this E name appPassword)"
  unfolding create_identity_def
  by (intro keeps_andThen keeps_ret keeps_get keeps_logger keeps_ensureTenantId
        keeps_graphClient keeps_readSettings keeps_ensureAppId assms)

lemma keeps_create_validate:
  assumes "ignores_log I" and "\<And>g p. allows I (ResourceGroupsCreateOrUpdate g p)"
    and "\<And>t. allows I (DeploymentsValidate resourceGroupName timeStamp (deployParam t param))"
  shows "keeps I (create_validate this E location resourceGroupName timeStamp param)"
  unfolding create_validate_def
  by (intro keeps_andThen keeps_ret keeps_logger keeps_createResourceGroup
        keeps_validateDeployment keeps_checkValidation assms)

lemma keeps_create_deploy:
  assumes "ignores_log I"
    and "\<And>t. allows I (DeploymentsCreateOrUpdate resourceGroupName timeStamp (deployParam t param))"
    and "\<And>g n. allows I (BotsGet g n)"
    and "\<And>g n b. allows I (BotsUpdate g n b)"
    and "\<And>g n. allows I (ComponentsGet g n)"
    and "\<And>g n b. allows I (APIKeysCreate g n b)"
  shows "keeps I (create_deploy this E name location resourceGroupName timeStamp param
                    validation createAppInsights)"
  unfolding create_deploy_def
  by (intro keeps_andThen keeps_if keeps_ret keeps_logger keeps_createDeployment
        keeps_checkDeployment keeps_linkAppInsights assms)

lemma keeps_create_finish:
  assumes "ignores_log I" and "\<And>g d. allows I (DeploymentsGet g d)"
    and "\<And>g d. allows I (DeploymentOperationsList g d)"
  shows "keeps I (create_finish E resourceGroupName timeStamp appId appPassword)"
  unfolding create_finish_def
  by (intro keeps_andThen keeps_if keeps_ret keeps_logger keeps_updateDeploymentJsonFile
        keeps_diagnoseFailure assms)

lemma keeps_create:
  assumes "ignores_log I" and "\<And>c. allows I c"
  shows "keeps I (create this E name location environment appPassword createLuisResource
           createLuisAuthoringResource createCosmosDb createStorage createAppInsights)"
  unfolding create_def
  by (intro keeps_andThen keeps_create_identity keeps_create_validate keeps_create_deploy
        keeps_create_finish assms)

text \<open>\<^verbatim>\<open>create\<close> never changes the file tree.\<close>

lemma create_keeps_fs:
  assumes "create this E name location environment appPassword createLuisResource
             createLuisAuthoringResource createCosmosDb createStorage createAppInsights w
           = (r, w')"
  shows "fs w' = fs w"
proof -
  have "keeps (trace_inv (calls w) (\<lambda>c. True) (fs w))
          (create this E name location environment appPassword createLuisResource
             createLuisAuthoringResource createCosmosDb createStorage createAppInsights)"
    by (intro keeps_create ignores_log_trace_inv allows_trace_inv) simp
  from keepsD[OF this trace_inv_start assms] show ?thesis
    by (simp add: trace_inv_def)
qed

section \<open>A run of \<^verbatim>\<open>create\<close> on the example project\<close>

lemmas run_defs = andThen_def ret_def throw_def try_catch_def lift_def logger_def invoke_def
  invoke_text_def get_def pathExists_def readFile_def readJson_def set_tenantId_def

lemmas create_defs = create_def create_identity_def create_validate_def create_deploy_def
  create_finish_def ensureTenantId_def getTenantId_def graphClient_def
  readSettings_def ensureAppId_def createApp_def createResourceGroup_def
  getDeploymentTemplateParam_def validateDeployment_def createDeployment_def
  readTemplateFile_def deployParam_def checkValidation_def checkDeployment_def
  updateDeploymentJsonFile_def unpackObject_def pack_def

lemmas object_defs = Object_assign_def assign_obj_def assign_step_def own_keys_def set_prop_def

lemmas project_defs = project_instance_def new_BotProjectDeploy_def project_world_def
  project_settings_def azure_env_def azure_service_def deployment_got_def
  deployment_outputs_def output_entries_def created_settings_def

lemma create_project_result:
  "fst (create project_instance azure_env ''mybot'' ''westus'' ''dev'' ''secret''
          True True True True False project_world) = Inr (JObj created_settings)"
  by (simp add: run_defs create_defs object_defs project_defs)

lemma create_project_run:
  "\<exists>w'. create project_instance azure_env ''mybot'' ''westus'' ''dev'' ''secret''
           True True True True False project_world = (Inr (JObj created_settings), w')"
  using create_project_result
  by (cases "create project_instance azure_env ''mybot'' ''westus'' ''dev'' ''secret''
           True True True True False project_world") auto

section \<open>Reusing the application id\<close>

lemma keeps_hoare: "keeps I m \<Longrightarrow> hoare I m (\<lambda>_. I) (\<lambda>_. I)"
  by (simp add: keeps_def)

lemma truthy_field_obj: "truthy (field v k) \<Longrightarrow> \<exists>ps. v = JObj ps"
  by (cases v) auto

lemma identity_tail:
  assumes f: "lookup (fs w) (settingsPath this) = Some (File (JsonText settings))"
    and t: "truthy (field settings ''MicrosoftAppId'')"
  shows "andThen (readSettings this) (\<lambda>settings.
     andThen (get settings ''MicrosoftAppId'') (\<lambda>settingsAppId.
     andThen (ensureAppId E name appPassword settingsAppId) (\<lambda>appId.
     andThen (logger PROVISION_INFO (Val (JStr
        (''> Create App Id Success! ID: '' @ js_toString appId)))) (\<lambda>_.
     ret appId)))) w
   = (Inr (field settings ''MicrosoftAppId''),
      w\<lparr>logged := logged w @ [(PROVISION_INFO, Val (JStr
        (''> Create App Id Success! ID: '' @ js_toString (field settings ''MicrosoftAppId''))))]\<rparr>)"
proof -
  from truthy_field_obj[OF t] obtain ps where s: "settings = JObj ps" by blast
  have r: "readSettings this w = (Inr settings, w)"
    using f by (simp add: readSettings_def run_defs)
  have g: "get settings ''MicrosoftAppId'' w = (Inr (field settings ''MicrosoftAppId''), w)"
    unfolding s by (simp add: run_defs del: field.simps)
  have e: "ensureAppId E name appPassword (field settings ''MicrosoftAppId'') w
             = (Inr (field settings ''MicrosoftAppId''), w)"
    using t by (simp add: ensureAppId_def ret_def)
  show ?thesis
    apply (subst andThen_Inr[of "readSettings this", OF r])
    apply (subst andThen_Inr[of "get settings ''MicrosoftAppId''", OF g])
    apply (subst andThen_Inr[of "ensureAppId E name appPassword (field settings ''MicrosoftAppId'')",
             OF e])
    apply (simp add: andThen_def logger_def ret_def del: field.simps)
    done
qed

lemma hoare_create_identity_reuse:
  assumes f: "lookup F (settingsPath this) = Some (File (JsonText settings))"
    and t: "truthy (field settings ''MicrosoftAppId'')"
    and ok: "\<And>u h. ok (HttpGet u h)"
  shows "hoare (trace_inv C ok F) (create_identity this E name appPassword)
           (\<lambda>appId w. trace_inv C ok F w \<and> appId = field settings ''MicrosoftAppId'')
           (\<lambda>e. trace_inv C ok F)"
  unfolding create_identity_def
proof (rule hoare_andThen[where R = "\<lambda>_. trace_inv C ok F"])
  show "hoare (trace_inv C ok F) (ensureTenantId this E) (\<lambda>_. trace_inv C ok F)
          (\<lambda>e. trace_inv C ok F)"
    by (intro keeps_hoare keeps_ensureTenantId ignores_log_trace_inv allows_trace_inv ok)
next
  fix x :: unit
  show "hoare (trace_inv C ok F)
          (andThen (graphClient this) (\<lambda>_.
           andThen (readSettings this) (\<lambda>settings.
           andThen (get settings ''MicrosoftAppId'') (\<lambda>settingsAppId.
           andThen (ensureAppId E name appPassword settingsAppId) (\<lambda>appId.
           andThen (logger PROVISION_INFO (Val (JStr
              (''> Create App Id Success! ID: '' @ js_toString appId)))) (\<lambda>_.
           ret appId))))))
          (\<lambda>appId w. trace_inv C ok F w \<and> appId = field settings ''MicrosoftAppId'')
          (\<lambda>e. trace_inv C ok F)"
  proof (rule hoare_andThen[where R = "\<lambda>_. trace_inv C ok F"])
    show "hoare (trace_inv C ok F) (graphClient this) (\<lambda>_. trace_inv C ok F)
            (\<lambda>e. trace_inv C ok F)"
      by (intro keeps_hoare keeps_graphClient)
  next
    fix y :: unit
    show "hoare (trace_inv C ok F)
          (andThen (readSettings this) (\<lambda>settings.
           andThen (get settings ''MicrosoftAppId'') (\<lambda>settingsAppId.
           andThen (ensureAppId E name appPassword settingsAppId) (\<lambda>appId.
           andThen (logger PROVISION_INFO (Val (JStr
              (''> Create App Id Success! ID: '' @ js_toString appId)))) (\<lambda>_.
           ret appId)))))
          (\<lambda>appId w. trace_inv C ok F w \<and> appId = field settings ''MicrosoftAppId'')
          (\<lambda>e. trace_inv C ok F)"
    proof (rule hoareI)
      fix w a w'
      assume i: "trace_inv C ok F w"
      then have l: "lookup (fs w) (settingsPath this) = Some (File (JsonText settings))"
        using f by (simp add: trace_inv_def)
      assume "andThen (readSettings this) (\<lambda>settings.
           andThen (get settings ''MicrosoftAppId'') (\<lambda>settingsAppId.
           andThen (ensureAppId E name appPassword settingsAppId) (\<lambda>appId.
           andThen (logger PROVISION_INFO (Val (JStr
              (''> Create App Id Success! ID: '' @ js_toString appId)))) (\<lambda>_.
           ret appId)))) w = (Inr a, w')"
      then show "trace_inv C ok F w' \<and> a = field settings ''MicrosoftAppId''"
        unfolding identity_tail[OF l t] using i by (auto simp: trace_inv_def)
    next
      fix w e w'
      assume i: "trace_inv C ok F w"
      then have l: "lookup (fs w) (settingsPath this) = Some (File (JsonText settings))"
        using f by (simp add: trace_inv_def)
      assume "andThen (readSettings this) (\<lambda>settings.
           andThen (get settings ''MicrosoftAppId'') (\<lambda>settingsAppId.
           andThen (ensureAppId E name appPassword settingsAppId) (\<lambda>appId.
           andThen (logger PROVISION_INFO (Val (JStr
              (''> Create App Id Success! ID: '' @ js_toString appId)))) (\<lambda>_.
           ret appId)))) w = (Inl e, w')"
      then show "trace_inv C ok F w'"
        unfolding identity_tail[OF l t] by simp
    qed
  qed
qed

lemma template_appId_deployParam:
  "template_appId (deployParam t (getDeploymentTemplateParam appId appPwd location name a b c d e))
     = appId"
  by (simp add: template_appId_def deployParam_def getDeploymentTemplateParam_def pack_def)

lemma updateDeploymentJsonFile_appId:
  assumes "updateDeploymentJsonFile E resourceGroupName deployName appId appPwd w = (Inr result, w')"
  shows "result = JNull \<or> field result ''MicrosoftAppId'' = appId"
proof -
  from assms obtain d w1 where
    rest: "(let outputResult = opt_chain (opt_chain d ''properties'') ''outputs'' in
       if truthy outputResult then
         andThen (lift (unpackObject outputResult)) (\<lambda>outputObj.
         ret (JObj (Object_assign (Object_assign [] (JObj outputObj))
                (JObj [ (''MicrosoftAppId'', appId),
                        (''MicrosoftAppPassword'', JStr appPwd) ]))))
       else ret JNull) w1 = (Inr result, w')"
    unfolding updateDeploymentJsonFile_def by (rule andThen_InrE)
  show ?thesis
  proof (cases "truthy (opt_chain (opt_chain d ''properties'') ''outputs'')")
    case False
    with rest show ?thesis by (simp add: ret_def)
  next
    case True
    with rest obtain outputObj where
      "result = JObj (Object_assign (Object_assign [] (JObj outputObj))
                (JObj [ (''MicrosoftAppId'', appId),
                        (''MicrosoftAppPassword'', JStr appPwd) ]))"
      by (auto simp: ret_def elim!: andThen_InrE)
    then have "field result ''MicrosoftAppId'' = appId"
      by (simp add: map_of_Object_assign)
    then show ?thesis ..
  qed
qed

lemma keeps_create_with_appId:
  assumes f: "lookup F (settingsPath this) = Some (File (JsonText settings))"
    and t: "truthy (field settings ''MicrosoftAppId'')"
  shows "keeps (trace_inv C (\<lambda>c. \<not> registers_app c \<and> uses_appId (field settings ''MicrosoftAppId'') c) F)
           (create this E name location environment appPassword createLuisResource
              createLuisAuthoringResource createCosmosDb createStorage createAppInsights)"
    (is "keeps ?I _")
  unfolding keeps_def create_def
proof (rule hoare_andThen)
  show "hoare ?I (create_identity this E name appPassword)
          (\<lambda>appId w. ?I w \<and> appId = field settings ''MicrosoftAppId'') (\<lambda>e. ?I)"
    by (rule hoare_create_identity_reuse[OF f t]) simp
next
  fix appId
  show "hoare (\<lambda>w. ?I w \<and> appId = field settings ''MicrosoftAppId'')
     (andThen (create_validate this E location (name @ ''-'' @ environment) (clock E)
        (getDeploymentTemplateParam appId appPassword location name
           createLuisAuthoringResource createLuisResource createAppInsights
           createCosmosDb createStorage)) (\<lambda>validation.
     andThen (create_deploy this E name location (name @ ''-'' @ environment) (clock E)
        (getDeploymentTemplateParam appId appPassword location name
           createLuisAuthoringResource createLuisResource createAppInsights
           createCosmosDb createStorage)
        validation createAppInsights) (\<lambda>_.
     create_finish E (name @ ''-'' @ environment) (clock E) appId appPassword)))
     (\<lambda>_. ?I) (\<lambda>_. ?I)"
  proof (cases "appId = field settings ''MicrosoftAppId''")
    case False
    then show ?thesis by (simp add: hoare_def)
  next
    case True
    have "keeps ?I
     (andThen (create_validate this E location (name @ ''-'' @ environment) (clock E)
        (getDeploymentTemplateParam appId appPassword location name
           createLuisAuthoringResource createLuisResource createAppInsights
           createCosmosDb createStorage)) (\<lambda>validation.
     andThen (create_deploy this E name location (name @ ''-'' @ environment) (clock E)
        (getDeploymentTemplateParam appId appPassword location name
           createLuisAuthoringResource createLuisResource createAppInsights
           createCosmosDb createStorage)
        validation createAppInsights) (\<lambda>_.
     create_finish E (name @ ''-'' @ environment) (clock E) appId appPassword)))"
      by (intro keeps_andThen keeps_create_validate keeps_create_deploy keeps_create_finish
            ignores_log_trace_inv allows_trace_inv)
         (simp_all add: template_appId_deployParam True)
    then show ?thesis
      unfolding keeps_def by (rule hoare_weaken) auto
  qed
qed

text \<open>
  The boundary of the reuse: an empty \<^verbatim>\<open>MicrosoftAppId\<close> counts as missing, and an
  application is registered with the password given.
\<close>

lemma create_registers_for_empty_MicrosoftAppId:
  "list_ex registers_app
     (calls (snd (create project_instance azure_env ''mybot'' ''westus'' ''dev'' ''secret''
                    True True True True False blank_world)))
   \<and> fst (create project_instance azure_env ''mybot'' ''westus'' ''dev'' ''secret''
            True True True True False blank_world)
       = Inr (JObj [ (''luis'', JObj [(''endpointKey'', JStr ''luis-key'')]),
                     (''MicrosoftAppId'', JStr ''app-new''),
                     (''MicrosoftAppPassword'', JStr ''secret'') ])"
  by (simp add: run_defs create_defs object_defs project_defs blank_world_def)

section \<open>A validation that reports an error\<close>

lemma keeps_hoare_weak:
  "keeps I m \<Longrightarrow> (\<And>e w. I w \<Longrightarrow> X e w) \<Longrightarrow> hoare I m (\<lambda>_. I) X"
  unfolding keeps_def
  by (rule hoare_weaken[where P' = I and Q' = "\<lambda>_. I" and X' = "\<lambda>_. I"]) auto

lemma checkValidation_error:
  assumes "field validation ''error'' = JObj error"
  shows "checkValidation resourceGroupName validation w =
     (Inl (Error (''! Error: '' @ js_toString (field (JObj error) ''message''))),
      w\<lparr>logged := logged w @ validation_error_events resourceGroupName (JObj error)\<rparr>)"
proof -
  from assms obtain ps where v: "validation = JObj ps" by (cases validation) auto
  have g: "get validation ''error'' w = (Inr (JObj error), w)"
    using assms unfolding v by (simp add: run_defs del: field.simps)
  show ?thesis
    unfolding checkValidation_def
    apply (subst andThen_Inr[of "get validation ''error''", OF g])
    apply (simp add: run_defs validation_error_events_def del: field.simps)
    done
qed

lemma readFile_same: "\<exists>rf. readFile p w = (rf, w)"
  by (simp add: readFile_def split: option.splits node.splits)

lemma validateDeployment_cases:
  assumes "validateDeployment E template location resourceGroupName deployName templateParam w
             = (r, w')"
  shows "(\<exists>l e. r = Inl e \<and> w' = w\<lparr>logged := l\<rparr>)
       \<or> (\<exists>l t. w' = w\<lparr>logged := l,
                           calls := calls w @ [DeploymentsValidate resourceGroupName deployName
                                                 (deployParam t templateParam)]\<rparr>
              \<and> r = service E (calls w) (DeploymentsValidate resourceGroupName deployName
                                                 (deployParam t templateParam)))"
proof -
  let ?w1 = "w\<lparr>logged := logged w @ [(PROVISION_INFO,
               Val (JStr ''> Validating Azure deployment ...''))]\<rparr>"
  obtain rf where rf: "readFile template ?w1 = (rf, ?w1)"
    using readFile_same by blast
  have "validateDeployment E template location resourceGroupName deployName templateParam w
          = (case rf of
                  Inl e \<Rightarrow> (Inl e, ?w1)
                | Inr c \<Rightarrow> (case JSON_parse c of
                     Inl e \<Rightarrow> (Inl e, ?w1)
                   | Inr t \<Rightarrow> invoke E (DeploymentsValidate resourceGroupName deployName
                                          (deployParam t templateParam)) ?w1))"
    by (simp add: validateDeployment_def readTemplateFile_def andThen_def logger_def lift_def rf
          split: sum.splits)
  with assms have step1: "(r, w') = (case rf of
                  Inl e \<Rightarrow> (Inl e, ?w1)
                | Inr c \<Rightarrow> (case JSON_parse c of
                     Inl e \<Rightarrow> (Inl e, ?w1)
                   | Inr t \<Rightarrow> invoke E (DeploymentsValidate resourceGroupName deployName
                                          (deployParam t templateParam)) ?w1))"
    by simp
  show ?thesis
  proof (cases rf)
    case (Inl e)
    with step1 show ?thesis by auto
  next
    case (Inr c)
    show ?thesis
    proof (cases "JSON_parse c")
      case (Inl e)
      with step1 Inr show ?thesis by auto
    next
      case (Inr t)
      with step1 \<open>rf = Inr c\<close> have "(r, w') = invoke E (DeploymentsValidate resourceGroupName
          deployName (deployParam t templateParam)) ?w1"
        by simp
      then show ?thesis by (auto simp: invoke_def)
    qed
  qed
qed

lemma trace_inv_invalid_outcome:
  "trace_inv C (\<lambda>c. \<not> applies_template c \<and> \<not> validates_template c) F w
   \<Longrightarrow> invalid_outcome E C rg e w"
  unfolding trace_inv_def invalid_outcome_def
  by (auto simp: list_all_iff list_ex_iff)

lemma hoare_create_validate_invalid:
  assumes svc: "\<forall>history g d p. \<exists>validation error.
             service E history (DeploymentsValidate g d p) = Inr validation
           \<and> field validation ''error'' = JObj error"
  shows "hoare (trace_inv C (\<lambda>c. \<not> applies_template c \<and> \<not> validates_template c) F)
           (create_validate this E location rg ts param)
           (\<lambda>_ _. False) (invalid_outcome E C rg)"
    (is "hoare ?I _ _ ?X")
proof -
  let ?J = "\<lambda>v w. (\<exists>cs. calls w = C @ cs \<and> list_all (\<lambda>c. \<not> applies_template c) cs)
               \<and> (\<exists>history g d p. service E history (DeploymentsValidate g d p) = Inr v)"
  have IX: "\<And>e w. ?I w \<Longrightarrow> ?X e w"
    by (rule trace_inv_invalid_outcome)
  have vd: "hoare ?I (validateDeployment E (templatePath this) location rg ts param) ?J ?X"
  proof (rule hoareI)
    fix w v w'
    assume i: "?I w"
      and r: "validateDeployment E (templatePath this) location rg ts param w = (Inr v, w')"
    from i obtain cs where cs: "calls w = C @ cs"
      and ok: "list_all (\<lambda>c. \<not> applies_template c \<and> \<not> validates_template c) cs"
      by (auto simp: trace_inv_def)
    from validateDeployment_cases[OF r] obtain l t where
      w': "w' = w\<lparr>logged := l, calls := calls w @ [DeploymentsValidate rg ts (deployParam t param)]\<rparr>"
      and s: "Inr v = service E (calls w) (DeploymentsValidate rg ts (deployParam t param))"
      by auto
    have "calls w' = C @ (cs @ [DeploymentsValidate rg ts (deployParam t param)])"
      using w' cs by simp
    moreover have "list_all (\<lambda>c. \<not> applies_template c)
                     (cs @ [DeploymentsValidate rg ts (deployParam t param)])"
      using ok by (auto simp: list_all_iff)
    ultimately show "?J v w'" using s[symmetric] by blast
  next
    fix w e w'
    assume i: "?I w"
      and r: "validateDeployment E (templatePath this) location rg ts param w = (Inl e, w')"
    from validateDeployment_cases[OF r] svc obtain l where "w' = w\<lparr>logged := l\<rparr>"
      by (metis sum.distinct(1))
    with i have "?I w'" by (simp add: trace_inv_def)
    then show "?X e w'" by (rule IX)
  qed
  have lg: "\<And>v s m. hoare (?J v) (logger s m) (\<lambda>_. ?J v) ?X"
    by (rule hoareI) (auto simp: logger_def)
  have cv: "\<And>v. hoare (?J v) (checkValidation rg v) (\<lambda>_ _. False) ?X"
  proof (rule hoareI)
    fix v w and x :: unit and w'
    assume j: "?J v w" and r: "checkValidation rg v w = (Inr x, w')"
    from j svc obtain error where "field v ''error'' = JObj error"
      by (metis sum.inject(2))
    from checkValidation_error[OF this] r show False by simp
  next
    fix v w e w'
    assume j: "?J v w" and r: "checkValidation rg v w = (Inl e, w')"
    from j obtain cs history g d p where cs: "calls w = C @ cs"
      and ok: "list_all (\<lambda>c. \<not> applies_template c) cs"
      and s: "service E history (DeploymentsValidate g d p) = Inr v"
      by blast
    from s svc obtain error where er: "field v ''error'' = JObj error"
      by (metis sum.inject(2))
    from checkValidation_error[OF er] r have
      e: "e = Error (''! Error: '' @ js_toString (field (field v ''error'') ''message''))"
      and w': "w' = w\<lparr>logged := logged w @ validation_error_events rg (field v ''error'')\<rparr>"
      by (simp_all add: er)
    have "\<exists>history g d p validation.
                service E history (DeploymentsValidate g d p) = Inr validation
              \<and> e = Error (''! Error: ''
                      @ js_toString (field (field validation ''error'') ''message''))
              \<and> (\<exists>l. logged w' = l @ validation_error_events rg (field validation ''error''))"
      using s e w' by (intro exI[of _ history] exI[of _ g] exI[of _ d] exI[of _ p] exI[of _ v]) simp
    with cs ok w' show "?X e w'"
      unfolding invalid_outcome_def by (intro exI[of _ cs]) simp
  qed
  show ?thesis
    unfolding create_validate_def
    apply (rule hoare_andThen[where R = "\<lambda>_. ?I"])
     apply (rule keeps_hoare_weak[OF _ IX])
      apply (intro keeps_createResourceGroup ignores_log_trace_inv allows_trace_inv, simp)
     apply assumption
    apply (rule hoare_andThen[where R = "\<lambda>_. ?I"])
     apply (rule keeps_hoare_weak[OF _ IX])
      apply (intro keeps_logger ignores_log_trace_inv)
     apply assumption
    apply (rule hoare_andThen[where R = "\<lambda>_. ?I"])
     apply (rule keeps_hoare_weak[OF _ IX])
      apply (intro keeps_logger ignores_log_trace_inv)
     apply assumption
    apply (rule hoare_andThen[where R = ?J])
     apply (rule vd)
    apply (rule hoare_andThen)
     apply (rule lg)
    apply (rule hoare_andThen)
     apply (rule cv)
    apply (rule hoare_False)
    done
qed

lemma hoare_create_invalid:
  assumes svc: "\<forall>history g d p. \<exists>validation error.
             service E history (DeploymentsValidate g d p) = Inr validation
           \<and> field validation ''error'' = JObj error"
  shows "hoare (trace_inv C (\<lambda>c. \<not> applies_template c \<and> \<not> validates_template c) F)
           (create this E name location environment appPassword createLuisResource
              createLuisAuthoringResource createCosmosDb createStorage createAppInsights)
           (\<lambda>_ _. False) (invalid_outcome E C (name @ ''-'' @ environment))"
  unfolding create_def
  apply (rule hoare_andThen[where
           R = "\<lambda>_. trace_inv C (\<lambda>c. \<not> applies_template c \<and> \<not> validates_template c) F"])
   apply (rule keeps_hoare_weak[OF _ trace_inv_invalid_outcome])
    apply (intro keeps_create_identity ignores_log_trace_inv allows_trace_inv, simp, simp)
   apply assumption
  apply (rule hoare_andThen[where R = "\<lambda>_ _. False"])
   apply (rule hoare_create_validate_invalid[OF svc])
  apply (rule hoare_False)
  done

lemma create_invalid_result:
  "fst (create project_instance invalid_env ''mybot'' ''westus'' ''dev'' ''secret''
          True True True True False project_world)
     = Inl (Error ''! Error: Deployment template validation failed'')"
  by (simp add: run_defs create_defs object_defs project_defs invalid_env_def
        invalid_service_def invalid_template_def)

section \<open>\<^verbatim>\<open>deploy\<close> without LUIS settings\<close>

lemma ignores_log_calls_inv: "ignores_log (calls_inv C ok)"
  by (simp add: ignores_log_def calls_inv_def)

lemma ignores_fs_calls_inv: "ignores_fs (calls_inv C ok)"
  by (simp add: ignores_fs_def calls_inv_def)

lemma allows_calls_inv: "ok c \<Longrightarrow> allows (calls_inv C ok) c"
  by (auto simp: allows_def calls_inv_def)

lemma calls_inv_start: "calls_inv (calls w) ok w"
  by (simp add: calls_inv_def)

lemma keeps_writeFile: "ignores_fs I \<Longrightarrow> keeps I (writeFile p c)"
  by (rule keepsI)
     (auto simp: writeFile_def ignores_fs_def split: option.splits node.splits)

lemma keeps_stream: "keeps I m \<Longrightarrow> keeps I (stream E m)"
  by (rule keepsI) (auto simp: stream_def split: prod.splits sum.splits if_splits dest: keepsD)

lemma keeps_zipDirectory: "ignores_fs I \<Longrightarrow> keeps I (zipDirectory E source out)"
proof (rule keepsI)
  fix w r w' assume i: "ignores_fs I" and s: "I w" and run: "zipDirectory E source out w = (r, w')"
  have a: "keeps I (andThen (stream E (writeFile out (Plain []))) (\<lambda>_. throw err))" for err :: exn
    by (intro keeps_andThen keeps_stream keeps_writeFile keeps_throw i)
  have b: "keeps I (stream E (writeFile out (Archive entries)))" for entries
    by (intro keeps_stream keeps_writeFile i)
  show "I w'"
  proof (cases "glob_all (archiver_view E source out w) source [''code.zip'']")
    case (Inl err)
    with run have "andThen (stream E (writeFile out (Plain []))) (\<lambda>_. throw err) w = (r, w')"
      by (simp add: zipDirectory_def)
    from keepsD[OF a s this] show ?thesis .
  next
    case (Inr entries)
    with run have "stream E (writeFile out (Archive entries)) w = (r, w')"
      by (simp add: zipDirectory_def)
    from keepsD[OF b s this] show ?thesis .
  qed
qed

lemma keeps_deployZip:
  assumes "ignores_log I" and "\<And>u t b. allows I (ZipDeployPost u t b)"
  shows "keeps I (deployZip E token zipFile name environment hostname)"
  unfolding deployZip_def
  by (intro keeps_andThen keeps_try_catch keeps_if keeps_throw keeps_logger keeps_readFile
        keeps_invoke_text assms)

lemma keeps_deploy_package:
  assumes "ignores_log I" and "ignores_fs I" and "\<And>u t b. allows I (ZipDeployPost u t b)"
  shows "keeps I (deploy_package this E pathToArtifacts name environment hostname)"
  unfolding deploy_package_def
  by (intro keeps_andThen keeps_logger keeps_zipDirectory keeps_deployZip assms)

lemma keeps_deploy_catch:
  assumes "ignores_log I"
  shows "keeps I (deploy_catch E error)"
  unfolding deploy_catch_def
  by (intro keeps_andThen keeps_logger keeps_throw assms)




section \<open>Runs of \<^verbatim>\<open>publishLuis\<close> on the example build folder\<close>

lemmas publishLuis_defs = publishLuis_def publishLuis_build_def publishLuis_assign_def
  endpoint_or_default_def authoringEndpoint_or_default_def getFiles_def modelFiles_of_def notEmptyLuisModel_def
  endsWith_def suffix_to_prefix str_includes_def indexOf_def path_str_def mkdir_def luBuild_def js_or_def
  getLuisAppIds_def luisConfig_base_def updateDeploymentSettings_def writeJson_def
  writeFile_def getAccountList_def accountList_catch_def luis_headers_def
  luisResource_name_def

lemmas build_defs = build_world_def build_dirents_def settings_dev_def settings_prod_def
  deployment_settings_def deployment_fields_def

section \<open>Writing files and the account list handler\<close>

lemma lookup_put: "put n p new = Some n' \<Longrightarrow> lookup n' p = Some new"
proof (induction n p new arbitrary: n' rule: put.induct)
  case (1 n new)
  then show ?case by simp
next
  case (2 c seg p new)
  then show ?case by simp
next
  case (3 es seg new)
  then show ?case by (auto simp: update_conv')
next
  case (4 es seg v va new)
  then show ?case
    by (auto simp: update_conv' split: option.splits)
qed

lemma put_file_exists:
  "lookup n p = Some (File c) \<Longrightarrow> p \<noteq> [] \<Longrightarrow> \<exists>n'. put n p new = Some n'"
proof (induction n p new rule: put.induct)
  case (1 n new)
  then show ?case by simp
next
  case (2 c seg p new)
  then show ?case by simp
next
  case (3 es seg new)
  then show ?case by simp
next
  case (4 es seg v va new)
  then show ?case
    by (auto split: option.splits)
qed


lemma writeFile_existing:
  assumes "lookup (fs w) p = Some (File c)" and "p \<noteq> []"
  shows "\<exists>tree. writeFile p c' w = (Inr (), w\<lparr>fs := tree\<rparr>)
           \<and> lookup tree p = Some (File c')"
proof -
  from put_file_exists[OF assms] obtain tree where t: "put (fs w) p (File c') = Some tree"
    by blast
  from lookup_put[OF t] t assms(1) show ?thesis
    by (auto simp: writeFile_def)
qed



text \<open>
  The descriptive error is raised when the words are found after the start of the
  message.
\<close>

lemma accountList_catch_descriptive:
  assumes "err_error err = Inr error"
    and "opt_chain (opt_chain error ''error'') ''message'' = JStr message"
    and "0 < indexOf message ''access token expiry''"
  shows "accountList_catch err w =
     (Inl (Error (''Type: '' @ js_toString (opt_chain (opt_chain error ''error'') ''code'')
          @ '', Message: '' @ message
          @ '', run az account get-access-token, then replace the accessToken in your configuration'')),
      w)"
proof -
  from assms(3) have "message \<noteq> []" by (auto simp: indexOf_def)
  then show ?thesis
    using assms by (simp add: accountList_catch_def run_defs Let_def)
qed

lemma accountList_catch_late_expiry:
  "accountList_catch (StatusCodeError 401 (JsonText late_expiry_body)) build_world
     = (Inl (Error (''Type: X, Message: The access token expiry UTC time is earlier than current UTC time''
          @ '', run az account get-access-token, then replace the accessToken in your configuration'')),
        build_world)"
  by (simp add: accountList_catch_def run_defs late_expiry_body_def indexOf_def Let_def)

text \<open>\<^verbatim>\<open>publishLuis\<close> does nothing without both an authoring key and a region.\<close>

lemma publishLuis_noop:
  "\<not> (truthy luisAuthoringKey \<and> truthy luisAuthoringRegion) \<Longrightarrow>
   publishLuis this E workingFolder name environment language luisEndpoint luisAuthoringEndpoint
     luisEndpointKey luisAuthoringKey luisAuthoringRegion luisResource w = (Inr (), w)"
  by (auto simp add: publishLuis_def ret_def simp del: Let_def split_paired_All)

section \<open>The settings that \<^verbatim>\<open>publishLuis\<close> writes\<close>

lemma jsonify_JObj: "jsonify (JObj ps) = JObj (jsonify_fields ps)"
  by (simp add: jsonify_fields_def)

lemma map_of_jsonify_fields_Some:
  "map_of ps k = Some v \<Longrightarrow> v \<noteq> JUndefined \<Longrightarrow> map_of (jsonify_fields ps) k = Some (jsonify v)"
  by (induction ps) (auto simp: jsonify_fields_def)

lemma map_of_jsonify_fields_None:
  "map_of ps k = None \<Longrightarrow> map_of (jsonify_fields ps) k = None"
  by (induction ps) (auto simp: jsonify_fields_def split: if_splits)

lemma map_of_jsonify_fields_update:
  "k \<noteq> a \<Longrightarrow> map_of (jsonify_fields (AList.update a x ps)) k = map_of (jsonify_fields ps) k"
  by (induction ps) (auto simp: jsonify_fields_def)

lemma updateDeploymentSettings_written:
  assumes "lookup (fs w) (workingFolder @ [''appsettings.deployment.json''])
             = Some (File (JsonText (JObj settings)))"
  shows "\<exists>w'. updateDeploymentSettings (workingFolder @ [''appsettings.deployment.json''])
                 luisConfig w = (Inr (), w')
           \<and> readJson (workingFolder @ [''appsettings.deployment.json'']) w'
               = (Inr (jsonify (JObj (set_prop settings ''luis'' (JObj luisConfig)))), w')"
proof -
  let ?p = "workingFolder @ [''appsettings.deployment.json'']"
  let ?v = "JObj (set_prop settings ''luis'' (JObj luisConfig))"
  have r: "readJson ?p w = (Inr (JObj settings), w)"
    by (rule readJson_JsonText[OF assms])
  have a: "lift (assign_prop (JObj settings) ''luis'' (JObj luisConfig)) w = (Inr ?v, w)"
    by (simp add: lift_def)
  from writeFile_existing[OF assms, of "JsonText (jsonify ?v)"] obtain tree where
    wr: "writeFile ?p (JsonText (jsonify ?v)) w = (Inr (), w\<lparr>fs := tree\<rparr>)"
    and l: "lookup tree ?p = Some (File (JsonText (jsonify ?v)))"
    by auto
  have "updateDeploymentSettings ?p luisConfig w = (Inr (), w\<lparr>fs := tree\<rparr>)"
    unfolding updateDeploymentSettings_def
    apply (subst andThen_Inr[of "readJson ?p", OF r])
    apply (subst andThen_Inr[of "lift (assign_prop (JObj settings) ''luis'' (JObj luisConfig))",
             OF a])
    apply (simp add: writeJson_def wr del: jsonify.simps)
    done
  moreover have "readJson ?p (w\<lparr>fs := tree\<rparr>) = (Inr (jsonify ?v), w\<lparr>fs := tree\<rparr>)"
    by (rule readJson_JsonText) (simp add: l)
  ultimately show ?thesis by blast
qed

section \<open>Packaging and upload\<close>

lemma set_join_with:
  "set (join_with sep (x # y # ys)) \<supseteq> set sep"
  by (induction ys arbitrary: x y) auto

lemma join_code_zip: "join_with ''/'' rel = ''code.zip'' \<longleftrightarrow> rel = [''code.zip'']"
proof (cases rel)
  case Nil
  then show ?thesis by simp
next
  case (Cons x xs)
  show ?thesis
  proof (cases xs)
    case Nil
    with Cons show ?thesis by simp
  next
    case (Cons y ys)
    have "CHR ''/'' \<in> set (join_with ''/'' (x # y # ys))"
      using set_join_with[of "''/''" x y ys] by auto
    moreover have "CHR ''/'' \<notin> set ''code.zip''" by simp
    ultimately have "join_with ''/'' (x # y # ys) \<noteq> ''code.zip''" by metis
    with Cons \<open>rel = x # xs\<close> show ?thesis by simp
  qed
qed

lemma lookup_append:
  "lookup t (p @ q) = (case lookup t p of None \<Rightarrow> None | Some n \<Rightarrow> lookup n q)"
proof (induction t p rule: lookup.induct)
  case (1 n)
  then show ?case by simp
next
  case (2 c seg p)
  then show ?case by simp
next
  case (3 es seg p)
  then show ?case by (auto split: option.splits)
qed

lemma entries_under_entry:
  "map_of es name = Some n \<Longrightarrow>
   (pre @ [name], case n of File c \<Rightarrow> Some c | Dir sub \<Rightarrow> None) \<in> set (entries_under pre es)"
  by (induction pre es rule: entries_under.induct) (auto split: if_splits)

lemma entries_under_sub:
  "map_of es name = Some (Dir sub) \<Longrightarrow>
   set (entries_under (pre @ [name]) sub) \<subseteq> set (entries_under pre es)"
  by (induction pre es rule: entries_under.induct) (auto split: if_splits)

lemma entries_under_file:
  "lookup (Dir es) rel = Some (File c) \<Longrightarrow> rel \<noteq> [] \<Longrightarrow>
   (pre @ rel, Some c) \<in> set (entries_under pre es)"
proof (induction rel arbitrary: es pre)
  case Nil
  then show ?case by simp
next
  case (Cons seg rel)
  from Cons.prems(1) obtain n where n: "map_of es seg = Some n" and l: "lookup n rel = Some (File c)"
    by (auto split: option.splits)
  show ?case
  proof (cases rel)
    case Nil
    with l have "n = File c" by simp
    with entries_under_entry[OF n, of pre] Nil show ?thesis by simp
  next
    case (Cons s r)
    with l obtain sub where sub: "n = Dir sub" by (cases n) auto
    from Cons.IH[of sub "pre @ [seg]"] l sub Cons
    have "((pre @ [seg]) @ rel, Some c) \<in> set (entries_under (pre @ [seg]) sub)" by simp
    with entries_under_sub[OF n[unfolded sub], of pre] show ?thesis by auto
  qed
qed

lemma put_in_dir:
  "lookup t dir = Some (Dir siblings) \<Longrightarrow> \<exists>t'. put t (dir @ [name]) n = Some t'"
proof (induction dir arbitrary: t siblings)
  case Nil
  then show ?case by simp
next
  case (Cons seg dir)
  from Cons.prems obtain es m where t: "t = Dir es" and m: "map_of es seg = Some m"
    and l: "lookup m dir = Some (Dir siblings)"
    by (cases t) (auto split: option.splits)
  from Cons.IH[OF l] obtain m' where "put m (dir @ [name]) n = Some m'" by blast
  with t m show ?case by (cases "dir @ [name]") auto
qed

lemma lookup_put_other:
  "put t p n = Some t' \<Longrightarrow> \<not> prefix p q \<Longrightarrow> \<not> prefix q p \<Longrightarrow> lookup t' q = lookup t q"
proof (induction t p n arbitrary: t' q rule: put.induct)
  case (1 n new)
  then show ?case by simp
next
  case (2 c seg p new)
  then show ?case by simp
next
  case (3 es seg new)
  then show ?case by (cases q) (auto simp: update_conv')
next
  case (4 es seg v va new)
  then show ?case
    by (cases q) (auto simp: update_conv' split: option.splits)
qed


lemma writeFile_in_dir:
  assumes "lookup (fs w) dir = Some (Dir siblings)"
    and "\<forall>sub. map_of siblings name \<noteq> Some (Dir sub)"
  shows "\<exists>tree. writeFile (dir @ [name]) c w = (Inr (), w\<lparr>fs := tree\<rparr>)
           \<and> lookup tree (dir @ [name]) = Some (File c)
           \<and> (\<forall>q. \<not> prefix (dir @ [name]) q \<and> \<not> prefix q (dir @ [name]) \<longrightarrow>
                  lookup tree q = lookup (fs w) q)"
proof -
  from put_in_dir[OF assms(1)] obtain tree where
    t: "put (fs w) (dir @ [name]) (File c) = Some tree" by blast
  have l: "lookup (fs w) (dir @ [name]) = map_of siblings name"
    by (simp add: lookup_append assms(1) split: option.splits)
  with assms(2) have "\<forall>es. lookup (fs w) (dir @ [name]) \<noteq> Some (Dir es)" by simp
  then have "writeFile (dir @ [name]) c w = (Inr (), w\<lparr>fs := tree\<rparr>)"
    using t by (auto simp: writeFile_def split: option.splits node.splits)
  with lookup_put[OF t] lookup_put_other[OF t] show ?thesis by blast
qed

lemma lookup_prefix_Dir:
  assumes "lookup t (p @ q) = Some n" and "q \<noteq> []"
  shows "\<exists>es. lookup t p = Some (Dir es) \<and> lookup (Dir es) q = Some n"
proof -
  from assms(1) obtain m where m: "lookup t p = Some m" and l: "lookup m q = Some n"
    by (auto simp: lookup_append split: option.splits)
  from l assms(2) obtain es where "m = Dir es" by (cases m; cases q) auto
  with m l show ?thesis by simp
qed

lemma glob_all_file:
  assumes "lookup tree (source @ rel) = Some (File c)" and "rel \<noteq> []"
    and "rel \<noteq> [''code.zip'']"
  shows "\<exists>entries. glob_all tree source [''code.zip''] = Inr entries
           \<and> (rel, Some c) \<in> set entries"
proof -
  from lookup_prefix_Dir[OF assms(1,2)] obtain es where
    s: "lookup tree source = Some (Dir es)" and l: "lookup (Dir es) rel = Some (File c)"
    by blast
  from entries_under_file[OF l assms(2), of "[]"]
  have "(rel, Some c) \<in> set (entries_under [] es)" by simp
  with assms(3) s show ?thesis
    by (simp add: glob_all_def glob_ignored_def join_code_zip)
qed

lemma glob_all_no_code_zip:
  "glob_all tree cwd [''code.zip''] = Inr entries \<Longrightarrow> [''code.zip''] \<notin> fst ` set entries"
  by (auto simp: glob_all_def glob_ignored_def split: option.splits node.splits)

lemma zipDirectory_InrD:
  assumes "zipDirectory E source out w = (Inr (), w')"
  shows "w' = w
       \<or> (\<exists>entries. glob_all (archiver_view E source out w) source [''code.zip''] = Inr entries
             \<and> writeFile out (Archive entries) w = (Inr (), w')
             \<and> lookup (fs w') out = Some (File (Archive entries)))"
proof (cases "glob_all (archiver_view E source out w) source [''code.zip'']")
  case (Inl err)
  with assms show ?thesis
    by (auto simp: zipDirectory_def andThen_def throw_def split: prod.splits sum.splits)
next
  case (Inr entries)
  with assms have s: "stream E (writeFile out (Archive entries)) w = (Inr (), w')"
    by (simp add: zipDirectory_def)
  show ?thesis
  proof (cases "fst (writeFile out (Archive entries) w)")
    case (Inl e)
    then have "snd (writeFile out (Archive entries) w) = w"
      by (auto simp: writeFile_def split: option.splits node.splits)
    with Inl s have "w' = w"
      by (cases "writeFile out (Archive entries) w")
         (auto simp: stream_def split: if_splits)
    then show ?thesis by simp
  next
    case r: (Inr u)
    with s have wr: "writeFile out (Archive entries) w = (Inr (), w')"
      by (cases "writeFile out (Archive entries) w") (auto simp: stream_def)
    then obtain tree where "put (fs w) out (File (Archive entries)) = Some tree"
      and "w' = w\<lparr>fs := tree\<rparr>"
      by (auto simp: writeFile_def split: option.splits node.splits)
    with lookup_put have "lookup (fs w') out = Some (File (Archive entries))" by simp
    with Inr wr show ?thesis by simp
  qed
qed

text \<open>
  What the ignore list does achieve: an archive that the call writes never has the
  entry \<^verbatim>\<open>code.zip\<close> at its top level, so it does not contain itself when the
  output path is \<^verbatim>\<open>code.zip\<close> in the source directory.
\<close>

lemma zipDirectory_no_top_level_code_zip:
  assumes "zipDirectory E source out w = (Inr (), w')"
  shows "w' = w
       \<or> (\<exists>entries. lookup (fs w') out = Some (File (Archive entries))
             \<and> [''code.zip''] \<notin> fst ` set entries)"
  using zipDirectory_InrD[OF assms] glob_all_no_code_zip by blast

lemma zipDirectory_in_dir:
  assumes "lookup (fs w) out_dir = Some (Dir siblings)"
    and "\<forall>sub. map_of siblings name \<noteq> Some (Dir sub)"
    and "glob_all (archiver_view E source (out_dir @ [name]) w) source [''code.zip''] = Inr entries"
  shows "\<exists>tree. zipDirectory E source (out_dir @ [name]) w = (Inr (), w\<lparr>fs := tree\<rparr>)
           \<and> lookup tree (out_dir @ [name]) = Some (File (Archive entries))
           \<and> (\<forall>q. \<not> prefix (out_dir @ [name]) q \<and> \<not> prefix q (out_dir @ [name]) \<longrightarrow>
                  lookup tree q = lookup (fs w) q)"
proof -
  from writeFile_in_dir[OF assms(1,2), of "Archive entries"] obtain tree where
    "writeFile (out_dir @ [name]) (Archive entries) w = (Inr (), w\<lparr>fs := tree\<rparr>)"
    and "lookup tree (out_dir @ [name]) = Some (File (Archive entries))"
    and "\<forall>q. \<not> prefix (out_dir @ [name]) q \<and> \<not> prefix q (out_dir @ [name]) \<longrightarrow>
                  lookup tree q = lookup (fs w) q"
    by blast
  then show ?thesis
    using assms(3) by (auto simp: zipDirectory_def stream_def)
qed







lemma archiver_view_logged [simp]:
  "archiver_view E source out (w\<lparr>logged := l\<rparr>) = archiver_view E source out w"
  by (simp add: archiver_view_def writeFile_def split: option.splits node.splits)









section \<open>The settings file after \<^verbatim>\<open>publishLuis\<close>\<close>

lemma keeps_accountList_catch: "keeps I (accountList_catch err)"
  unfolding accountList_catch_def Let_def
  by (intro keeps_andThen keeps_lift keeps_if keeps_throw)

lemma keeps_getAccountList:
  assumes "\<And>u h. allows I (HttpGet u h)"
  shows "keeps I (getAccountList E token luisEndpoint luisAuthoringKey)"
  unfolding getAccountList_def
  by (intro keeps_try_catch keeps_andThen keeps_invoke_text keeps_lift keeps_accountList_catch
        assms)

lemma keeps_assignAccounts:
  assumes "ignores_log I" and "\<And>u h b. allows I (HttpPostJson u h b)"
  shows "keeps I (assignAccounts E token luisEndpoint luisAuthoringKey account luisAppIds ks)"
proof (induction ks)
  case Nil
  show ?case by (simp add: keeps_ret)
next
  case (Cons k ks)
  show ?case
    unfolding assignAccounts.simps Let_def
    by (intro keeps_andThen keeps_logger keeps_invoke assms Cons.IH)
qed

lemma keeps_publishLuis_assign:
  assumes "ignores_log I" and "\<And>u h. allows I (HttpGet u h)"
    and "\<And>u h b. allows I (HttpPostJson u h b)"
  shows "keeps I (publishLuis_assign this E name environment luisEndpoint luisAuthoringKey
                    luisResource luisAppIds)"
  unfolding publishLuis_assign_def
  by (intro keeps_andThen keeps_getAccountList keeps_lift keeps_assignAccounts keeps_logger
        assms)

lemma publishLuis_assign_fs:
  "fs (snd (publishLuis_assign this E name environment luisEndpoint luisAuthoringKey
              luisResource luisAppIds w)) = fs w"
proof -
  obtain r w' where run: "publishLuis_assign this E name environment luisEndpoint
                            luisAuthoringKey luisResource luisAppIds w = (r, w')"
    by (cases "publishLuis_assign this E name environment luisEndpoint
                 luisAuthoringKey luisResource luisAppIds w")
  have "keeps (trace_inv (calls w) (\<lambda>c. True) (fs w))
          (publishLuis_assign this E name environment luisEndpoint luisAuthoringKey
             luisResource luisAppIds)"
    by (intro keeps_publishLuis_assign ignores_log_trace_inv allows_trace_inv) simp_all
  from keepsD[OF this trace_inv_start run] show ?thesis
    by (simp add: run trace_inv_def)
qed

lemma readJson_same_fs:
  "readJson p w = (r, w) \<Longrightarrow> fs w' = fs w \<Longrightarrow> readJson p w' = (r, w')"
  by (auto simp: readJson_def readFile_def andThen_def lift_def
        split: option.splits node.splits)

text \<open>
  The settings file after an attempt of \<^verbatim>\<open>publishLuis\<close> whose LU build succeeded.
\<close>

lemma publishLuis_written:
  assumes key: "truthy luisAuthoringKey" and region: "truthy luisAuthoringRegion"
    and build: "publishLuis_build E workingFolder name environment language luisEndpoint
                  luisAuthoringEndpoint luisAuthoringKey luisAuthoringRegion w = (Inr (), w1)"
    and ids: "getLuisAppIds workingFolder w1 = (Inr luisAppIds, w1)"
    and settings: "lookup (fs w1) (workingFolder @ [''appsettings.deployment.json''])
                     = Some (File (JsonText (JObj settings)))"
  shows "readJson (workingFolder @ [''appsettings.deployment.json''])
           (snd (publishLuis this E workingFolder name environment language luisEndpoint
                   luisAuthoringEndpoint luisEndpointKey luisAuthoringKey luisAuthoringRegion
                   luisResource w))
         = (Inr (jsonify (JObj (set_prop settings ''luis''
                (JObj (Object_assign
                   (luisConfig_base (endpoint_or_default luisEndpoint luisAuthoringRegion)
                      luisEndpointKey luisAuthoringRegion)
                   (JObj luisAppIds)))))),
            snd (publishLuis this E workingFolder name environment language luisEndpoint
                   luisAuthoringEndpoint luisEndpointKey luisAuthoringKey luisAuthoringRegion
                   luisResource w))"
proof -
  let ?p = "workingFolder @ [''appsettings.deployment.json'']"
  let ?cfg = "Object_assign
                   (luisConfig_base (endpoint_or_default luisEndpoint luisAuthoringRegion)
                      luisEndpointKey luisAuthoringRegion)
                   (JObj luisAppIds)"
  let ?written = "jsonify (JObj (set_prop settings ''luis'' (JObj ?cfg)))"
  let ?rest = "publishLuis_assign this E name environment
                 (endpoint_or_default luisEndpoint luisAuthoringRegion) luisAuthoringKey
                 luisResource luisAppIds"
  from updateDeploymentSettings_written[OF settings, of ?cfg] obtain w2 where
    u: "updateDeploymentSettings ?p ?cfg w1 = (Inr (), w2)"
    and r: "readJson ?p w2 = (Inr ?written, w2)"
    by blast
  have run: "publishLuis this E workingFolder name environment language luisEndpoint
                   luisAuthoringEndpoint luisEndpointKey luisAuthoringKey luisAuthoringRegion
                   luisResource w = ?rest w2"
    unfolding publishLuis_def using key region
    by (simp add: andThen_def build ids u)
  from readJson_same_fs[OF r, of "snd (?rest w2)"] show ?thesis
    unfolding run by (simp only: publishLuis_assign_fs)
qed


lemma distinct_assign_step:
  "distinct (map fst acc) \<Longrightarrow> distinct (map fst (assign_step s acc k))"
  by (simp add: assign_step_def set_prop_def distinct_update split: option.splits)

lemma distinct_foldl_assign_step:
  "distinct (map fst acc) \<Longrightarrow> distinct (map fst (foldl (assign_step s) acc ks))"
  by (induction ks arbitrary: acc) (simp_all add: distinct_assign_step)

lemma distinct_Object_assign:
  "distinct (map fst t) \<Longrightarrow> distinct (map fst (Object_assign t v))"
  by (simp add: Object_assign_def assign_obj_def distinct_foldl_assign_step)

lemma map_of_jsonify_fields_undefined:
  "distinct (map fst ps) \<Longrightarrow> map_of ps k = Some JUndefined \<Longrightarrow>
   map_of (jsonify_fields ps) k = None"
proof (induction ps)
  case Nil
  then show ?case by simp
next
  case (Cons p ps)
  show ?case
  proof (cases "fst p = k")
    case True
    with Cons.prems have "snd p = JUndefined" and "k \<notin> fst ` set ps" by auto
    then have "map_of ps k = None" by (simp add: map_of_eq_None_iff)
    from map_of_jsonify_fields_None[OF this] \<open>snd p = JUndefined\<close>
    show ?thesis by (simp add: jsonify_fields_def)
  next
    case False
    with Cons show ?thesis by (auto simp: jsonify_fields_def)
  qed
qed

lemma field_jsonify_distinct:
  assumes "distinct (map fst ps)"
  shows "field (jsonify (JObj ps)) k = (case map_of ps k of None \<Rightarrow> JUndefined | Some v \<Rightarrow> jsonify v)"
proof (cases "map_of ps k")
  case None
  from map_of_jsonify_fields_None[OF this] None show ?thesis
    by (simp add: jsonify_JObj del: jsonify.simps)
next
  case (Some v)
  show ?thesis
  proof (cases "v = JUndefined")
    case True
    have "jsonify JUndefined = JUndefined" by simp
    with True map_of_jsonify_fields_undefined[OF assms, of k] Some show ?thesis
      by (simp add: jsonify_JObj del: jsonify.simps)
  next
    case False
    from map_of_jsonify_fields_Some[OF Some False] Some show ?thesis
      by (simp add: jsonify_JObj del: jsonify.simps)
  qed
qed

lemma field_written_luis:
  "field (jsonify (JObj (set_prop settings ''luis'' (JObj cfg)))) ''luis'' = jsonify (JObj cfg)"
proof -
  have "map_of (set_prop settings ''luis'' (JObj cfg)) ''luis'' = Some (JObj cfg)"
    by (simp add: map_of_set_prop)
  from map_of_jsonify_fields_Some[OF this] show ?thesis
    by (simp add: jsonify_JObj del: jsonify.simps)
qed

lemma field_written_other:
  "k \<noteq> ''luis'' \<Longrightarrow>
   field (jsonify (JObj (set_prop settings ''luis'' v))) k = field (jsonify (JObj settings)) k"
  unfolding jsonify_JObj set_prop_def
  by (simp add: map_of_jsonify_fields_update)

section \<open>The example build folder after the LU build\<close>

lemma publishLuis_build_example:
  "publishLuis_build luis_env [''build''] ''mybot'' ''dev'' ''en-us'' JUndefined JUndefined
     (JStr ''key-0'') (JStr ''westus'') build_world = (Inr (), lubuilt_world)"
  by (simp add: publishLuis_defs run_defs build_defs luis_env_def lubuilt_world_def Let_def)

lemma getLuisAppIds_example:
  "getLuisAppIds [''build''] lubuilt_world
     = (Inr [(''main_en_us_lu'', JStr ''id-3''), (''help_en_us_lu'', JStr ''id-2'')],
        lubuilt_world)"
  by (simp add: publishLuis_defs run_defs object_defs build_defs lubuilt_world_def)

lemma settings_example:
  "lookup (fs lubuilt_world) ([''build''] @ [''appsettings.deployment.json''])
     = Some (File (JsonText (JObj deployment_fields)))"
  by (simp add: build_defs lubuilt_world_def)

section \<open>Runs of \<^verbatim>\<open>zipDirectory\<close> on the example artifacts\<close>

text \<open>
  The race between the write stream and the walk, for an output file at the top level
  of the source (the archive path of the example configuration): when the walk lists
  the directory first the archive has no entry for itself, and when the stream creates
  the file first it has one. When the output file was there before the call, the
  archive has an entry for it whatever the timing.
\<close>

lemma zipDirectory_race_example:
  "zipDirectory azure_env [''proj''] [''proj'', ''bundle.zip''] artifacts_world
   = (Inr (),
      artifacts_world\<lparr>fs := Dir [(''proj'',
         Dir [ (''index.js'', File (Plain ''module.exports = {}'')),
               (''out'', Dir []),
               (''bundle.zip'',
                  File (Archive [ ([''index.js''], Some (Plain ''module.exports = {}'')),
                                  ([''out''], None) ])) ])]\<rparr>)
   \<and> zipPath bundle_instance = [''proj'', ''bundle.zip'']
   \<and> zipDirectory (azure_env\<lparr>opened_before_listed := (\<lambda>source out. True)\<rparr>)
       [''proj''] (zipPath bundle_instance) artifacts_world
   = (Inr (),
      artifacts_world\<lparr>fs := Dir [(''proj'',
         Dir [ (''index.js'', File (Plain ''module.exports = {}'')),
               (''out'', Dir []),
               (''bundle.zip'',
                  File (Archive [ ([''index.js''], Some (Plain ''module.exports = {}'')),
                                  ([''out''], None),
                                  ([''bundle.zip''], Some (Plain ''PK'')) ])) ])]\<rparr>)
   \<and> zipDirectory azure_env [''proj''] [''proj'', ''bundle.zip''] repacked_world
   = (Inr (),
      repacked_world\<lparr>fs := Dir [(''proj'',
         Dir [ (''index.js'', File (Plain ''module.exports = {}'')),
               (''out'', Dir []),
               (''bundle.zip'',
                  File (Archive [ ([''index.js''], Some (Plain ''module.exports = {}'')),
                                  ([''out''], None),
                                  ([''bundle.zip''], Some (Plain ''PK'')) ])) ])]\<rparr>)"
  by (simp add: zipDirectory_def archiver_view_def glob_all_def glob_ignored_def writeFile_def
        stream_def artifacts_world_def repacked_world_def azure_env_def nested_output_def
        bundle_instance_def new_BotProjectDeploy_def)

text \<open>
  An output file in a folder that does not exist: the promise of \<^verbatim>\<open>zipDirectory\<close>
  is not rejected. Where the error of the write stream is thrown, it is an uncaught
  exception: \<^verbatim>\<open>zipDirectory\<close> does not return, and neither does \<^verbatim>\<open>deploy\<close>,
  whose handler logs nothing. Where it is dropped, \<^verbatim>\<open>zipDirectory\<close> returns and
  there is no archive. A source that is a file: the walk fails, and the promise is
  rejected with its error.
\<close>

lemma zipDirectory_failures_example:
  "zipDirectory azure_env [''proj''] [''proj'', ''missing'', ''code.zip''] artifacts_world
     = (Inl (Uncaught (IOError ''ENOENT'')), artifacts_world)
   \<and> zipDirectory (azure_env\<lparr>unhandled_error_thrown := False\<rparr>)
       [''proj''] [''proj'', ''missing'', ''code.zip''] artifacts_world
     = (Inr (), artifacts_world)
   \<and> fst (zipDirectory azure_env [''proj'', ''index.js''] [''proj'', ''code.zip''] artifacts_world)
     = Inl (IOError ''ENOTDIR'')
   \<and> fst (deploy (project_instance\<lparr>zipPath := [''proj'', ''missing'', ''code.zip'']\<rparr>)
            azure_env (JObj []) ''mybot'' ''dev'' None None None project_world)
     = Inl (Uncaught (IOError ''ENOENT''))
   \<and> logged (snd (deploy (project_instance\<lparr>zipPath := [''proj'', ''missing'', ''code.zip'']\<rparr>)
            azure_env (JObj []) ''mybot'' ''dev'' None None None project_world))
     = [(DEPLOY_INFO, Val (JStr ''Packing up the bot service ...''))]"
  by (simp add: zipDirectory_def archiver_view_def glob_all_def glob_ignored_def writeFile_def
        stream_def artifacts_world_def azure_env_def deploy_def deploy_build_def
        deploy_luis_def deploy_package_def buildDeploy_def remove_def run_defs project_defs
        nested_output_def)

section \<open>The claims\<close>

text \<open>
  C8. The mapping \<^verbatim>\<open>luisAppIds\<close> that \<^verbatim>\<open>publishLuis\<close> builds (lines 203--215):
  when the files below the working folder whose path contains \<^verbatim>\<open>luis.settings\<close>
  are readable JSON, the step returns, leaves the world as it is, and its result is the
  union of the \<^verbatim>\<open>luis\<close> objects of these files in the order of the listing: a key
  has the value of the last file that has it, and the keys are those of all the files.
\<close>

theorem getLuisAppIds_union_later_wins:
  assumes "lookup (fs w) workingFolder = Some (Dir dirents)"
    and "those (map (luis_of_file (fs w))
           (filter (\<lambda>filename. str_includes (path_str filename) ''luis.settings'')
              (files_under workingFolder dirents))) = Some luisObjects"
  shows "\<exists>luisAppIds.
           getLuisAppIds workingFolder w = (Inr luisAppIds, w)
         \<and> (\<forall>k. map_of luisAppIds k = later_wins (map enumerable luisObjects) k)
         \<and> fst ` set luisAppIds = (\<Union>luis\<in>set luisObjects. fst ` set (enumerable luis))"
proof -
  have g: "getFiles workingFolder w = (Inr (files_under workingFolder dirents), w)"
    using assms(1) by (simp add: getFiles_def)
  have "getLuisAppIds workingFolder w = (Inr (foldl Object_assign [] luisObjects), w)"
    unfolding getLuisAppIds_def
    by (simp add: andThen_def g readLuisAppIds_those[OF assms(2)])
  moreover have "\<forall>k. map_of (foldl Object_assign [] luisObjects) k
                   = later_wins (map enumerable luisObjects) k"
    by (simp add: map_of_foldl_Object_assign split: option.splits)
  moreover have "fst ` set (foldl Object_assign [] luisObjects)
                   = (\<Union>luis\<in>set luisObjects. fst ` set (enumerable luis))"
    by (simp add: keys_foldl_Object_assign)
  ultimately show ?thesis by blast
qed

theorem getLuisAppIds_union_later_wins_witness:
  "lookup (fs build_world) [''build''] = Some (Dir build_dirents)
   \<and> those (map (luis_of_file (fs build_world))
        (filter (\<lambda>filename. str_includes (path_str filename) ''luis.settings'')
           (files_under [''build''] build_dirents)))
       = Some [field settings_dev ''luis'', field settings_prod ''luis'']
   \<and> (\<exists>luisAppIds.
         getLuisAppIds [''build''] build_world = (Inr luisAppIds, build_world)
       \<and> map_of luisAppIds ''main_en_us_lu'' = Some (JStr ''id-3'')
       \<and> map_of luisAppIds ''help_en_us_lu'' = Some (JStr ''id-2'')
       \<and> fst ` set luisAppIds = {''main_en_us_lu'', ''help_en_us_lu''})"
proof -
  have h1: "lookup (fs build_world) [''build''] = Some (Dir build_dirents)"
    by (simp add: build_world_def)
  have h2: "those (map (luis_of_file (fs build_world))
        (filter (\<lambda>filename. str_includes (path_str filename) ''luis.settings'')
           (files_under [''build''] build_dirents)))
       = Some [field settings_dev ''luis'', field settings_prod ''luis'']"
    by (simp add: build_world_def build_dirents_def luis_of_file_def str_includes_def
          indexOf_def path_str_def settings_dev_def settings_prod_def)
  from getLuisAppIds_union_later_wins[OF h1 h2] obtain luisAppIds where
    r: "getLuisAppIds [''build''] build_world = (Inr luisAppIds, build_world)"
    and m: "\<forall>k. map_of luisAppIds k
              = later_wins (map enumerable [field settings_dev ''luis'', field settings_prod ''luis'']) k"
    and d: "fst ` set luisAppIds
              = (\<Union>luis\<in>set [field settings_dev ''luis'', field settings_prod ''luis''].
                   fst ` set (enumerable luis))"
    by blast
  have "map_of luisAppIds ''main_en_us_lu'' = Some (JStr ''id-3'')"
    using m by (simp add: settings_dev_def settings_prod_def)
  moreover have "map_of luisAppIds ''help_en_us_lu'' = Some (JStr ''id-2'')"
    using m by (simp add: settings_dev_def settings_prod_def)
  moreover have "fst ` set luisAppIds = {''main_en_us_lu'', ''help_en_us_lu''}"
    using d by (auto simp add: settings_dev_def settings_prod_def)
  ultimately show ?thesis using h1 h2 r by blast
qed

text \<open>
  C9. \<^verbatim>\<open>publishLuis\<close>, when the LU build has succeeded, the application ids have
  been read from the build tree it left, and the deployment settings of the build folder
  hold an object: however the attempt ends, the \<^verbatim>\<open>luis\<close> record of the settings file
  is then the base config (lines 218--223) with the application ids assigned onto it, as
  JSON keeps it. In the base config \<^verbatim>\<open>authoringKey\<close> and \<^verbatim>\<open>authoringRegion\<close> are
  both the argument \<^verbatim>\<open>luisAuthoringRegion\<close>, \<^verbatim>\<open>endpointKey\<close> is the argument
  \<^verbatim>\<open>luisEndpointKey\<close>, and \<^verbatim>\<open>endpoint\<close> is \<^verbatim>\<open>luisEndpoint\<close> as it stands after
  lines 171--173: the argument, or the endpoint of the region when the argument is
  falsy. The argument \<^verbatim>\<open>luisAuthoringKey\<close> is not in the record. Each of the four
  fields is read back from the file unless an application id has the same key.
\<close>

theorem publishLuis_base_config_authoringKey_is_region:
  assumes "truthy luisAuthoringKey" and "truthy luisAuthoringRegion"
    and "publishLuis_build E workingFolder name environment language luisEndpoint
           luisAuthoringEndpoint luisAuthoringKey luisAuthoringRegion w = (Inr (), w1)"
    and "getLuisAppIds workingFolder w1 = (Inr luisAppIds, w1)"
    and "lookup (fs w1) (workingFolder @ [''appsettings.deployment.json''])
           = Some (File (JsonText (JObj settings)))"
  shows "\<exists>written.
           readJson (workingFolder @ [''appsettings.deployment.json''])
             (snd (publishLuis this E workingFolder name environment language luisEndpoint
                     luisAuthoringEndpoint luisEndpointKey luisAuthoringKey
                     luisAuthoringRegion luisResource w))
           = (Inr written,
              snd (publishLuis this E workingFolder name environment language luisEndpoint
                     luisAuthoringEndpoint luisEndpointKey luisAuthoringKey
                     luisAuthoringRegion luisResource w))
         \<and> field written ''luis''
             = jsonify (JObj (Object_assign
                 [ (''endpoint'',
                      if truthy luisEndpoint then luisEndpoint
                      else JStr (''https://'' @ js_toString luisAuthoringRegion
                                  @ ''.api.cognitive.microsoft.com'')),
                   (''endpointKey'', luisEndpointKey),
                   (''authoringRegion'', luisAuthoringRegion),
                   (''authoringKey'', luisAuthoringRegion) ]
                 (JObj luisAppIds)))
         \<and> (''authoringKey'' \<notin> fst ` set luisAppIds \<longrightarrow>
                field (field written ''luis'') ''authoringKey'' = jsonify luisAuthoringRegion)
         \<and> (''authoringRegion'' \<notin> fst ` set luisAppIds \<longrightarrow>
                field (field written ''luis'') ''authoringRegion'' = jsonify luisAuthoringRegion)
         \<and> (''endpointKey'' \<notin> fst ` set luisAppIds \<longrightarrow>
                field (field written ''luis'') ''endpointKey'' = jsonify luisEndpointKey)
         \<and> (''endpoint'' \<notin> fst ` set luisAppIds \<longrightarrow>
                field (field written ''luis'') ''endpoint''
                  = jsonify (if truthy luisEndpoint then luisEndpoint
                             else JStr (''https://'' @ js_toString luisAuthoringRegion
                                         @ ''.api.cognitive.microsoft.com'')))"
proof -
  let ?endpoint = "if truthy luisEndpoint then luisEndpoint
                   else JStr (''https://'' @ js_toString luisAuthoringRegion
                               @ ''.api.cognitive.microsoft.com'')"
  let ?base = "[ (''endpoint'', ?endpoint),
                 (''endpointKey'', luisEndpointKey),
                 (''authoringRegion'', luisAuthoringRegion),
                 (''authoringKey'', luisAuthoringRegion) ]"
  let ?cfg = "Object_assign ?base (JObj luisAppIds)"
  let ?written = "jsonify (JObj (set_prop settings ''luis'' (JObj ?cfg)))"
  have b: "luisConfig_base (endpoint_or_default luisEndpoint luisAuthoringRegion)
             luisEndpointKey luisAuthoringRegion = ?base"
    by (simp add: luisConfig_base_def endpoint_or_default_def)
  note r = publishLuis_written[OF assms, of this luisEndpointKey luisResource, unfolded b]
  have l: "field ?written ''luis'' = jsonify (JObj ?cfg)"
    by (rule field_written_luis)
  have d: "distinct (map fst ?cfg)"
    by (rule distinct_Object_assign) simp
  have f: "k \<notin> fst ` set luisAppIds \<Longrightarrow>
           field (field ?written ''luis'') k
             = (case map_of ?base k of None \<Rightarrow> JUndefined | Some v \<Rightarrow> jsonify v)" for k
  proof -
    assume "k \<notin> fst ` set luisAppIds"
    then have "map_of luisAppIds k = None" by (simp add: map_of_eq_None_iff)
    then have "map_of ?cfg k = map_of ?base k"
      by (simp add: map_of_Object_assign del: map_of.simps)
    with field_jsonify_distinct[OF d, of k] show ?thesis
      by (simp only: l)
  qed
  show ?thesis
    using r l f[of "''authoringKey''"] f[of "''authoringRegion''"] f[of "''endpointKey''"]
      f[of "''endpoint''"]
    by (intro exI[of _ ?written] conjI impI) simp_all
qed

theorem publishLuis_base_config_authoringKey_is_region_witness:
  "truthy (JStr ''key-0'') \<and> truthy (JStr ''westus'')
   \<and> publishLuis_build luis_env [''build''] ''mybot'' ''dev'' ''en-us'' JUndefined JUndefined
         (JStr ''key-0'') (JStr ''westus'') build_world = (Inr (), lubuilt_world)
   \<and> getLuisAppIds [''build''] lubuilt_world
       = (Inr [(''main_en_us_lu'', JStr ''id-3''), (''help_en_us_lu'', JStr ''id-2'')],
          lubuilt_world)
   \<and> lookup (fs lubuilt_world) ([''build''] @ [''appsettings.deployment.json''])
       = Some (File (JsonText (JObj deployment_fields)))
   \<and> (\<exists>written.
         readJson ([''build''] @ [''appsettings.deployment.json''])
           (snd (publishLuis project_instance luis_env [''build''] ''mybot'' ''dev'' ''en-us''
                   JUndefined JUndefined JUndefined (JStr ''key-0'') (JStr ''westus'') None
                   build_world))
         = (Inr written,
            snd (publishLuis project_instance luis_env [''build''] ''mybot'' ''dev'' ''en-us''
                   JUndefined JUndefined JUndefined (JStr ''key-0'') (JStr ''westus'') None
                   build_world))
       \<and> field (field written ''luis'') ''authoringKey'' = JStr ''westus''
       \<and> field (field written ''luis'') ''authoringRegion'' = JStr ''westus''
       \<and> field (field written ''luis'') ''endpointKey'' = JUndefined
       \<and> field (field written ''luis'') ''endpoint''
           = JStr ''https://westus.api.cognitive.microsoft.com'')"
proof -
  have k: "truthy (JStr ''key-0'')" and g: "truthy (JStr ''westus'')" by simp_all
  note T = publishLuis_base_config_authoringKey_is_region[OF k g publishLuis_build_example
             getLuisAppIds_example settings_example, of project_instance JUndefined None]
  from T obtain written where
    r: "readJson ([''build''] @ [''appsettings.deployment.json''])
           (snd (publishLuis project_instance luis_env [''build''] ''mybot'' ''dev'' ''en-us''
                   JUndefined JUndefined JUndefined (JStr ''key-0'') (JStr ''westus'') None
                   build_world))
         = (Inr written,
            snd (publishLuis project_instance luis_env [''build''] ''mybot'' ''dev'' ''en-us''
                   JUndefined JUndefined JUndefined (JStr ''key-0'') (JStr ''westus'') None
                   build_world))"
    and a: "''authoringKey'' \<notin> fst ` set [(''main_en_us_lu'', JStr ''id-3''), (''help_en_us_lu'', JStr ''id-2'')] \<longrightarrow>
                field (field written ''luis'') ''authoringKey'' = jsonify (JStr ''westus'')"
    and b: "''authoringRegion'' \<notin> fst ` set [(''main_en_us_lu'', JStr ''id-3''), (''help_en_us_lu'', JStr ''id-2'')] \<longrightarrow>
                field (field written ''luis'') ''authoringRegion'' = jsonify (JStr ''westus'')"
    and c: "''endpointKey'' \<notin> fst ` set [(''main_en_us_lu'', JStr ''id-3''), (''help_en_us_lu'', JStr ''id-2'')] \<longrightarrow>
                field (field written ''luis'') ''endpointKey'' = jsonify JUndefined"
    and d: "''endpoint'' \<notin> fst ` set [(''main_en_us_lu'', JStr ''id-3''), (''help_en_us_lu'', JStr ''id-2'')] \<longrightarrow>
                field (field written ''luis'') ''endpoint''
                  = jsonify (if truthy JUndefined then JUndefined
                             else JStr (''https://'' @ js_toString (JStr ''westus'')
                                         @ ''.api.cognitive.microsoft.com''))"
    by (elim exE conjE)
  from a have a': "field (field written ''luis'') ''authoringKey'' = JStr ''westus''" by simp
  from b have b': "field (field written ''luis'') ''authoringRegion'' = JStr ''westus''" by simp
  from c have c': "field (field written ''luis'') ''endpointKey'' = JUndefined" by simp
  from d have d': "field (field written ''luis'') ''endpoint''
           = JStr ''https://westus.api.cognitive.microsoft.com''" by simp
  have "\<exists>written.
         readJson ([''build''] @ [''appsettings.deployment.json''])
           (snd (publishLuis project_instance luis_env [''build''] ''mybot'' ''dev'' ''en-us''
                   JUndefined JUndefined JUndefined (JStr ''key-0'') (JStr ''westus'') None
                   build_world))
         = (Inr written,
            snd (publishLuis project_instance luis_env [''build''] ''mybot'' ''dev'' ''en-us''
                   JUndefined JUndefined JUndefined (JStr ''key-0'') (JStr ''westus'') None
                   build_world))
       \<and> field (field written ''luis'') ''authoringKey'' = JStr ''westus''
       \<and> field (field written ''luis'') ''authoringRegion'' = JStr ''westus''
       \<and> field (field written ''luis'') ''endpointKey'' = JUndefined
       \<and> field (field written ''luis'') ''endpoint''
           = JStr ''https://westus.api.cognitive.microsoft.com''"
    using r a' b' c' d' by (intro exI[of _ written] conjI)
  with k g publishLuis_build_example getLuisAppIds_example settings_example
  show ?thesis by (intro conjI)
qed

text \<open>
  C1. \<^verbatim>\<open>create\<close> returns the settings record (the unwrapped deployment outputs
  with \<^verbatim>\<open>MicrosoftAppId\<close> and \<^verbatim>\<open>MicrosoftAppPassword\<close>) but does not write it:
  \<^verbatim>\<open>updateDeploymentJsonFile\<close>, documented as writing the settings back to the
  settings file, only builds and returns the record. On the example project the run
  succeeds and returns the record, the file tree is what it was, and the settings file
  still holds the old settings.
\<close>

theorem create_returns_settings_without_writing_them:
  "\<exists>w'. create project_instance azure_env ''mybot'' ''westus'' ''dev'' ''secret''
           True True True True False project_world = (Inr (JObj created_settings), w')
       \<and> fs w' = fs project_world
       \<and> readJson (settingsPath project_instance) w' = (Inr project_settings, w')
       \<and> JObj created_settings \<noteq> project_settings"
proof -
  from create_project_run obtain w' where
    r: "create project_instance azure_env ''mybot'' ''westus'' ''dev'' ''secret''
          True True True True False project_world = (Inr (JObj created_settings), w')"
    by blast
  have f: "fs w' = fs project_world"
    by (rule create_keeps_fs[OF r])
  have "readJson (settingsPath project_instance) w' = (Inr project_settings, w')"
    by (rule readJson_JsonText)
       (simp add: f project_world_def project_instance_def new_BotProjectDeploy_def)
  moreover have "JObj created_settings \<noteq> project_settings"
    by (simp add: created_settings_def project_settings_def)
  ultimately show ?thesis using r f by blast
qed

text \<open>
  C10. \<^verbatim>\<open>unpackObject\<close> (lines 478--487) on a deployment-outputs object: the
  mapping it returns has the key \<open>k\<close> exactly when \<^verbatim>\<open>output[k].value\<close> is truthy, with
  that value; an entry whose value is \<^verbatim>\<open>0\<close>, \<^verbatim>\<open>false\<close>, the empty string,
  \<^verbatim>\<open>null\<close> or missing is left out. It returns whenever no entry of the outputs is
  itself \<^verbatim>\<open>null\<close>. The record that \<^verbatim>\<open>create\<close> returns has the same keys and
  values, next to the two application fields it adds.
\<close>

theorem unpackObject_keeps_exactly_truthy_values:
  "(unpackObject (JObj outputs) = Inr unpacked \<longrightarrow>
      (\<forall>k. map_of unpacked k =
         (if truthy (field (field (JObj outputs) k) ''value'')
          then Some (field (field (JObj outputs) k) ''value'') else None)))
   \<and> ((\<forall>entry\<in>snd ` set outputs. entry \<noteq> JNull \<and> entry \<noteq> JUndefined) \<longrightarrow>
      (\<exists>u. unpackObject (JObj outputs) = Inr u))
   \<and> ((\<forall>history g d. service E history (DeploymentsGet g d) = Inr deployment)
       \<and> opt_chain (opt_chain deployment ''properties'') ''outputs'' = JObj outputs
       \<and> create this E name location environment appPassword createLuisResource
            createLuisAuthoringResource createCosmosDb createStorage createAppInsights w
          = (Inr result, w') \<longrightarrow>
      (\<exists>settings. result = JObj settings
         \<and> (\<forall>k. k \<noteq> ''MicrosoftAppId'' \<and> k \<noteq> ''MicrosoftAppPassword'' \<longrightarrow>
               map_of settings k =
                 (if truthy (field (field (JObj outputs) k) ''value'')
                  then Some (field (field (JObj outputs) k) ''value'') else None))))"
proof (intro conjI impI)
  assume "unpackObject (JObj outputs) = Inr unpacked"
  then show "\<forall>k. map_of unpacked k =
         (if truthy (field (field (JObj outputs) k) ''value'')
          then Some (field (field (JObj outputs) k) ''value'') else None)"
    using unpackObject_map_of by blast
next
  assume "\<forall>entry\<in>snd ` set outputs. entry \<noteq> JNull \<and> entry \<noteq> JUndefined"
  then show "\<exists>u. unpackObject (JObj outputs) = Inr u"
    by (rule unpackObject_total)
next
  assume a: "(\<forall>history g d. service E history (DeploymentsGet g d) = Inr deployment)
       \<and> opt_chain (opt_chain deployment ''properties'') ''outputs'' = JObj outputs
       \<and> create this E name location environment appPassword createLuisResource
            createLuisAuthoringResource createCosmosDb createStorage createAppInsights w
          = (Inr result, w')"
  then have c: "create this E name location environment appPassword createLuisResource
            createLuisAuthoringResource createCosmosDb createStorage createAppInsights w
          = (Inr result, w')"
    by blast
  from create_InrD[OF c] obtain appId w2 w3 where
    u: "updateDeploymentJsonFile E (name @ ''-'' @ environment) (clock E) appId appPassword w2
          = (Inr result, w3)"
    by blast
  from a have g: "service E (calls w2) (DeploymentsGet (name @ ''-'' @ environment) (clock E))
                    = Inr deployment"
    by blast
  from a have o: "opt_chain (opt_chain deployment ''properties'') ''outputs'' = JObj outputs"
    by blast
  from updateDeploymentJsonFile_result[OF u g o] obtain unpacked where
    un: "unpackObject (JObj outputs) = Inr unpacked"
    and res: "result = JObj (Object_assign (Object_assign [] (JObj unpacked))
                          (JObj [ (''MicrosoftAppId'', appId),
                                  (''MicrosoftAppPassword'', JStr appPassword) ]))"
    by blast
  have "\<forall>k. k \<noteq> ''MicrosoftAppId'' \<and> k \<noteq> ''MicrosoftAppPassword'' \<longrightarrow>
          map_of (Object_assign (Object_assign [] (JObj unpacked))
                          (JObj [ (''MicrosoftAppId'', appId),
                                  (''MicrosoftAppPassword'', JStr appPassword) ])) k =
            (if truthy (field (field (JObj outputs) k) ''value'')
             then Some (field (field (JObj outputs) k) ''value'') else None)"
    using unpackObject_map_of[OF un]
    by (simp add: map_of_Object_assign split: option.splits del: field.simps)
  with res show "\<exists>settings. result = JObj settings
         \<and> (\<forall>k. k \<noteq> ''MicrosoftAppId'' \<and> k \<noteq> ''MicrosoftAppPassword'' \<longrightarrow>
               map_of settings k =
                 (if truthy (field (field (JObj outputs) k) ''value'')
                  then Some (field (field (JObj outputs) k) ''value'') else None))"
    by blast
qed

theorem unpackObject_keeps_exactly_truthy_values_witness:
  "(\<exists>unpacked. unpackObject (JObj output_entries) = Inr unpacked
      \<and> map_of unpacked ''luis'' = Some (JObj [(''endpointKey'', JStr ''luis-key'')])
      \<and> map_of unpacked ''cosmosDb'' = None
      \<and> map_of unpacked ''instances'' = None
      \<and> map_of unpacked ''suffix'' = None
      \<and> map_of unpacked ''useStorage'' = None)
   \<and> (\<forall>history g d. service azure_env history (DeploymentsGet g d) = Inr deployment_got)
   \<and> opt_chain (opt_chain deployment_got ''properties'') ''outputs'' = JObj output_entries
   \<and> (\<exists>settings w'.
         create project_instance azure_env ''mybot'' ''westus'' ''dev'' ''secret''
           True True True True False project_world = (Inr (JObj settings), w')
       \<and> map_of settings ''luis'' = Some (JObj [(''endpointKey'', JStr ''luis-key'')])
       \<and> map_of settings ''cosmosDb'' = None
       \<and> map_of settings ''instances'' = None)"
proof -
  have entries: "\<forall>entry\<in>snd ` set output_entries. entry \<noteq> JNull \<and> entry \<noteq> JUndefined"
    by (simp add: output_entries_def)
  have svc: "\<forall>history g d. service azure_env history (DeploymentsGet g d) = Inr deployment_got"
    by (simp add: azure_env_def azure_service_def)
  have out: "opt_chain (opt_chain deployment_got ''properties'') ''outputs'' = JObj output_entries"
    by (simp add: deployment_got_def deployment_outputs_def)
  from create_project_run obtain w' where
    run: "create project_instance azure_env ''mybot'' ''westus'' ''dev'' ''secret''
            True True True True False project_world = (Inr (JObj created_settings), w')"
    by blast
  note T = unpackObject_keeps_exactly_truthy_values
         [where outputs = output_entries and E = azure_env and deployment = deployment_got
            and this = project_instance and name = "''mybot''" and location = "''westus''"
            and environment = "''dev''" and appPassword = "''secret''"
            and createLuisResource = True and createLuisAuthoringResource = True
            and createCosmosDb = True and createStorage = True and createAppInsights = False
            and w = project_world and result = "JObj created_settings" and w' = w']
  from T[THEN conjunct2, THEN conjunct1, THEN mp, OF entries] obtain u where
    u: "unpackObject (JObj output_entries) = Inr u" ..
  from T[THEN conjunct2, THEN conjunct2, THEN mp, OF conjI[OF svc conjI[OF out run]]]
  obtain settings where
    s: "JObj created_settings = JObj settings"
    and keys: "\<forall>k. k \<noteq> ''MicrosoftAppId'' \<and> k \<noteq> ''MicrosoftAppPassword'' \<longrightarrow>
               map_of settings k =
                 (if truthy (field (field (JObj output_entries) k) ''value'')
                  then Some (field (field (JObj output_entries) k) ''value'') else None)"
    by (elim exE conjE)
  have m: "\<forall>k. map_of u k =
         (if truthy (field (field (JObj output_entries) k) ''value'')
          then Some (field (field (JObj output_entries) k) ''value'') else None)"
    using unpackObject_keeps_exactly_truthy_values
            [where outputs = output_entries and unpacked = u, THEN conjunct1, THEN mp, OF u] .
  have u1: "map_of u ''luis'' = Some (JObj [(''endpointKey'', JStr ''luis-key'')])"
    using m[rule_format, of "''luis''"] by (simp add: output_entries_def)
  have u2: "map_of u ''cosmosDb'' = None"
    using m[rule_format, of "''cosmosDb''"] by (simp add: output_entries_def)
  have u3: "map_of u ''instances'' = None"
    using m[rule_format, of "''instances''"] by (simp add: output_entries_def)
  have u4: "map_of u ''suffix'' = None"
    using m[rule_format, of "''suffix''"] by (simp add: output_entries_def)
  have u5: "map_of u ''useStorage'' = None"
    using m[rule_format, of "''useStorage''"] by (simp add: output_entries_def)
  have s1: "map_of settings ''luis'' = Some (JObj [(''endpointKey'', JStr ''luis-key'')])"
    using keys[rule_format, of "''luis''"] by (simp add: output_entries_def)
  have s2: "map_of settings ''cosmosDb'' = None"
    using keys[rule_format, of "''cosmosDb''"] by (simp add: output_entries_def)
  have s3: "map_of settings ''instances'' = None"
    using keys[rule_format, of "''instances''"] by (simp add: output_entries_def)
  have run': "create project_instance azure_env ''mybot'' ''westus'' ''dev'' ''secret''
            True True True True False project_world = (Inr (JObj settings), w')"
    using run s by simp
  have A: "\<exists>unpacked. unpackObject (JObj output_entries) = Inr unpacked
      \<and> map_of unpacked ''luis'' = Some (JObj [(''endpointKey'', JStr ''luis-key'')])
      \<and> map_of unpacked ''cosmosDb'' = None
      \<and> map_of unpacked ''instances'' = None
      \<and> map_of unpacked ''suffix'' = None
      \<and> map_of unpacked ''useStorage'' = None"
    using u u1 u2 u3 u4 u5 by (intro exI[of _ u] conjI)
  have B: "\<exists>settings w'.
         create project_instance azure_env ''mybot'' ''westus'' ''dev'' ''secret''
           True True True True False project_world = (Inr (JObj settings), w')
       \<and> map_of settings ''luis'' = Some (JObj [(''endpointKey'', JStr ''luis-key'')])
       \<and> map_of settings ''cosmosDb'' = None
       \<and> map_of settings ''instances'' = None"
    using run' s1 s2 s3 by (intro exI[of _ settings] exI[of _ w'] conjI)
  show ?thesis using A svc out B by (intro conjI)
qed

text \<open>
  C6. When the settings file exists and holds a \<^verbatim>\<open>MicrosoftAppId\<close> (a value that
  the test \<^verbatim>\<open>!appId\<close> counts as present: not empty), \<^verbatim>\<open>create\<close> makes no call
  that registers an application, whatever the app password is. The id of the settings
  is the one in use: it is the \<^verbatim>\<open>appId\<close> parameter of every template that is
  validated or deployed, and the \<^verbatim>\<open>MicrosoftAppId\<close> of the record returned.
\<close>

theorem create_reuses_MicrosoftAppId:
  assumes "lookup (fs w) (settingsPath this) = Some (File (JsonText settings))"
    and "truthy (field settings ''MicrosoftAppId'')"
    and "create this E name location environment appPassword createLuisResource
           createLuisAuthoringResource createCosmosDb createStorage createAppInsights w
         = (r, w')"
  shows "(\<exists>cs. calls w' = calls w @ cs
            \<and> list_all (\<lambda>c. \<not> registers_app c
                  \<and> uses_appId (field settings ''MicrosoftAppId'') c) cs)
       \<and> (\<forall>result. r = Inr result \<and> result \<noteq> JNull \<longrightarrow>
             field result ''MicrosoftAppId'' = field settings ''MicrosoftAppId'')"
proof
  have "trace_inv (calls w)
          (\<lambda>c. \<not> registers_app c \<and> uses_appId (field settings ''MicrosoftAppId'') c) (fs w) w'"
    using keepsD[OF keeps_create_with_appId[OF assms(1,2)] trace_inv_start assms(3)] .
  then show "\<exists>cs. calls w' = calls w @ cs
            \<and> list_all (\<lambda>c. \<not> registers_app c
                  \<and> uses_appId (field settings ''MicrosoftAppId'') c) cs"
    by (simp add: trace_inv_def)
next
  show "\<forall>result. r = Inr result \<and> result \<noteq> JNull \<longrightarrow>
             field result ''MicrosoftAppId'' = field settings ''MicrosoftAppId''"
  proof (intro allI impI)
    fix result assume a: "r = Inr result \<and> result \<noteq> JNull"
    with assms(3) have c: "create this E name location environment appPassword
        createLuisResource createLuisAuthoringResource createCosmosDb createStorage
        createAppInsights w = (Inr result, w')"
      by simp
    from create_InrD[OF c] obtain appId w1 w2 w3 where
      i: "create_identity this E name appPassword w = (Inr appId, w1)"
      and u: "updateDeploymentJsonFile E (name @ ''-'' @ environment) (clock E) appId
                appPassword w2 = (Inr result, w3)"
      by blast
    have "hoare (trace_inv (calls w) (\<lambda>c. True) (fs w)) (create_identity this E name appPassword)
           (\<lambda>appId w'. trace_inv (calls w) (\<lambda>c. True) (fs w) w'
                \<and> appId = field settings ''MicrosoftAppId'')
           (\<lambda>e. trace_inv (calls w) (\<lambda>c. True) (fs w))"
      by (rule hoare_create_identity_reuse[OF assms(1,2)]) simp
    from hoare_InrD[OF this trace_inv_start i]
    have "appId = field settings ''MicrosoftAppId''" by simp
    with updateDeploymentJsonFile_appId[OF u] a
    show "field result ''MicrosoftAppId'' = field settings ''MicrosoftAppId''"
      by simp
  qed
qed

theorem create_reuses_MicrosoftAppId_witness:
  "lookup (fs project_world) (settingsPath project_instance)
     = Some (File (JsonText project_settings))
   \<and> truthy (field project_settings ''MicrosoftAppId'')
   \<and> (\<exists>w'. create project_instance azure_env ''mybot'' ''westus'' ''dev'' ''secret''
              True True True True False project_world = (Inr (JObj created_settings), w')
          \<and> (\<exists>cs. calls w' = calls project_world @ cs
                \<and> list_all (\<lambda>c. \<not> registers_app c \<and> uses_appId (JStr ''app-0'') c) cs)
          \<and> field (JObj created_settings) ''MicrosoftAppId'' = JStr ''app-0'')"
proof -
  have h1: "lookup (fs project_world) (settingsPath project_instance)
              = Some (File (JsonText project_settings))"
    by (simp add: project_world_def project_instance_def new_BotProjectDeploy_def)
  have h2: "truthy (field project_settings ''MicrosoftAppId'')"
    by (simp add: project_settings_def)
  have id: "field project_settings ''MicrosoftAppId'' = JStr ''app-0''"
    by (simp add: project_settings_def)
  from create_project_run obtain w' where
    run: "create project_instance azure_env ''mybot'' ''westus'' ''dev'' ''secret''
            True True True True False project_world = (Inr (JObj created_settings), w')"
    by blast
  note T = create_reuses_MicrosoftAppId[OF h1 h2 run, unfolded id]
  from T[THEN conjunct1] obtain cs where
    cs: "calls w' = calls project_world @ cs
           \<and> list_all (\<lambda>c. \<not> registers_app c \<and> uses_appId (JStr ''app-0'') c) cs" ..
  have r: "field (JObj created_settings) ''MicrosoftAppId'' = JStr ''app-0''"
    using T[THEN conjunct2, THEN spec, of "JObj created_settings"] by simp
  have "\<exists>w'. create project_instance azure_env ''mybot'' ''westus'' ''dev'' ''secret''
              True True True True False project_world = (Inr (JObj created_settings), w')
          \<and> (\<exists>cs. calls w' = calls project_world @ cs
                \<and> list_all (\<lambda>c. \<not> registers_app c \<and> uses_appId (JStr ''app-0'') c) cs)
          \<and> field (JObj created_settings) ''MicrosoftAppId'' = JStr ''app-0''"
    using run cs r by (intro exI[of _ w'] exI[of _ cs] conjI) auto
  with h1 h2 show ?thesis by (intro conjI)
qed

text \<open>
  C5. When the validation of the deployment answers with an error object, \<^verbatim>\<open>create\<close>
  throws, and no call of the run applies the template (create or update). If the run
  went as far as requesting the validation, the error thrown is
  \<^verbatim>\<open>! Error: <message of the validation error>\<close>, and the last four events logged are
  the error events of lines 761--776: the notice, the error message, the hint for
  deleting the resource group, and the nested detail list. (A run that fails before it
  requests the validation throws as well, and applies no template either.)
\<close>

theorem create_throws_before_applying_invalid_template:
  assumes "\<forall>history g d p. \<exists>validation error.
             service E history (DeploymentsValidate g d p) = Inr validation
           \<and> field validation ''error'' = JObj error"
    and "create this E name location environment appPassword createLuisResource
           createLuisAuthoringResource createCosmosDb createStorage createAppInsights w
         = (r, w')"
  shows "\<exists>e cs. r = Inl e
           \<and> calls w' = calls w @ cs
           \<and> list_all (\<lambda>c. \<not> applies_template c) cs
           \<and> (list_ex validates_template cs \<longrightarrow>
                (\<exists>history g d p validation.
                   service E history (DeploymentsValidate g d p) = Inr validation
                 \<and> e = Error (''! Error: ''
                         @ js_toString (field (field validation ''error'') ''message''))
                 \<and> (\<exists>l. logged w' = l @ validation_error_events (name @ ''-'' @ environment)
                                            (field validation ''error''))))"
proof (cases r)
  case (Inr x)
  have False
    using hoare_InrD[OF hoare_create_invalid[OF assms(1)] trace_inv_start assms(2)[unfolded Inr]] .
  then show ?thesis ..
next
  case (Inl e)
  have "invalid_outcome E (calls w) (name @ ''-'' @ environment) e w'"
    using hoare_InlD[OF hoare_create_invalid[OF assms(1)] trace_inv_start assms(2)[unfolded Inl]] .
  then obtain cs where
    c: "calls w' = calls w @ cs"
    and a: "list_all (\<lambda>c. \<not> applies_template c) cs"
    and v: "list_ex validates_template cs \<longrightarrow>
                (\<exists>history g d p validation.
                   service E history (DeploymentsValidate g d p) = Inr validation
                 \<and> e = Error (''! Error: ''
                         @ js_toString (field (field validation ''error'') ''message''))
                 \<and> (\<exists>l. logged w' = l @ validation_error_events (name @ ''-'' @ environment)
                                            (field validation ''error'')))"
    unfolding invalid_outcome_def by (elim exE conjE)
  show ?thesis
    using Inl c a v by (intro exI[of _ e] exI[of _ cs] conjI)
qed

theorem create_throws_before_applying_invalid_template_witness:
  "(\<forall>history g d p. \<exists>validation error.
       service invalid_env history (DeploymentsValidate g d p) = Inr validation
     \<and> field validation ''error'' = JObj error)
   \<and> (\<exists>w' cs.
         create project_instance invalid_env ''mybot'' ''westus'' ''dev'' ''secret''
           True True True True False project_world
         = (Inl (Error ''! Error: Deployment template validation failed''), w')
       \<and> calls w' = calls project_world @ cs
       \<and> list_all (\<lambda>c. \<not> applies_template c) cs)"
proof -
  have h: "\<forall>history g d p. \<exists>validation error.
       service invalid_env history (DeploymentsValidate g d p) = Inr validation
     \<and> field validation ''error'' = JObj error"
    by (simp add: invalid_env_def invalid_service_def invalid_template_def)
  obtain r w' where
    run: "create project_instance invalid_env ''mybot'' ''westus'' ''dev'' ''secret''
           True True True True False project_world = (r, w')"
    by (cases "create project_instance invalid_env ''mybot'' ''westus'' ''dev'' ''secret''
           True True True True False project_world")
  from create_invalid_result run
  have r: "r = Inl (Error ''! Error: Deployment template validation failed'')" by simp
  from create_throws_before_applying_invalid_template[OF h run] obtain e cs where
    "r = Inl e" and c: "calls w' = calls project_world @ cs"
    and a: "list_all (\<lambda>c. \<not> applies_template c) cs"
    by (elim exE conjE)
  have "\<exists>w' cs.
         create project_instance invalid_env ''mybot'' ''westus'' ''dev'' ''secret''
           True True True True False project_world
         = (Inl (Error ''! Error: Deployment template validation failed''), w')
       \<and> calls w' = calls project_world @ cs
       \<and> list_all (\<lambda>c. \<not> applies_template c) cs"
    using run r c a by (intro exI[of _ w'] exI[of _ cs]) simp
  with h show ?thesis by (intro conjI)
qed



text \<open>
  C2. The archive of \<^verbatim>\<open>zipDirectory\<close> can contain an entry at its own output path.
  The ignore list names the one relative path \<^verbatim>\<open>code.zip\<close>, whatever the output
  path is. For an output file in a folder at or below the source directory, at any
  relative path but \<^verbatim>\<open>code.zip\<close>: if the file was there before, or the write stream
  has created it when the walk lists its folder, the call succeeds and the archive it
  leaves in the output file has a file entry at the output path.
\<close>

theorem zipDirectory_archive_contains_itself:
  assumes "lookup (fs w) (source @ dir) = Some (Dir siblings)"
    and "\<forall>sub. map_of siblings name \<noteq> Some (Dir sub)"
    and "dir @ [name] \<noteq> [''code.zip'']"
    and "map_of siblings name \<noteq> None \<or> opened_before_listed E source (source @ dir @ [name])"
  shows "\<exists>entries w'.
           zipDirectory E source (source @ dir @ [name]) w = (Inr (), w')
         \<and> lookup (fs w') (source @ dir @ [name]) = Some (File (Archive entries))
         \<and> (\<exists>bytes. (dir @ [name], Some bytes) \<in> set entries)"
proof -
  let ?out = "source @ dir @ [name]"
  let ?bytes = "Plain (unfinished_archive E source ?out)"
  have l: "lookup (fs w) ?out = map_of siblings name"
    using assms(1) lookup_append[of "fs w" "source @ dir" "[name]"]
    by (simp split: option.splits)
  from writeFile_in_dir[OF assms(1,2), of ?bytes] obtain seen where
    wr: "writeFile ?out ?bytes w = (Inr (), w\<lparr>fs := seen\<rparr>)"
    and f: "lookup seen ?out = Some (File ?bytes)"
    by auto
  have v: "archiver_view E source ?out w = seen"
    using assms(4) l wr by (auto simp: archiver_view_def)
  from glob_all_file[of seen source "dir @ [name]" ?bytes] f assms(3)
  obtain entries where g: "glob_all seen source [''code.zip''] = Inr entries"
    and m: "(dir @ [name], Some ?bytes) \<in> set entries"
    by auto
  from zipDirectory_in_dir[of w "source @ dir" siblings name E source entries] assms(1,2) g v
  obtain tree where "zipDirectory E source ?out w = (Inr (), w\<lparr>fs := tree\<rparr>)"
    and "lookup tree ?out = Some (File (Archive entries))"
    by auto
  with m show ?thesis by (intro exI[of _ entries] exI[of _ "w\<lparr>fs := tree\<rparr>"]) auto
qed

theorem zipDirectory_archive_contains_itself_witness:
  "lookup (fs artifacts_world) ([''proj''] @ [''out'']) = Some (Dir [])
   \<and> [''out''] @ [''code.zip''] \<noteq> [''code.zip'']
   \<and> opened_before_listed azure_env [''proj''] ([''proj''] @ [''out''] @ [''code.zip''])
   \<and> (\<exists>entries w'.
         zipDirectory azure_env [''proj''] ([''proj''] @ [''out''] @ [''code.zip'']) artifacts_world
           = (Inr (), w')
       \<and> lookup (fs w') ([''proj''] @ [''out''] @ [''code.zip'']) = Some (File (Archive entries))
       \<and> (\<exists>bytes. ([''out''] @ [''code.zip''], Some bytes) \<in> set entries))"
proof -
  have h1: "lookup (fs artifacts_world) ([''proj''] @ [''out'']) = Some (Dir [])"
    by (simp add: artifacts_world_def)
  have h2: "\<forall>sub. map_of [] ''code.zip'' \<noteq> Some (Dir sub)" by simp
  have h3: "[''out''] @ [''code.zip''] \<noteq> [''code.zip'']" by simp
  have o: "opened_before_listed azure_env [''proj''] ([''proj''] @ [''out''] @ [''code.zip''])"
    by (simp add: azure_env_def nested_output_def)
  then have h4: "map_of [] ''code.zip'' \<noteq> None
       \<or> opened_before_listed azure_env [''proj''] ([''proj''] @ [''out''] @ [''code.zip''])"
    by (rule disjI2)
  note T = zipDirectory_archive_contains_itself[OF h1 h2 h3 h4]
  with h1 h3 o show ?thesis by (intro conjI)
qed

text \<open>
  C3. The handler of the account list (lines 252--262) tests
  \<^verbatim>\<open>message.indexOf('access token expiry') > 0\<close>. For the error body
  \<^verbatim>\<open>{error: {message: "access token expiry ...", code: "X"}}\<close> the index is 0: the
  handler throws the caught error again as it is, and so does \<^verbatim>\<open>publishLuis\<close>; no
  error with the message \<^verbatim>\<open>Type: X, Message: access token expiry ...\<close> is raised.
\<close>

theorem publishLuis_rethrows_expiry_at_start_verbatim:
  "indexOf ''access token expiry UTC time is earlier than current UTC time''
       ''access token expiry'' = 0
   \<and> accountList_catch (StatusCodeError 401 (JsonText expiry_body)) build_world
       = (Inl (StatusCodeError 401 (JsonText expiry_body)), build_world)
   \<and> fst (publishLuis project_instance expired_env [''build''] ''mybot'' ''dev'' ''en-us''
            JUndefined JUndefined JUndefined (JStr ''key-0'') (JStr ''westus'') None build_world)
       = Inl (StatusCodeError 401 (JsonText expiry_body))"
proof (intro conjI)
  show "indexOf ''access token expiry UTC time is earlier than current UTC time''
          ''access token expiry'' = 0"
    by (simp add: indexOf_def)
  show "accountList_catch (StatusCodeError 401 (JsonText expiry_body)) build_world
       = (Inl (StatusCodeError 401 (JsonText expiry_body)), build_world)"
    by (simp add: accountList_catch_def run_defs expiry_body_def indexOf_def Let_def)
  show "fst (publishLuis project_instance expired_env [''build''] ''mybot'' ''dev'' ''en-us''
            JUndefined JUndefined JUndefined (JStr ''key-0'') (JStr ''westus'') None build_world)
       = Inl (StatusCodeError 401 (JsonText expiry_body))"
    by (simp add: publishLuis_defs run_defs object_defs build_defs project_instance_def
          new_BotProjectDeploy_def expired_env_def expiry_body_def Let_def)
qed

text \<open>
  C4. The settings write of \<^verbatim>\<open>publishLuis\<close> replaces the \<^verbatim>\<open>luis\<close> field. Two
  attempts on the same build folder: the first, with two language models, leaves the
  application ids of both in the settings file; the model \<^verbatim>\<open>help.en-us.lu\<close> is then
  deleted, and the second attempt, whose LU build generates the id of the one model
  left, succeeds and leaves a settings file without the id of \<^verbatim>\<open>help.en-us.lu\<close>.
\<close>

theorem publishLuis_drops_previous_app_id:
  "\<exists>w1 first w2 second.
       publishLuis project_instance rebuild_env [''build''] ''mybot'' ''dev'' ''en-us''
         JUndefined JUndefined JUndefined (JStr ''key-0'') (JStr ''westus'') None two_model_world
       = (Inr (), w1)
     \<and> readJson [''build'', ''appsettings.deployment.json''] w1 = (Inr first, w1)
     \<and> field (field first ''luis'') ''help.en-us.lu'' = JStr ''id-of-help.en-us.lu''
     \<and> publishLuis project_instance rebuild_env [''build''] ''mybot'' ''dev'' ''en-us''
         JUndefined JUndefined JUndefined (JStr ''key-0'') (JStr ''westus'') None
         (snd (remove [''build'', ''help.en-us.lu''] w1))
       = (Inr (), w2)
     \<and> readJson [''build'', ''appsettings.deployment.json''] w2 = (Inr second, w2)
     \<and> field (field second ''luis'') ''help.en-us.lu'' = JUndefined
     \<and> field (field second ''luis'') ''main.en-us.lu'' = JStr ''id-of-main.en-us.lu''"
proof -
  let ?run = "\<lambda>w. publishLuis project_instance rebuild_env [''build''] ''mybot'' ''dev'' ''en-us''
         JUndefined JUndefined JUndefined (JStr ''key-0'') (JStr ''westus'') None w"
  let ?p = "[''build'', ''appsettings.deployment.json'']"
  let ?first = "JObj [ (''MicrosoftAppId'', JStr ''app-0''),
       (''luis'', JObj [ (''endpoint'', JStr ''https://westus.api.cognitive.microsoft.com''),
                         (''authoringRegion'', JStr ''westus''),
                         (''authoringKey'', JStr ''westus''),
                         (''main.en-us.lu'', JStr ''id-of-main.en-us.lu''),
                         (''help.en-us.lu'', JStr ''id-of-help.en-us.lu'') ]) ]"
  let ?second = "JObj [ (''MicrosoftAppId'', JStr ''app-0''),
       (''luis'', JObj [ (''endpoint'', JStr ''https://westus.api.cognitive.microsoft.com''),
                         (''authoringRegion'', JStr ''westus''),
                         (''authoringKey'', JStr ''westus''),
                         (''main.en-us.lu'', JStr ''id-of-main.en-us.lu'') ]) ]"
  let ?tree1 = "Dir [(''build'',
              Dir [(''appsettings.deployment.json'', File (JsonText ?first)),
                   (''main.en-us.lu'', File (Plain ''# Greeting'')),
                   (''help.en-us.lu'', File (Plain ''# Help'')),
                   (''generated'',
                    Dir [(''luis.settings.dev.westus.json'',
                          File (JsonText (JObj [(''luis'',
                                 JObj [(''main.en-us.lu'', JStr ''id-of-main.en-us.lu''),
                                       (''help.en-us.lu'', JStr ''id-of-help.en-us.lu'')])])))])])]"
  let ?w1 = "snd (?run two_model_world)"
  let ?w1' = "snd (remove [''build'', ''help.en-us.lu''] ?w1)"
  let ?w2 = "snd (?run ?w1')"
  have r1: "fst (?run two_model_world) = Inr ()"
    by (simp add: publishLuis_defs run_defs object_defs two_model_world_def rebuild_env_def
          generated_settings_def luis_env_def project_instance_def new_BotProjectDeploy_def
          Let_def)
  have f1: "fs ?w1 = ?tree1"
    by (simp add: publishLuis_defs run_defs object_defs two_model_world_def rebuild_env_def
          generated_settings_def luis_env_def project_instance_def new_BotProjectDeploy_def
          Let_def)
  have run1: "?run two_model_world = (Inr (), ?w1)"
    using r1 by (cases "?run two_model_world") simp
  have read1: "readJson ?p ?w1 = (Inr ?first, ?w1)"
    by (rule readJson_JsonText) (simp add: f1)
  have f1': "fs ?w1' = Dir [(''build'',
              Dir [(''appsettings.deployment.json'', File (JsonText ?first)),
                   (''main.en-us.lu'', File (Plain ''# Greeting'')),
                   (''generated'',
                    Dir [(''luis.settings.dev.westus.json'',
                          File (JsonText (JObj [(''luis'',
                                 JObj [(''main.en-us.lu'', JStr ''id-of-main.en-us.lu''),
                                       (''help.en-us.lu'', JStr ''id-of-help.en-us.lu'')])])))])])]"
    by (simp add: remove_def f1)
  have second: "fs w = Dir [(''build'',
              Dir [(''appsettings.deployment.json'', File (JsonText ?first)),
                   (''main.en-us.lu'', File (Plain ''# Greeting'')),
                   (''generated'',
                    Dir [(''luis.settings.dev.westus.json'',
                          File (JsonText (JObj [(''luis'',
                                 JObj [(''main.en-us.lu'', JStr ''id-of-main.en-us.lu''),
                                       (''help.en-us.lu'', JStr ''id-of-help.en-us.lu'')])])))])])]
      \<Longrightarrow> fst (?run w) = Inr ()
          \<and> lookup (fs (snd (?run w))) ?p = Some (File (JsonText ?second))" for w
    by (simp add: publishLuis_defs run_defs object_defs rebuild_env_def
          generated_settings_def luis_env_def project_instance_def new_BotProjectDeploy_def
          Let_def)
  note s2 = second[OF f1']
  from s2 have r2: "fst (?run ?w1') = Inr ()" by (rule conjunct1)
  from s2 have f2: "lookup (fs ?w2) ?p = Some (File (JsonText ?second))" by (rule conjunct2)
  have run2: "?run ?w1' = (Inr (), ?w2)"
    using r2 by (cases "?run ?w1'") simp
  have read2: "readJson ?p ?w2 = (Inr ?second, ?w2)"
    by (rule readJson_JsonText[OF f2])
  have a: "field (field ?first ''luis'') ''help.en-us.lu'' = JStr ''id-of-help.en-us.lu''" by simp
  have b: "field (field ?second ''luis'') ''help.en-us.lu'' = JUndefined" by simp
  have c: "field (field ?second ''luis'') ''main.en-us.lu'' = JStr ''id-of-main.en-us.lu''" by simp
  show ?thesis
    using run1 read1 a run2 read2 b c
    by (intro exI[of _ ?w1] exI[of _ ?first] exI[of _ ?w2] exI[of _ ?second] conjI)
qed

text \<open>
  C4, amended. \<^verbatim>\<open>publishLuis\<close>, when the LU build has succeeded, the application ids
  have been read from the build tree it left, and the deployment settings of the build
  folder hold an object: however the attempt ends, the \<^verbatim>\<open>luis\<close> record of the
  settings file then has every application id read from the LUIS settings files of the
  current build tree (as JSON keeps it); it has no key that is neither such an id nor
  one of the four base fields, so an id that only the previous file had is dropped; and
  every other field of the settings file is kept.
\<close>

theorem publishLuis_writes_current_app_ids:
  assumes "truthy luisAuthoringKey" and "truthy luisAuthoringRegion"
    and "publishLuis_build E workingFolder name environment language luisEndpoint
           luisAuthoringEndpoint luisAuthoringKey luisAuthoringRegion w = (Inr (), w1)"
    and "getLuisAppIds workingFolder w1 = (Inr luisAppIds, w1)"
    and "lookup (fs w1) (workingFolder @ [''appsettings.deployment.json''])
           = Some (File (JsonText (JObj settings)))"
  shows "\<exists>written.
           readJson (workingFolder @ [''appsettings.deployment.json''])
             (snd (publishLuis this E workingFolder name environment language luisEndpoint
                     luisAuthoringEndpoint luisEndpointKey luisAuthoringKey
                     luisAuthoringRegion luisResource w))
           = (Inr written,
              snd (publishLuis this E workingFolder name environment language luisEndpoint
                     luisAuthoringEndpoint luisEndpointKey luisAuthoringKey
                     luisAuthoringRegion luisResource w))
         \<and> (\<forall>k v. map_of luisAppIds k = Some v \<and> v \<noteq> JUndefined \<longrightarrow>
                field (field written ''luis'') k = jsonify v)
         \<and> (\<forall>k. k \<notin> fst ` set luisAppIds
                \<and> k \<notin> {''endpoint'', ''endpointKey'', ''authoringRegion'', ''authoringKey''} \<longrightarrow>
                field (field written ''luis'') k = JUndefined)
         \<and> (\<forall>k. k \<noteq> ''luis'' \<longrightarrow> field written k = field (jsonify (JObj settings)) k)"
proof -
  let ?cfg = "Object_assign
                (luisConfig_base (endpoint_or_default luisEndpoint luisAuthoringRegion)
                   luisEndpointKey luisAuthoringRegion)
                (JObj luisAppIds)"
  let ?written = "jsonify (JObj (set_prop settings ''luis'' (JObj ?cfg)))"
  note r = publishLuis_written[OF assms, of this luisEndpointKey luisResource]
  have l: "field ?written ''luis'' = JObj (jsonify_fields ?cfg)"
    using field_written_luis[of settings ?cfg] by (simp only: jsonify_JObj)
  have ids: "\<forall>k v. map_of luisAppIds k = Some v \<and> v \<noteq> JUndefined \<longrightarrow>
                field (field ?written ''luis'') k = jsonify v"
  proof (intro allI impI)
    fix k v assume a: "map_of luisAppIds k = Some v \<and> v \<noteq> JUndefined"
    then have "map_of ?cfg k = Some v" by (simp add: map_of_Object_assign)
    from map_of_jsonify_fields_Some[OF this] a
    have "field (JObj (jsonify_fields ?cfg)) k = jsonify v" by simp
    then show "field (field ?written ''luis'') k = jsonify v"
      by (simp only: l)
  qed
  have others: "\<forall>k. k \<notin> fst ` set luisAppIds
                \<and> k \<notin> {''endpoint'', ''endpointKey'', ''authoringRegion'', ''authoringKey''} \<longrightarrow>
                field (field ?written ''luis'') k = JUndefined"
  proof (intro allI impI)
    fix k assume a: "k \<notin> fst ` set luisAppIds
                \<and> k \<notin> {''endpoint'', ''endpointKey'', ''authoringRegion'', ''authoringKey''}"
    then have "map_of luisAppIds k = None" by (simp add: map_of_eq_None_iff)
    with a have "map_of ?cfg k = None"
      by (simp add: map_of_Object_assign luisConfig_base_def)
    from map_of_jsonify_fields_None[OF this]
    have "field (JObj (jsonify_fields ?cfg)) k = JUndefined" by simp
    then show "field (field ?written ''luis'') k = JUndefined"
      by (simp only: l)
  qed
  have kept: "\<forall>k. k \<noteq> ''luis'' \<longrightarrow> field ?written k = field (jsonify (JObj settings)) k"
    by (intro allI impI) (rule field_written_other)
  show ?thesis
    using r ids others kept by (intro exI[of _ ?written] conjI)
qed

theorem publishLuis_writes_current_app_ids_witness:
  "truthy (JStr ''key-0'') \<and> truthy (JStr ''westus'')
   \<and> publishLuis_build luis_env [''build''] ''mybot'' ''dev'' ''en-us'' JUndefined JUndefined
         (JStr ''key-0'') (JStr ''westus'') build_world = (Inr (), lubuilt_world)
   \<and> getLuisAppIds [''build''] lubuilt_world
       = (Inr [(''main_en_us_lu'', JStr ''id-3''), (''help_en_us_lu'', JStr ''id-2'')],
          lubuilt_world)
   \<and> lookup (fs lubuilt_world) ([''build''] @ [''appsettings.deployment.json''])
       = Some (File (JsonText (JObj deployment_fields)))
   \<and> field (field (JObj deployment_fields) ''luis'') ''old_en_us_lu'' = JStr ''id-0''
   \<and> (\<exists>written.
         readJson ([''build''] @ [''appsettings.deployment.json''])
           (snd (publishLuis project_instance luis_env [''build''] ''mybot'' ''dev'' ''en-us''
                   JUndefined JUndefined JUndefined (JStr ''key-0'') (JStr ''westus'') None
                   build_world))
         = (Inr written,
            snd (publishLuis project_instance luis_env [''build''] ''mybot'' ''dev'' ''en-us''
                   JUndefined JUndefined JUndefined (JStr ''key-0'') (JStr ''westus'') None
                   build_world))
       \<and> field (field written ''luis'') ''main_en_us_lu'' = JStr ''id-3''
       \<and> field (field written ''luis'') ''help_en_us_lu'' = JStr ''id-2''
       \<and> field (field written ''luis'') ''old_en_us_lu'' = JUndefined
       \<and> field written ''MicrosoftAppId'' = JStr ''app-0'')"
proof -
  have k: "truthy (JStr ''key-0'')" and g: "truthy (JStr ''westus'')" by simp_all
  have o: "field (field (JObj deployment_fields) ''luis'') ''old_en_us_lu'' = JStr ''id-0''"
    by (simp add: deployment_fields_def)
  note T = publishLuis_writes_current_app_ids[OF k g publishLuis_build_example
             getLuisAppIds_example settings_example, of project_instance JUndefined None]
  from T obtain written where
    r: "readJson ([''build''] @ [''appsettings.deployment.json''])
           (snd (publishLuis project_instance luis_env [''build''] ''mybot'' ''dev'' ''en-us''
                   JUndefined JUndefined JUndefined (JStr ''key-0'') (JStr ''westus'') None
                   build_world))
         = (Inr written,
            snd (publishLuis project_instance luis_env [''build''] ''mybot'' ''dev'' ''en-us''
                   JUndefined JUndefined JUndefined (JStr ''key-0'') (JStr ''westus'') None
                   build_world))"
    and ids: "\<forall>k v. map_of [(''main_en_us_lu'', JStr ''id-3''), (''help_en_us_lu'', JStr ''id-2'')] k
                  = Some v \<and> v \<noteq> JUndefined \<longrightarrow>
                field (field written ''luis'') k = jsonify v"
    and others: "\<forall>k. k \<notin> fst ` set [(''main_en_us_lu'', JStr ''id-3''), (''help_en_us_lu'', JStr ''id-2'')]
                \<and> k \<notin> {''endpoint'', ''endpointKey'', ''authoringRegion'', ''authoringKey''} \<longrightarrow>
                field (field written ''luis'') k = JUndefined"
    and kept: "\<forall>k. k \<noteq> ''luis'' \<longrightarrow> field written k = field (jsonify (JObj deployment_fields)) k"
    by (elim exE conjE)
  have a: "field (field written ''luis'') ''main_en_us_lu'' = JStr ''id-3''"
    using ids[rule_format, of "''main_en_us_lu''" "JStr ''id-3''"] by simp
  have b: "field (field written ''luis'') ''help_en_us_lu'' = JStr ''id-2''"
    using ids[rule_format, of "''help_en_us_lu''" "JStr ''id-2''"] by simp
  have c: "field (field written ''luis'') ''old_en_us_lu'' = JUndefined"
    using others[rule_format, of "''old_en_us_lu''"] by simp
  have d: "field written ''MicrosoftAppId'' = JStr ''app-0''"
    using kept[rule_format, of "''MicrosoftAppId''"] by (simp add: deployment_fields_def)
  have "\<exists>written.
         readJson ([''build''] @ [''appsettings.deployment.json''])
           (snd (publishLuis project_instance luis_env [''build''] ''mybot'' ''dev'' ''en-us''
                   JUndefined JUndefined JUndefined (JStr ''key-0'') (JStr ''westus'') None
                   build_world))
         = (Inr written,
            snd (publishLuis project_instance luis_env [''build''] ''mybot'' ''dev'' ''en-us''
                   JUndefined JUndefined JUndefined (JStr ''key-0'') (JStr ''westus'') None
                   build_world))
       \<and> field (field written ''luis'') ''main_en_us_lu'' = JStr ''id-3''
       \<and> field (field written ''luis'') ''help_en_us_lu'' = JStr ''id-2''
       \<and> field (field written ''luis'') ''old_en_us_lu'' = JUndefined
       \<and> field written ''MicrosoftAppId'' = JStr ''app-0''"
    using r a b c d by (intro exI[of _ written] conjI)
  with k g o publishLuis_build_example getLuisAppIds_example settings_example
  show ?thesis by (intro conjI)
qed


end
